(* ===== verification/Prelude.thy ===== *)
theory Prelude
  imports Main "HOL-Library.Word"
begin

text \<open>
  Shared vocabulary of the development: the names of the model's types (paths, label
  values, Go's \<open>int64\<close> and \<open>uint64\<close>), the collections of rewrite rules the component
  theories fill, and generic lemmas on lists and maps that the component proofs share.
\<close>

named_theorems go_model_simps "characteristic equations of the modelled Go operations"

type_synonym path = string
type_synonym label = string
type_synonym uint64 = "64 word"

subsection \<open>Lists\<close>

lemma takeWhile_all: "list_all P xs \<Longrightarrow> takeWhile P xs = xs"
  by (induction xs) auto

lemma dropWhile_all: "list_all P xs \<Longrightarrow> dropWhile P xs = []"
  by (induction xs) auto

lemma takeWhile_dropWhile_stop:
  "list_all P xs \<Longrightarrow> \<not> P c \<Longrightarrow> takeWhile P (xs @ c # r) = xs \<and> dropWhile P (xs @ c # r) = c # r"
  by (induction xs) auto

lemma map_filter_append: "List.map_filter g (xs @ ys) = List.map_filter g xs @ List.map_filter g ys"
  by (induction xs) (simp_all add: map_filter_simps split: option.splits)

lemma map_filter_map:
  "\<forall>x \<in> set xs. g (h x) = Some (k x) \<Longrightarrow> List.map_filter g (map h xs) = map k xs"
  by (induction xs) (simp_all add: map_filter_simps)

lemma map_of_keys_inj:
  "inj lbl \<Longrightarrow> map_of (map (\<lambda>k. (lbl k, h k)) L) (lbl k) = (if k \<in> set L then Some (h k) else None)"
  by (induction L) (auto simp: inj_eq)

lemma map_of_keys_other: "ls \<notin> range lbl \<Longrightarrow> map_of (map (\<lambda>k. (lbl k, h k)) L) ls = None"
  by (induction L) auto

subsection \<open>Go's 64-bit integers\<close>

text \<open>
  A \<open>uint64\<close> below \<open>2^63\<close> reads the same as an \<open>int64\<close>, and a natural number
  below \<open>2^63\<close> survives the round trip through \<open>uint64\<close>.
\<close>

lemma unat_small_of_nat:
  "n \<le> 2 ^ 63 \<Longrightarrow> unat (of_nat n :: uint64) = n"
  by (simp add: unat_of_nat)

lemma sint_small:
  assumes "unat w < 2 ^ 63"
  shows "sint (w :: uint64) = int (unat w)"
proof -
  have u: "uint w = int (unat w)" by (rule uint_nat)
  have lt: "uint w < 2 ^ 63"
  proof -
    have "int (unat w) < int (2 ^ 63)" using assms by (simp only: of_nat_less_iff)
    then show ?thesis by (simp only: u of_nat_power of_nat_numeral)
  qed
  have ge: "- (2 ^ 63) \<le> uint w"
  proof -
    have "0 \<le> uint w" by (rule uint_ge_0)
    moreover have "- (2 ^ 63) \<le> (0::int)" by simp
    ultimately show ?thesis by (rule order_trans [rotated])
  qed
  have "sint w = signed_take_bit 63 (uint w)" by (simp add: sint_uint)
  also have "\<dots> = uint w" using ge lt by (rule signed_take_bit_int_eq_self)
  finally show ?thesis by (simp only: u)
qed
end
