(* ===== verification/Backup.thy ===== *)
theory Backup
  imports Prelude
begin

text \<open>
  The data of \<^verbatim>\<open>src/config/config.go\<close>: one tracked remote file (\<^verbatim>\<open>type Backup\<close>) and the
  process-wide configuration (\<^verbatim>\<open>type Config\<close>). Go's \<^verbatim>\<open>time.Duration\<close> is a signed 64-bit
  count of nanoseconds; it is an \<open>int\<close> here, and the parser of \<open>Duration\<close> proves that
  every value it returns lies in the \<open>int64\<close> range. The well-formedness of a list of
  items is the uniqueness of their identifiers, which \<^verbatim>\<open>readConfig\<close> guarantees by
  taking them from the keys of a YAML map.
\<close>

record backup =
  ID :: string
  URL :: string
  Username :: string
  Password :: string
  OutputFile :: path
  RetrieveSuccess :: bool

type_synonym duration = int

record config =
  Port :: int
  Backups :: "backup list"
  Interval :: duration
  RetryInterval :: duration
  MetricsPrefix :: string

definition backups_wf :: "backup list \<Rightarrow> bool" where
  "backups_wf bs \<longleftrightarrow> distinct (map ID bs)"

text \<open>
  The part of an item that no operation of the program writes: everything but the
  success flag. Sweeps change flags only, so this projection is their frame.
\<close>

text \<open>
  What \<^verbatim>\<open>readConfig\<close> guarantees of the items it loads: unique identifiers and every
  flag in the safe initial state \<open>True\<close>.
\<close>

definition config_loaded :: "config \<Rightarrow> bool" where
  "config_loaded c \<longleftrightarrow> backups_wf (Backups c) \<and> list_all RetrieveSuccess (Backups c)"

definition backup_target :: "backup \<Rightarrow> string \<times> string \<times> string \<times> string \<times> path" where
  "backup_target b = (ID b, URL b, Username b, Password b, OutputFile b)"

definition failed_ids :: "backup list \<Rightarrow> string list" where
  "failed_ids bs = map ID (filter (\<lambda>b. \<not> RetrieveSuccess b) bs)"

lemma backup_target_flag [simp]:
  "backup_target (b\<lparr>RetrieveSuccess := x\<rparr>) = backup_target b"
  by (simp add: backup_target_def)

lemma backup_target_ID:
  "backup_target b = backup_target b' \<Longrightarrow> ID b = ID b'"
  by (simp add: backup_target_def)

lemma backups_wf_targets:
  "map backup_target bs = map backup_target bs' \<Longrightarrow> backups_wf bs = backups_wf bs'"
proof -
  assume "map backup_target bs = map backup_target bs'"
  then have "map (fst \<circ> backup_target) bs = map (fst \<circ> backup_target) bs'"
    by (metis map_map)
  then have "map ID bs = map ID bs'"
    by (simp add: backup_target_def comp_def)
  then show ?thesis by (simp add: backups_wf_def)
qed

end
