(* ===== verification/Metrics.thy ===== *)
theory Metrics
  imports Backup
begin

text \<open>
  The Prometheus metrics of \<^verbatim>\<open>src/main.go\<close> (\<^verbatim>\<open>type metrics\<close>, \<^verbatim>\<open>NewMetrics\<close>,
  \<^verbatim>\<open>initializeCounters\<close>). A labelled vector is a map from its label values to the value of
  the child series; a label set with no child is a series the endpoint does not export.
  Gauges hold \<open>int\<close> (the program only stores 0/1 statuses, byte sizes and Unix seconds,
  all exact in a \<^verbatim>\<open>float64\<close> below \<open>2^53\<close>); counters hold \<open>nat\<close>. The two client
  library operations the program calls, \<^verbatim>\<open>Set\<close> and \<^verbatim>\<open>Add\<close>/\<^verbatim>\<open>Inc\<close>, are modelled
  from the spec (section 4.3): set is last-write-wins per label set, add creates the child
  at zero first.
\<close>

type_synonym build_key = "label \<times> label \<times> label \<times> label"

record metrics =
  Namespace :: string
  BuildInfo :: "build_key \<rightharpoonup> int"
  Status :: "label \<rightharpoonup> int"
  Size :: "label \<rightharpoonup> int"
  Time :: "label \<rightharpoonup> int"
  BackupFailed :: "label \<rightharpoonup> nat"
  BackupTotal :: nat

definition gauge_set :: "('k \<rightharpoonup> int) \<Rightarrow> 'k \<Rightarrow> int \<Rightarrow> ('k \<rightharpoonup> int)" where
  "gauge_set g k v = g(k \<mapsto> v)"

definition counter_val :: "('k \<rightharpoonup> nat) \<Rightarrow> 'k \<Rightarrow> nat" where
  "counter_val c k = (case c k of None \<Rightarrow> 0 | Some n \<Rightarrow> n)"

definition counter_add :: "('k \<rightharpoonup> nat) \<Rightarrow> 'k \<Rightarrow> nat \<Rightarrow> ('k \<rightharpoonup> nat)" where
  "counter_add c k d = c(k \<mapsto> counter_val c k + d)"

definition counter_inc :: "('k \<rightharpoonup> nat) \<Rightarrow> 'k \<Rightarrow> ('k \<rightharpoonup> nat)" where
  "counter_inc c k = counter_add c k 1"

definition NewMetrics :: "string \<Rightarrow> metrics" where
  "NewMetrics namespace =
     \<lparr>Namespace = namespace, BuildInfo = Map.empty, Status = Map.empty, Size = Map.empty,
      Time = Map.empty, BackupFailed = Map.empty, BackupTotal = 0\<rparr>"

record runtime_info =
  GOARCH :: string
  GOOS :: string
  GoVersion :: string

fun init_failed :: "backup list \<Rightarrow> (label \<rightharpoonup> nat) \<Rightarrow> (label \<rightharpoonup> nat)" where
  "init_failed [] c = c"
| "init_failed (b # bs) c = init_failed bs (counter_add c (ID b) 0)"

definition initializeCounters :: "runtime_info \<Rightarrow> string \<Rightarrow> config \<Rightarrow> metrics \<Rightarrow> metrics" where
  "initializeCounters rt version cfg m =
     (let m1 = m\<lparr>BuildInfo :=
                  gauge_set (BuildInfo m) (GOARCH rt, GOOS rt, GoVersion rt, version) 1\<rparr>
      in m1\<lparr>BackupFailed := init_failed (Backups cfg) (BackupFailed m1)\<rparr>)"

subsection \<open>Library operations\<close>

lemma counter_val_add [simp]:
  "counter_val (counter_add c k d) k' = (if k' = k then counter_val c k + d else counter_val c k')"
  by (simp add: counter_val_def counter_add_def)

lemma counter_val_inc [simp]:
  "counter_val (counter_inc c k) k' = (if k' = k then Suc (counter_val c k) else counter_val c k')"
  by (simp add: counter_inc_def)

lemma counter_inc_other [simp]:
  "k' \<noteq> k \<Longrightarrow> counter_inc c k k' = c k'"
  by (simp add: counter_inc_def counter_add_def)

lemma counter_inc_same [simp]:
  "counter_inc c k k = Some (Suc (counter_val c k))"
  by (simp add: counter_inc_def counter_add_def)

lemma dom_counter_inc [simp]: "dom (counter_inc c k) = insert k (dom c)"
  by (simp add: counter_inc_def counter_add_def)

lemma gauge_set_apply [simp]:
  "gauge_set g k v k' = (if k' = k then Some v else g k')"
  by (simp add: gauge_set_def)

lemma dom_gauge_set [simp]: "dom (gauge_set g k v) = insert k (dom g)"
  by (simp add: gauge_set_def)

lemma init_failed_apply:
  "init_failed bs c k =
     (if k \<in> ID ` set bs then Some (counter_val c k) else c k)"
  by (induction bs arbitrary: c) (auto simp: counter_add_def counter_val_def split: option.splits)

end
