(* ===== verification/Fetch.thy ===== *)
theory Fetch
  imports Prelude
begin

text \<open>
  The retrieval of one file, \<^verbatim>\<open>backupFile\<close> and \<^verbatim>\<open>fileSize\<close> of \<^verbatim>\<open>src/main.go\<close>.
  What the Go runtime and the network decide is an explicit \<open>world\<close>: whether
  \<^verbatim>\<open>http.NewRequestWithContext\<close> accepts the URL, what \<^verbatim>\<open>http.DefaultClient.Do\<close>
  answers for a URL and a pair of credentials (a transport error, or a response with its
  status code and body), on which paths \<^verbatim>\<open>os.Create\<close> fails, on which paths
  \<^verbatim>\<open>io.Copy\<close> fails and after how many bytes, on which paths \<^verbatim>\<open>os.Stat\<close> fails, and
  the wall clock. The local file system is a map from paths to contents (Go strings
  are byte strings, so the length of a content is its size in bytes). Every early return
  of the Go function is a branch of the model; the error value is the Go \<^verbatim>\<open>err\<close>, with
  \<open>None\<close> for \<^verbatim>\<open>nil\<close>.
\<close>

datatype go_error = ErrNewRequest | ErrDo | ErrCreate | ErrCopy | ErrStat

datatype http_result = ConnError | HttpResponse nat string

record world =
  url_valid :: "string \<Rightarrow> bool"
  http_get :: "string \<Rightarrow> string \<Rightarrow> string \<Rightarrow> http_result"
  create_fails :: "path \<Rightarrow> bool"
  copy_fails :: "path \<Rightarrow> nat option"
  stat_fails :: "path \<Rightarrow> bool"
  clock :: int

type_synonym fs = "path \<rightharpoonup> string"

definition backupFile ::
  "world \<Rightarrow> string \<Rightarrow> string \<Rightarrow> string \<Rightarrow> string \<Rightarrow> path \<Rightarrow> fs \<Rightarrow> (bool \<times> go_error option) \<times> fs"
where
  "backupFile w backupId url username password outputFile files =
     (if \<not> url_valid w url then ((False, Some ErrNewRequest), files)
      else (case http_get w url username password of
              ConnError \<Rightarrow> ((False, Some ErrDo), files)
            | HttpResponse code body \<Rightarrow>
                (if create_fails w outputFile then ((True, Some ErrCreate), files)
                 else (case copy_fails w outputFile of
                         Some n \<Rightarrow> ((True, Some ErrCopy), files(outputFile \<mapsto> take n body))
                       | None \<Rightarrow> ((True, None), files(outputFile \<mapsto> body))))))"

definition fileSize :: "world \<Rightarrow> path \<Rightarrow> fs \<Rightarrow> int \<times> go_error option" where
  "fileSize w filename files =
     (if stat_fails w filename then (0, Some ErrStat)
      else (case files filename of
              None \<Rightarrow> (0, Some ErrStat)
            | Some content \<Rightarrow> (int (length content), None)))"

text \<open>
  The transfer a world grants for an item: the body of the response, when the request
  can be built and the server answers at all.
\<close>

definition transfer :: "world \<Rightarrow> string \<Rightarrow> string \<Rightarrow> string \<Rightarrow> string option" where
  "transfer w url username password =
     (if \<not> url_valid w url then None
      else (case http_get w url username password of
              ConnError \<Rightarrow> None
            | HttpResponse code body \<Rightarrow> Some body))"

subsection \<open>The contract of the fetcher (spec section 4.4)\<close>

text \<open>
  \<^verbatim>\<open>backupFile\<close> reports \<open>attempted\<close> exactly when the remote transfer started, whatever
  happens to the local write afterwards.
\<close>

lemma backupFile_attempted:
  "fst (fst (backupFile w i url u p out files)) \<longleftrightarrow> transfer w url u p \<noteq> None"
  by (simp add: backupFile_def transfer_def split: http_result.splits option.splits)

lemma backupFile_nil_attempted:
  "snd (fst (backupFile w i url u p out files)) = None \<Longrightarrow> fst (fst (backupFile w i url u p out files))"
  by (simp add: backupFile_def split: if_splits http_result.splits option.splits)

text \<open>
  On success the destination holds the whole body; on any failure other paths are left
  alone, and the destination changes only once the file could be created.
\<close>

lemma backupFile_success:
  "snd (fst (backupFile w i url u p out files)) = None \<longleftrightarrow>
     (\<exists>body. transfer w url u p = Some body \<and> \<not> create_fails w out \<and> copy_fails w out = None)"
  by (auto simp: backupFile_def transfer_def split: http_result.splits option.splits)

lemma backupFile_files:
  "snd (backupFile w i url u p out files) =
     (case transfer w url u p of
        None \<Rightarrow> files
      | Some body \<Rightarrow>
          (if create_fails w out then files
           else files(out \<mapsto> (case copy_fails w out of Some n \<Rightarrow> take n body | None \<Rightarrow> body))))"
  by (simp add: backupFile_def transfer_def split: http_result.splits option.splits)

lemma backupFile_files_other:
  "q \<noteq> out \<Longrightarrow> snd (backupFile w i url u p out files) q = files q"
  by (simp add: backupFile_files split: option.splits)

lemma fileSize_written:
  "\<not> stat_fails w f \<Longrightarrow> files f = Some c \<Longrightarrow> fileSize w f files = (int (length c), None)"
  by (simp add: fileSize_def)

lemma fileSize_error:
  "snd (fileSize w f files) \<noteq> None \<longleftrightarrow> stat_fails w f \<or> files f = None"
  by (simp add: fileSize_def split: option.splits)

lemma backupFile_cases:
  obtains (no_request) "transfer w url u p = None" "backupFile w i url u p out files = ((False, Some (if url_valid w url then ErrDo else ErrNewRequest)), files)"
  | (create) body where "transfer w url u p = Some body" "create_fails w out"
      "backupFile w i url u p out files = ((True, Some ErrCreate), files)"
  | (copy) body n where "transfer w url u p = Some body" "\<not> create_fails w out" "copy_fails w out = Some n"
      "backupFile w i url u p out files = ((True, Some ErrCopy), files(out \<mapsto> take n body))"
  | (ok) body where "transfer w url u p = Some body" "\<not> create_fails w out" "copy_fails w out = None"
      "backupFile w i url u p out files = ((True, None), files(out \<mapsto> body))"
  by (cases "transfer w url u p"; cases "copy_fails w out")
     (auto simp: transfer_def backupFile_def split: if_splits http_result.splits)

end
