(* ===== verification/Scenarios.thy ===== *)
theory Scenarios
  imports Metrics Fetch
begin

text \<open>
  Concrete inputs for the witnesses: the worlds, items and configurations of the spec's
  scenarios (section 8) and of the Go test \<^verbatim>\<open>TestRetrieveUrlsSimple\<close>
  (\<^verbatim>\<open>src/main_test.go\<close>): a server answering the 11-byte body
  \<^verbatim>\<open>"voh0ahch3E\n"\<close>, a server refusing connections, a server answering 401, a world
  in which one of two URLs works, and worlds in which the local write or the size query
  fails. The configuration uses the test's intervals (1 minute and 10 seconds, in
  nanoseconds).
\<close>

definition body_A :: string where
  "body_A = ''voh0ahch3E'' @ [CHR 0x0A]"

definition serving :: "http_result \<Rightarrow> world" where
  "serving r =
     \<lparr>url_valid = (\<lambda>_. True), http_get = (\<lambda>_ _ _. r), create_fails = (\<lambda>_. False),
      copy_fails = (\<lambda>_. None), stat_fails = (\<lambda>_. False), clock = 1700000000\<rparr>"

definition world_A :: world where
  "world_A = serving (HttpResponse 200 body_A)"

definition world_B :: world where
  "world_B = serving ConnError"

definition world_401 :: world where
  "world_401 = serving (HttpResponse 401 ''Unauthorized'')"

definition world_create_fails :: world where
  "world_create_fails = world_A\<lparr>create_fails := (\<lambda>_. True)\<rparr>"

definition world_stat_fails :: world where
  "world_stat_fails = world_A\<lparr>stat_fails := (\<lambda>_. True)\<rparr>"

definition world_D :: world where
  "world_D = world_A\<lparr>http_get := (\<lambda>url _ _. if url = ''http://good/'' then HttpResponse 200 body_A
                                             else ConnError)\<rparr>"

definition item :: "string \<Rightarrow> string \<Rightarrow> bool \<Rightarrow> backup" where
  "item i url ok =
     \<lparr>ID = i, URL = url, Username = '''', Password = '''', OutputFile = i @ ''.out'',
      RetrieveSuccess = ok\<rparr>"

definition item_A :: backup where
  "item_A = item ''voh0ahch3E'' ''http://127.0.0.1:8080/'' True"

definition item_good :: backup where
  "item_good = item ''good'' ''http://good/'' True"

definition item_bad :: backup where
  "item_bad = item ''bad'' ''http://bad/'' True"

definition config_of :: "backup list \<Rightarrow> config" where
  "config_of bs =
     \<lparr>Port = 9289, Backups = bs, Interval = 60000000000, RetryInterval = 10000000000,
      MetricsPrefix = ''backuprf''\<rparr>"

lemmas scenario_defs = body_A_def serving_def world_A_def world_B_def world_401_def
  world_create_fails_def world_stat_fails_def world_D_def item_def item_A_def item_good_def
  item_bad_def config_of_def

end
