(* ===== verification/Sweep.thy ===== *)
theory Sweep
  imports Scenarios
begin

text \<open>
  The sweep executor, \<^verbatim>\<open>retrieveUrls\<close> of \<^verbatim>\<open>src/main.go\<close> (lines 150--191). The Go loop
  \<^verbatim>\<open>for id, backup := range cfg.Backups\<close> writes \<^verbatim>\<open>cfg.Backups[id]\<close> through the slice
  that the caller shares, so the model threads the item list, the metrics, the file system
  and the aggregate flag \<^verbatim>\<open>allRetrievalsSuccess\<close> through one recursive function and
  returns the updated configuration. One call of \<open>retrieve_item\<close> is one iteration of the
  loop body, with its \<^verbatim>\<open>continue\<close>s as branches.
\<close>

record sweep_state =
  sw_metrics :: metrics
  sw_files :: fs
  allRetrievalsSuccess :: bool

definition considered :: "bool \<Rightarrow> backup \<Rightarrow> bool" where
  "considered retrieveAll b \<longleftrightarrow> retrieveAll \<or> \<not> RetrieveSuccess b"

definition record_failure :: "label \<Rightarrow> metrics \<Rightarrow> metrics" where
  "record_failure i m =
     m\<lparr>Status := gauge_set (Status m) i 0, BackupFailed := counter_inc (BackupFailed m) i\<rparr>"

definition record_success :: "label \<Rightarrow> int \<Rightarrow> int \<Rightarrow> metrics \<Rightarrow> metrics" where
  "record_success i sz now m =
     m\<lparr>Status := gauge_set (Status m) i 1, Size := gauge_set (Size m) i sz,
       Time := gauge_set (Time m) i now\<rparr>"

definition retrieve_item :: "world \<Rightarrow> bool \<Rightarrow> backup \<Rightarrow> sweep_state \<Rightarrow> backup \<times> sweep_state" where
  "retrieve_item w retrieveAll b s =
     (if \<not> considered retrieveAll b then (b, s)
      else
        (let b1 = b\<lparr>RetrieveSuccess := True\<rparr> in
         case backupFile w (ID b) (URL b) (Username b) (Password b) (OutputFile b) (sw_files s) of
           ((ok, Some e), files1) \<Rightarrow>
             (b1\<lparr>RetrieveSuccess := ok\<rparr>,
              s\<lparr>sw_metrics := record_failure (ID b) (sw_metrics s), sw_files := files1,
                allRetrievalsSuccess := (if \<not> ok then False else allRetrievalsSuccess s)\<rparr>)
         | ((ok, None), files1) \<Rightarrow>
             (case fileSize w (OutputFile b) files1 of
                (sz, Some e) \<Rightarrow>
                  (b1, s\<lparr>sw_metrics := record_failure (ID b) (sw_metrics s), sw_files := files1\<rparr>)
              | (sz, None) \<Rightarrow>
                  (b1, s\<lparr>sw_metrics := record_success (ID b) sz (clock w) (sw_metrics s),
                         sw_files := files1\<rparr>))))"

fun retrieve_loop :: "world \<Rightarrow> bool \<Rightarrow> backup list \<Rightarrow> sweep_state \<Rightarrow> backup list \<times> sweep_state" where
  "retrieve_loop w retrieveAll [] s = ([], s)"
| "retrieve_loop w retrieveAll (b # bs) s =
     (case retrieve_item w retrieveAll b s of
        (b', s') \<Rightarrow> (case retrieve_loop w retrieveAll bs s' of
                       (bs', s'') \<Rightarrow> (b' # bs', s'')))"

definition retrieveUrls :: "world \<Rightarrow> config \<Rightarrow> metrics \<Rightarrow> fs \<Rightarrow> bool \<Rightarrow> config \<times> sweep_state" where
  "retrieveUrls w cfg metric files retrieveAll =
     (case retrieve_loop w retrieveAll (Backups cfg)
             \<lparr>sw_metrics = metric, sw_files = files, allRetrievalsSuccess = True\<rparr> of
        (bs', s) \<Rightarrow>
          (cfg\<lparr>Backups := bs'\<rparr>,
           s\<lparr>sw_metrics := (sw_metrics s)\<lparr>BackupTotal := BackupTotal (sw_metrics s) + 1\<rparr>\<rparr>))"

subsection \<open>What a sweep promises (spec section 4.2)\<close>

text \<open>
  The per-item outcome the spec describes, as functions of the world alone: whether the
  remote transfer started (\<open>fetch_started\<close>, the value of \<^verbatim>\<open>attempted\<close>), whether every
  stage including the size query succeeded (\<open>item_ok\<close>), the size recorded on success,
  the flag rule of steps 2--3, the metrics an item's attempt writes, and the items a sweep
  considers, taken in their state after the sweep.
\<close>

definition fetch_started :: "world \<Rightarrow> backup \<Rightarrow> bool" where
  "fetch_started w b \<longleftrightarrow> transfer w (URL b) (Username b) (Password b) \<noteq> None"

definition item_ok :: "world \<Rightarrow> backup \<Rightarrow> bool" where
  "item_ok w b \<longleftrightarrow> fetch_started w b \<and> \<not> create_fails w (OutputFile b)
     \<and> copy_fails w (OutputFile b) = None \<and> \<not> stat_fails w (OutputFile b)"

definition item_size :: "world \<Rightarrow> backup \<Rightarrow> int" where
  "item_size w b = (case transfer w (URL b) (Username b) (Password b) of
                      None \<Rightarrow> 0 | Some body \<Rightarrow> int (length body))"

definition sweep_flag :: "world \<Rightarrow> bool \<Rightarrow> backup \<Rightarrow> backup" where
  "sweep_flag w retrieveAll b =
     (if considered retrieveAll b then b\<lparr>RetrieveSuccess := fetch_started w b\<rparr> else b)"

definition item_metrics :: "world \<Rightarrow> backup \<Rightarrow> metrics \<Rightarrow> metrics" where
  "item_metrics w b m =
     (if item_ok w b then record_success (ID b) (item_size w b) (clock w) m
      else record_failure (ID b) m)"

definition sweep_metrics :: "world \<Rightarrow> bool \<Rightarrow> backup list \<Rightarrow> metrics \<Rightarrow> metrics" where
  "sweep_metrics w retrieveAll bs m =
     fold (item_metrics w) (filter (considered retrieveAll) bs) m"

definition metrics_at :: "metrics \<Rightarrow> label \<Rightarrow> int option \<times> int option \<times> int option \<times> nat option" where
  "metrics_at m k = (Status m k, Size m k, Time m k, BackupFailed m k)"

definition swept_items :: "bool \<Rightarrow> backup list \<Rightarrow> backup list \<Rightarrow> backup list" where
  "swept_items retrieveAll bs bs' = map snd (filter (considered retrieveAll \<circ> fst) (zip bs bs'))"

subsection \<open>One iteration and the loop\<close>

lemma retrieve_item_skip:
  "\<not> considered ra b \<Longrightarrow> retrieve_item w ra b s = (b, s)"
  by (simp add: retrieve_item_def)

lemma retrieve_item_eq:
  assumes "considered ra b"
  shows "retrieve_item w ra b s =
    (b\<lparr>RetrieveSuccess := fetch_started w b\<rparr>,
     s\<lparr>sw_metrics := item_metrics w b (sw_metrics s),
       sw_files := snd (backupFile w (ID b) (URL b) (Username b) (Password b) (OutputFile b) (sw_files s)),
       allRetrievalsSuccess := (allRetrievalsSuccess s \<and> fetch_started w b)\<rparr>)"
proof (cases rule: backupFile_cases [of w "URL b" "Username b" "Password b" "ID b" "OutputFile b" "sw_files s"])
  case no_request
  with assms show ?thesis
    by (simp add: retrieve_item_def fetch_started_def item_ok_def item_metrics_def)
next
  case (create body)
  with assms show ?thesis
    by (simp add: retrieve_item_def fetch_started_def item_ok_def item_metrics_def)
next
  case (copy body n)
  with assms show ?thesis
    by (simp add: retrieve_item_def fetch_started_def item_ok_def item_metrics_def)
next
  case (ok body)
  with assms show ?thesis
    by (simp add: retrieve_item_def fetch_started_def item_ok_def item_metrics_def item_size_def
        fileSize_def)
qed

lemma retrieve_loop_Cons:
  "retrieve_loop w ra (b # bs) s =
     (fst (retrieve_item w ra b s) # fst (retrieve_loop w ra bs (snd (retrieve_item w ra b s))),
      snd (retrieve_loop w ra bs (snd (retrieve_item w ra b s))))"
  by (simp split: prod.splits)

declare retrieve_loop.simps(2) [simp del]

lemma retrieve_item_fst: "fst (retrieve_item w ra b s) = sweep_flag w ra b"
  by (simp add: sweep_flag_def retrieve_item_skip retrieve_item_eq)

lemma retrieve_item_all:
  "allRetrievalsSuccess (snd (retrieve_item w ra b s)) \<longleftrightarrow>
     allRetrievalsSuccess s \<and> (considered ra b \<longrightarrow> fetch_started w b)"
  by (cases "considered ra b") (simp_all add: retrieve_item_skip retrieve_item_eq)

lemma retrieve_item_metrics:
  "sw_metrics (snd (retrieve_item w ra b s)) =
     (if considered ra b then item_metrics w b (sw_metrics s) else sw_metrics s)"
  by (cases "considered ra b") (simp_all add: retrieve_item_skip retrieve_item_eq)

lemma retrieve_loop_backups:
  "fst (retrieve_loop w ra bs s) = map (sweep_flag w ra) bs"
  by (induction bs arbitrary: s) (simp_all add: retrieve_loop_Cons retrieve_item_fst)

lemma retrieve_loop_all:
  "allRetrievalsSuccess (snd (retrieve_loop w ra bs s)) \<longleftrightarrow>
     allRetrievalsSuccess s \<and> list_all (\<lambda>b. considered ra b \<longrightarrow> fetch_started w b) bs"
  by (induction bs arbitrary: s) (auto simp: retrieve_loop_Cons retrieve_item_all)

lemma retrieve_loop_metrics:
  "sw_metrics (snd (retrieve_loop w ra bs s)) = sweep_metrics w ra bs (sw_metrics s)"
  by (induction bs arbitrary: s) (simp_all add: retrieve_loop_Cons retrieve_item_metrics sweep_metrics_def)

lemma item_metrics_other:
  "k \<noteq> ID b \<Longrightarrow> metrics_at (item_metrics w b m) k = metrics_at m k"
  by (simp add: metrics_at_def item_metrics_def record_success_def record_failure_def)

lemma item_metrics_local:
  "metrics_at m k = metrics_at m' k \<Longrightarrow> metrics_at (item_metrics w b m) k = metrics_at (item_metrics w b m') k"
  by (auto simp: metrics_at_def item_metrics_def record_success_def record_failure_def
      counter_inc_def counter_add_def counter_val_def)

lemma metrics_at_BackupTotal [simp]: "metrics_at (m\<lparr>BackupTotal := n\<rparr>) k = metrics_at m k"
  by (simp add: metrics_at_def)

lemma BackupTotal_item_metrics [simp]: "BackupTotal (item_metrics w b m) = BackupTotal m"
  by (simp add: item_metrics_def record_success_def record_failure_def)

lemma fold_item_metrics_other:
  "k \<notin> ID ` set bs \<Longrightarrow> metrics_at (fold (item_metrics w) bs m) k = metrics_at m k"
  by (induction bs arbitrary: m) (simp_all add: item_metrics_other)

lemma fold_item_metrics_local:
  "metrics_at m k = metrics_at m' k \<Longrightarrow>
     metrics_at (fold (item_metrics w) bs m) k = metrics_at (fold (item_metrics w) bs m') k"
proof (induction bs arbitrary: m m')
  case Nil
  then show ?case by simp
next
  case (Cons b bs)
  from Cons.prems have "metrics_at (item_metrics w b m) k = metrics_at (item_metrics w b m') k"
    by (rule item_metrics_local)
  then have "metrics_at (fold (item_metrics w) bs (item_metrics w b m)) k =
             metrics_at (fold (item_metrics w) bs (item_metrics w b m')) k"
    by (rule Cons.IH)
  then show ?case by simp
qed

lemma fold_item_metrics_item:
  assumes "distinct (map ID bs)" and "b \<in> set bs"
  shows "metrics_at (fold (item_metrics w) bs m) (ID b) = metrics_at (item_metrics w b m) (ID b)"
proof -
  from assms(2) obtain xs ys where bs: "bs = xs @ b # ys"
    by (meson split_list)
  with assms(1) have xs: "ID b \<notin> ID ` set xs" and ys: "ID b \<notin> ID ` set ys"
    by auto
  have "metrics_at (fold (item_metrics w) bs m) (ID b) =
        metrics_at (item_metrics w b (fold (item_metrics w) xs m)) (ID b)"
    using ys by (simp add: bs fold_item_metrics_other)
  also have "\<dots> = metrics_at (item_metrics w b m) (ID b)"
    using xs by (intro item_metrics_local fold_item_metrics_other)
  finally show ?thesis .
qed

lemma BuildInfo_sweep_metrics [simp]: "BuildInfo (sweep_metrics w ra bs m) = BuildInfo m"
proof -
  have "BuildInfo (fold (item_metrics w) xs m) = BuildInfo m" for xs
    by (induction xs arbitrary: m) (simp_all add: item_metrics_def record_success_def record_failure_def)
  then show ?thesis by (simp add: sweep_metrics_def)
qed

lemma BackupTotal_sweep_metrics [simp]: "BackupTotal (sweep_metrics w ra bs m) = BackupTotal m"
proof -
  have "BackupTotal (fold (item_metrics w) xs m) = BackupTotal m" for xs
    by (induction xs arbitrary: m) simp_all
  then show ?thesis by (simp add: sweep_metrics_def)
qed

lemma swept_items_map:
  "swept_items ra bs (map f bs) = map f (filter (considered ra) bs)"
  by (induction bs) (simp_all add: swept_items_def)

lemma retrieveUrls_backups:
  "Backups (fst (retrieveUrls w cfg m files ra)) = map (sweep_flag w ra) (Backups cfg)"
  using retrieve_loop_backups
  by (simp add: retrieveUrls_def split: prod.splits) (metis fst_conv)

lemma retrieveUrls_state:
  "snd (retrieveUrls w cfg m files ra) =
     (let s = snd (retrieve_loop w ra (Backups cfg)
                \<lparr>sw_metrics = m, sw_files = files, allRetrievalsSuccess = True\<rparr>)
      in s\<lparr>sw_metrics := (sw_metrics s)\<lparr>BackupTotal := Suc (BackupTotal (sw_metrics s))\<rparr>\<rparr>)"
  by (simp add: retrieveUrls_def split: prod.splits)

lemma retrieveUrls_all:
  "allRetrievalsSuccess (snd (retrieveUrls w cfg m files ra)) \<longleftrightarrow>
     list_all (\<lambda>b. considered ra b \<longrightarrow> fetch_started w b) (Backups cfg)"
  by (simp add: retrieveUrls_state Let_def retrieve_loop_all)

lemma retrieveUrls_metrics:
  "sw_metrics (snd (retrieveUrls w cfg m files ra)) =
     (sweep_metrics w ra (Backups cfg) m)\<lparr>BackupTotal := Suc (BackupTotal m)\<rparr>"
  by (simp add: retrieveUrls_state Let_def retrieve_loop_metrics)

lemma sweep_flag_success:
  "RetrieveSuccess (sweep_flag w ra b) \<longleftrightarrow> (considered ra b \<longrightarrow> fetch_started w b)"
  by (auto simp: sweep_flag_def considered_def)

lemma retrieveUrls_all_flags:
  "allRetrievalsSuccess (snd (retrieveUrls w cfg m files ra)) \<longleftrightarrow>
     list_all RetrieveSuccess (Backups (fst (retrieveUrls w cfg m files ra)))"
  by (simp add: retrieveUrls_all retrieveUrls_backups list_all_iff sweep_flag_success)

lemma retrieveUrls_item_metrics:
  assumes "backups_wf (Backups cfg)" and "b \<in> set (Backups cfg)" and "considered ra b"
  shows "metrics_at (sw_metrics (snd (retrieveUrls w cfg m files ra))) (ID b) =
           metrics_at (item_metrics w b m) (ID b)"
proof -
  have "distinct (map ID (filter (considered ra) (Backups cfg)))"
    using assms(1) by (simp add: backups_wf_def distinct_map_filter)
  moreover have "b \<in> set (filter (considered ra) (Backups cfg))"
    using assms(2,3) by simp
  ultimately show ?thesis
    by (simp add: retrieveUrls_metrics sweep_metrics_def fold_item_metrics_item)
qed

lemma retrieveUrls_other_metrics:
  assumes "backups_wf (Backups cfg)" and "b \<in> set (Backups cfg)" and "\<not> considered ra b"
  shows "metrics_at (sw_metrics (snd (retrieveUrls w cfg m files ra))) (ID b) = metrics_at m (ID b)"
proof -
  have "ID b \<notin> ID ` set (filter (considered ra) (Backups cfg))"
  proof
    assume "ID b \<in> ID ` set (filter (considered ra) (Backups cfg))"
    then obtain b' where b': "b' \<in> set (Backups cfg)" "considered ra b'" "ID b' = ID b"
      by auto
    from assms(1) have "inj_on ID (set (Backups cfg))"
      by (simp add: backups_wf_def distinct_map)
    with b' assms(2) have "b' = b"
      by (simp add: inj_on_eq_iff)
    with b'(2) assms(3) show False by simp
  qed
  then have "metrics_at (sweep_metrics w ra (Backups cfg) m) (ID b) = metrics_at m (ID b)"
    unfolding sweep_metrics_def by (rule fold_item_metrics_other)
  then show ?thesis
    by (metis retrieveUrls_metrics metrics_at_BackupTotal)
qed

lemmas sweep_code = retrieveUrls_def retrieve_item_def retrieve_loop_Cons backupFile_def
  fileSize_def considered_def record_success_def record_failure_def gauge_set_def
  counter_inc_def counter_add_def counter_val_def NewMetrics_def metrics_at_def

subsection \<open>Properties of a sweep\<close>

text \<open>
  C1. The aggregate result of a sweep is the spec's \<open>allSucceeded\<close>: the conjunction of the
  success flags of exactly the items the sweep considered, read after the sweep. The Go
  code computes it incrementally (it clears the flag when a fetch fails before the
  transfer starts); the theorem shows the two agree.
\<close>

theorem retrieveUrls_allSucceeded:
  "allRetrievalsSuccess (snd (retrieveUrls w cfg m files ra)) \<longleftrightarrow>
     list_all RetrieveSuccess
       (swept_items ra (Backups cfg) (Backups (fst (retrieveUrls w cfg m files ra))))"
  by (auto simp: retrieveUrls_all retrieveUrls_backups swept_items_map list_all_iff sweep_flag_def)

theorem retrieveUrls_allSucceeded_witness:
  "\<not> allRetrievalsSuccess
       (snd (retrieveUrls world_D (config_of [item_good, item_bad]) (NewMetrics ''backuprf'') Map.empty True))"
  using retrieveUrls_allSucceeded [of world_D "config_of [item_good, item_bad]"
      "NewMetrics ''backuprf''" Map.empty True]
  by (simp add: sweep_code scenario_defs swept_items_def)

text \<open>
  C3. A retry sweep never touches an item whose last retrieval succeeded: with unique
  identifiers, its status, size, time and failure counter are unchanged and the item
  itself is unchanged in the configuration.
\<close>

theorem retry_sweep_skips_succeeded:
  assumes "backups_wf (Backups cfg)" and "b \<in> set (Backups cfg)" and "RetrieveSuccess b"
  shows "metrics_at (sw_metrics (snd (retrieveUrls w cfg m files False))) (ID b) = metrics_at m (ID b)
         \<and> b \<in> set (Backups (fst (retrieveUrls w cfg m files False)))"
proof -
  have nc: "\<not> considered False b" using assms(3) by (simp add: considered_def)
  then have "sweep_flag w False b = b" by (simp add: sweep_flag_def)
  then have "b \<in> set (map (sweep_flag w False) (Backups cfg))"
    using assms(2) by (metis image_eqI set_map)
  with retrieveUrls_other_metrics [OF assms(1,2) nc] show ?thesis
    by (simp add: retrieveUrls_backups)
qed

theorem retry_sweep_skips_succeeded_witness:
  "backups_wf [item_good, item_bad\<lparr>RetrieveSuccess := False\<rparr>]
   \<and> item_good \<in> set [item_good, item_bad\<lparr>RetrieveSuccess := False\<rparr>] \<and> RetrieveSuccess item_good
   \<and> metrics_at (sw_metrics (snd (retrieveUrls world_B
          (config_of [item_good, item_bad\<lparr>RetrieveSuccess := False\<rparr>]) (NewMetrics ''backuprf'') Map.empty False)))
        ''good'' = (None, None, None, None)"
proof -
  let ?bs = "[item_good, item_bad\<lparr>RetrieveSuccess := False\<rparr>]"
  have h: "backups_wf (Backups (config_of ?bs))" "item_good \<in> set (Backups (config_of ?bs))"
      "RetrieveSuccess item_good"
    by (simp_all add: scenario_defs backups_wf_def)
  from retry_sweep_skips_succeeded [OF h, of world_B "NewMetrics ''backuprf''" Map.empty] h
  show ?thesis
    by (simp add: scenario_defs backups_wf_def metrics_at_def NewMetrics_def)
qed

text \<open>
  C4. Every item a sweep considers (in a full sweep: every item) gets its outcome recorded:
  status 1 and its size and the sweep's time when the fetch, the write and the size query
  all succeed; status 0 and one more failure otherwise.
\<close>

theorem sweep_records_considered_item:
  assumes "backups_wf (Backups cfg)" and "b \<in> set (Backups cfg)" and "considered ra b"
  shows "Status (sw_metrics (snd (retrieveUrls w cfg m files ra))) (ID b) =
           Some (if item_ok w b then 1 else 0)
         \<and> counter_val (BackupFailed (sw_metrics (snd (retrieveUrls w cfg m files ra)))) (ID b) =
           counter_val (BackupFailed m) (ID b) + (if item_ok w b then 0 else 1)
         \<and> (item_ok w b \<longrightarrow>
              Size (sw_metrics (snd (retrieveUrls w cfg m files ra))) (ID b) = Some (item_size w b)
            \<and> Time (sw_metrics (snd (retrieveUrls w cfg m files ra))) (ID b) = Some (clock w))"
  using retrieveUrls_item_metrics [OF assms, of w m files]
  by (auto simp: metrics_at_def item_metrics_def record_success_def record_failure_def
      counter_val_def counter_inc_def counter_add_def)

theorem sweep_records_considered_item_witness:
  "backups_wf [item_A] \<and> item_A \<in> set [item_A] \<and> considered True item_A
   \<and> Status (sw_metrics (snd (retrieveUrls world_A (config_of [item_A]) (NewMetrics ''backuprf'') Map.empty True)))
        ''voh0ahch3E'' = Some 1
   \<and> Size (sw_metrics (snd (retrieveUrls world_A (config_of [item_A]) (NewMetrics ''backuprf'') Map.empty True)))
        ''voh0ahch3E'' = Some 11"
proof -
  have h: "backups_wf (Backups (config_of [item_A]))" "item_A \<in> set (Backups (config_of [item_A]))"
      "considered True item_A"
    by (simp_all add: scenario_defs backups_wf_def considered_def)
  have ok: "item_ok world_A item_A" "item_size world_A item_A = 11"
    by (simp_all add: item_ok_def fetch_started_def item_size_def transfer_def scenario_defs)
  from sweep_records_considered_item [OF h, of world_A "NewMetrics ''backuprf''" Map.empty] h ok
  show ?thesis by (simp add: scenario_defs backups_wf_def)
qed

text \<open>
  C5. A sweep changes nothing of an item but its success flag, and the flag of every
  considered item becomes whether its remote transfer started (the \<^verbatim>\<open>attempted\<close>
  result of \<^verbatim>\<open>backupFile\<close>); the other items keep their flag.
\<close>

theorem sweep_flag_update:
  "map backup_target (Backups (fst (retrieveUrls w cfg m files ra))) = map backup_target (Backups cfg)
   \<and> map RetrieveSuccess (Backups (fst (retrieveUrls w cfg m files ra))) =
       map (\<lambda>b. if considered ra b then fetch_started w b else RetrieveSuccess b) (Backups cfg)"
  by (simp add: retrieveUrls_backups sweep_flag_def comp_def if_distrib)

theorem sweep_flag_update_witness:
  "map RetrieveSuccess (Backups (fst (retrieveUrls world_D (config_of [item_good, item_bad])
       (NewMetrics ''backuprf'') Map.empty True))) = [True, False]"
  using sweep_flag_update [of world_D "config_of [item_good, item_bad]" "NewMetrics ''backuprf''" Map.empty True]
  by (simp add: scenario_defs considered_def fetch_started_def transfer_def)

text \<open>
  The sweep counter \<^verbatim>\<open>backup_nb\<close> grows by exactly one per call of
  \<^verbatim>\<open>retrieveUrls\<close>, whatever the working set, the empty one included.
\<close>

lemma retrieveUrls_counts_once:
  "BackupTotal (sw_metrics (snd (retrieveUrls w cfg m files ra))) = Suc (BackupTotal m)"
  by (simp add: retrieveUrls_metrics)

lemma retrieveUrls_counts_once_witness:
  "BackupTotal (sw_metrics (snd (retrieveUrls world_A (config_of []) (NewMetrics ''backuprf'') Map.empty False))) = 1"
  using retrieveUrls_counts_once [of world_A "config_of []" "NewMetrics ''backuprf''" Map.empty False]
  by (simp add: NewMetrics_def)

text \<open>
  C7. A failure after the remote transfer started (the local file cannot be created or
  written, or its size cannot be read) is reported as a failure (status 0, failure counter
  plus one) but leaves the item's flag at success and the sweep's aggregate result
  unchanged: the item is not retried before the next full sweep. The spec (section 9)
  names the size-query case as an open question; the code treats the local write errors
  the same way.
\<close>

theorem local_failure_not_retried:
  assumes "considered ra b" and "fetch_started w b" and "\<not> item_ok w b"
  shows "RetrieveSuccess (fst (retrieve_item w ra b s))
         \<and> allRetrievalsSuccess (snd (retrieve_item w ra b s)) = allRetrievalsSuccess s
         \<and> Status (sw_metrics (snd (retrieve_item w ra b s))) (ID b) = Some 0
         \<and> counter_val (BackupFailed (sw_metrics (snd (retrieve_item w ra b s)))) (ID b) =
              Suc (counter_val (BackupFailed (sw_metrics s)) (ID b))"
  using assms
  by (simp add: retrieve_item_eq item_metrics_def record_failure_def)

theorem local_failure_not_retried_witness:
  "considered True item_A \<and> fetch_started world_create_fails item_A \<and> \<not> item_ok world_create_fails item_A
   \<and> RetrieveSuccess (fst (retrieve_item world_create_fails True item_A
         \<lparr>sw_metrics = NewMetrics ''backuprf'', sw_files = Map.empty, allRetrievalsSuccess = True\<rparr>))
   \<and> allRetrievalsSuccess (snd (retrieve_item world_create_fails True item_A
         \<lparr>sw_metrics = NewMetrics ''backuprf'', sw_files = Map.empty, allRetrievalsSuccess = True\<rparr>))"
proof -
  have h: "considered True item_A" "fetch_started world_create_fails item_A"
      "\<not> item_ok world_create_fails item_A"
    by (simp_all add: considered_def fetch_started_def item_ok_def transfer_def scenario_defs)
  from local_failure_not_retried [OF h] h show ?thesis by simp
qed

text \<open>
  C8. \<^verbatim>\<open>backupFile\<close> never looks at the HTTP status code: an error response (401
  Unauthorized after a password change, 404 after a move) is written over the destination
  and reported as a successful backup (status 1, flag true).
\<close>

theorem http_error_saved_as_success:
  assumes "considered ra b" and "url_valid w (URL b)"
    and "http_get w (URL b) (Username b) (Password b) = HttpResponse code body"
    and "\<not> create_fails w (OutputFile b)" and "copy_fails w (OutputFile b) = None"
    and "\<not> stat_fails w (OutputFile b)"
  shows "sw_files (snd (retrieve_item w ra b s)) (OutputFile b) = Some body
         \<and> Status (sw_metrics (snd (retrieve_item w ra b s))) (ID b) = Some 1
         \<and> RetrieveSuccess (fst (retrieve_item w ra b s))"
  using assms
  by (simp add: retrieve_item_eq item_metrics_def record_success_def item_ok_def fetch_started_def
      transfer_def backupFile_def)

theorem http_error_saved_as_success_witness:
  "sw_files (snd (retrieve_item world_401 True item_A
      \<lparr>sw_metrics = NewMetrics ''backuprf'', sw_files = [''voh0ahch3E.out'' \<mapsto> body_A],
        allRetrievalsSuccess = True\<rparr>)) ''voh0ahch3E.out'' = Some ''Unauthorized''
   \<and> Status (sw_metrics (snd (retrieve_item world_401 True item_A
      \<lparr>sw_metrics = NewMetrics ''backuprf'', sw_files = [''voh0ahch3E.out'' \<mapsto> body_A],
        allRetrievalsSuccess = True\<rparr>))) ''voh0ahch3E'' = Some 1"
proof -
  have h: "considered True item_A" "url_valid world_401 (URL item_A)"
      "http_get world_401 (URL item_A) (Username item_A) (Password item_A) = HttpResponse 401 ''Unauthorized''"
      "\<not> create_fails world_401 (OutputFile item_A)" "copy_fails world_401 (OutputFile item_A) = None"
      "\<not> stat_fails world_401 (OutputFile item_A)"
    by (simp_all add: considered_def scenario_defs)
  from http_error_saved_as_success [OF h] show ?thesis
    by (simp add: scenario_defs)
qed

end
