(* ===== verification/Scheduler.thy ===== *)
theory Scheduler
  imports Sweep
begin

text \<open>
  The scheduler, the body of \<^verbatim>\<open>main\<close> in \<^verbatim>\<open>src/main.go\<close> from the creation of the two
  tickers (lines 210--217) to the goroutine's \<^verbatim>\<open>select\<close> loop (lines 219--235). Its
  state is the configuration shared with every sweep (the slice \<^verbatim>\<open>cfg.Backups\<close>), the
  metrics, the local files and the state of \<^verbatim>\<open>tickerRetry\<close>: ticking after
  \<^verbatim>\<open>NewTicker\<close> or \<^verbatim>\<open>Reset\<close>, stopped after \<^verbatim>\<open>Stop\<close>. The full-sweep ticker is never
  stopped. \<^verbatim>\<open>time.NewTicker\<close> panics on a non-positive interval; that is the error value
  of \<open>start\<close>. One round of the loop is one received tick: the receive from
  \<^verbatim>\<open>tickerRetry.C\<close> is possible only while that ticker runs (the Go 1.23 timer semantics,
  under which \<^verbatim>\<open>Stop\<close> also discards a tick already due), and which ready tick the
  \<^verbatim>\<open>select\<close> takes is not determined, so the loop is a step relation. The world may
  differ from one sweep to the next. This theory abstracts from the clock: when a tick
  comes is not modelled, only which ticks can come.
\<close>

datatype ticker = Ticking | Stopped

datatype tick = FullTick | RetryTick

datatype go_panic = NonPositiveInterval

record sched =
  cfg :: config
  metric :: metrics
  disk :: fs
  tickerRetry :: ticker

definition NewTicker :: "duration \<Rightarrow> go_panic + ticker" where
  "NewTicker d = (if d \<le> 0 then Inl NonPositiveInterval else Inr Ticking)"

definition start :: "world \<Rightarrow> config \<Rightarrow> metrics \<Rightarrow> fs \<Rightarrow> go_panic + sched" where
  "start w c m files =
     (case NewTicker (Interval c) of
        Inl p \<Rightarrow> Inl p
      | Inr ticker \<Rightarrow>
          (case NewTicker (RetryInterval c) of
             Inl p \<Rightarrow> Inl p
           | Inr retry \<Rightarrow>
               (case retrieveUrls w c m files True of
                  (c', r) \<Rightarrow>
                    Inr \<lparr>cfg = c', metric = sw_metrics r, disk = sw_files r,
                         tickerRetry = (if allRetrievalsSuccess r then Stopped else retry)\<rparr>)))"

fun on_tick :: "world \<Rightarrow> tick \<Rightarrow> sched \<Rightarrow> sched" where
  "on_tick w FullTick s =
     (case retrieveUrls w (cfg s) (metric s) (disk s) True of
        (c', r) \<Rightarrow>
          s\<lparr>cfg := c', metric := sw_metrics r, disk := sw_files r,
            tickerRetry := (if allRetrievalsSuccess r then Stopped else Ticking)\<rparr>)"
| "on_tick w RetryTick s =
     (case retrieveUrls w (cfg s) (metric s) (disk s) False of
        (c', r) \<Rightarrow>
          s\<lparr>cfg := c', metric := sw_metrics r, disk := sw_files r,
            tickerRetry := (if allRetrievalsSuccess r then Stopped else tickerRetry s)\<rparr>)"

definition tick_ready :: "sched \<Rightarrow> tick \<Rightarrow> bool" where
  "tick_ready s t \<longleftrightarrow> (case t of FullTick \<Rightarrow> True | RetryTick \<Rightarrow> tickerRetry s = Ticking)"

inductive loop_step :: "sched \<Rightarrow> sched \<Rightarrow> bool" where
  tick: "tick_ready s t \<Longrightarrow> loop_step s (on_tick w t s)"

inductive reachable :: "sched \<Rightarrow> bool" where
  init: "config_loaded c \<Longrightarrow> start w c m files = Inr s \<Longrightarrow> reachable s"
| step: "reachable s \<Longrightarrow> loop_step s s' \<Longrightarrow> reachable s'"

subsection \<open>The spec's retry state machine (section 4.1)\<close>

datatype retry_state = Disarmed | Armed

definition retry_abs :: "sched \<Rightarrow> retry_state" where
  "retry_abs s = (case tickerRetry s of Ticking \<Rightarrow> Armed | Stopped \<Rightarrow> Disarmed)"

definition spec_after_sweep :: "bool \<Rightarrow> retry_state" where
  "spec_after_sweep allSucceeded = (if allSucceeded then Disarmed else Armed)"

definition sched_inv :: "sched \<Rightarrow> bool" where
  "sched_inv s \<longleftrightarrow> backups_wf (Backups (cfg s))
     \<and> (tickerRetry s = Ticking \<longleftrightarrow> \<not> list_all RetrieveSuccess (Backups (cfg s)))"

inductive_cases loop_stepE: "loop_step s s'"

lemma on_tick_parts:
  "cfg (on_tick w t s) = fst (retrieveUrls w (cfg s) (metric s) (disk s) (t = FullTick))
   \<and> metric (on_tick w t s) = sw_metrics (snd (retrieveUrls w (cfg s) (metric s) (disk s) (t = FullTick)))"
  by (cases t) (simp_all split: prod.splits)

lemma on_tick_ticker:
  "tick_ready s t \<Longrightarrow>
   tickerRetry (on_tick w t s) =
     (if allRetrievalsSuccess (snd (retrieveUrls w (cfg s) (metric s) (disk s) (t = FullTick)))
      then Stopped else Ticking)"
  by (cases t) (simp_all add: tick_ready_def split: prod.splits)

lemma on_tick_targets:
  "map backup_target (Backups (cfg (on_tick w t s))) = map backup_target (Backups (cfg s))"
  by (simp add: on_tick_parts retrieveUrls_backups sweep_flag_def comp_def)

lemma sched_inv_step:
  assumes "sched_inv s" and "loop_step s s'"
  shows "sched_inv s'"
proof -
  from assms(2) obtain t w where tick: "s' = on_tick w t s" "tick_ready s t"
    by (auto elim: loop_stepE)
  have "backups_wf (Backups (cfg s'))"
    using assms(1) on_tick_targets [of w t s] tick(1)
    by (metis backups_wf_targets sched_inv_def)
  moreover have "tickerRetry s' = Ticking \<longleftrightarrow> \<not> list_all RetrieveSuccess (Backups (cfg s'))"
    using tick on_tick_ticker [OF tick(2), of w] retrieveUrls_all_flags
    by (simp add: on_tick_parts)
  ultimately show ?thesis by (simp add: sched_inv_def)
qed

lemma sched_inv_start:
  assumes "config_loaded c" and "start w c m files = Inr s"
  shows "sched_inv s"
proof -
  from assms(2) have s: "s = \<lparr>cfg = fst (retrieveUrls w c m files True),
      metric = sw_metrics (snd (retrieveUrls w c m files True)),
      disk = sw_files (snd (retrieveUrls w c m files True)),
      tickerRetry = (if allRetrievalsSuccess (snd (retrieveUrls w c m files True)) then Stopped else Ticking)\<rparr>"
    by (auto simp: start_def NewTicker_def split: if_splits prod.splits)
  have "backups_wf (Backups (fst (retrieveUrls w c m files True)))"
    using assms(1) backups_wf_targets [of "Backups (fst (retrieveUrls w c m files True))" "Backups c"]
    by (simp add: config_loaded_def retrieveUrls_backups sweep_flag_def comp_def)
  then show ?thesis
    using retrieveUrls_all_flags [of w c m files True]
    by (simp add: s sched_inv_def)
qed

lemma reachable_sched_inv: "reachable s \<Longrightarrow> sched_inv s"
proof (induction rule: reachable.induct)
  case (init c w m files s)
  then show ?case by (rule sched_inv_start)
next
  case (step s s')
  then show ?case by (blast intro: sched_inv_step)
qed

lemma start_eq:
  "0 < Interval c \<Longrightarrow> 0 < RetryInterval c \<Longrightarrow>
   start w c m files =
     Inr \<lparr>cfg = fst (retrieveUrls w c m files True),
          metric = sw_metrics (snd (retrieveUrls w c m files True)),
          disk = sw_files (snd (retrieveUrls w c m files True)),
          tickerRetry = (if allRetrievalsSuccess (snd (retrieveUrls w c m files True)) then Stopped else Ticking)\<rparr>"
  by (simp add: start_def NewTicker_def split: prod.splits)

lemmas sched_code = start_def NewTicker_def retry_abs_def tick_ready_def config_loaded_def

subsection \<open>Properties of the scheduler\<close>

text \<open>
  C2. In every state the program can reach, the retry ticker runs (the spec's
  \<open>Armed\<close>) exactly when some tracked item's last retrieval failed.
\<close>

theorem retry_armed_iff_pending:
  "reachable s \<Longrightarrow> retry_abs s = Armed \<longleftrightarrow> \<not> list_all RetrieveSuccess (Backups (cfg s))"
  using reachable_sched_inv [of s]
  by (auto simp: sched_inv_def retry_abs_def split: ticker.splits)

theorem retry_armed_iff_pending_witness:
  "reachable (projr (start world_B (config_of [item_A]) (NewMetrics ''backuprf'') Map.empty))
   \<and> retry_abs (projr (start world_B (config_of [item_A]) (NewMetrics ''backuprf'') Map.empty)) = Armed"
proof -
  let ?s = "projr (start world_B (config_of [item_A]) (NewMetrics ''backuprf'') Map.empty)"
  have st: "start world_B (config_of [item_A]) (NewMetrics ''backuprf'') Map.empty = Inr ?s"
    by (simp add: sched_code sweep_code scenario_defs split: prod.splits)
  have "config_loaded (config_of [item_A])"
    by (simp add: sched_code scenario_defs backups_wf_def)
  then have r: "reachable ?s" using st by (rule reachable.init)
  have "\<not> list_all RetrieveSuccess (Backups (cfg ?s))"
    by (simp add: sched_code sweep_code scenario_defs split: prod.splits)
  with retry_armed_iff_pending [OF r] r show ?thesis by simp
qed

text \<open>
  C9. Each round of the loop refines the spec's state machine: after the sweep a tick
  triggers, the retry timer is disarmed when the sweep reports that all considered items
  succeeded and armed otherwise, for full and for retry sweeps alike.
\<close>

theorem on_tick_refines_spec:
  "tick_ready s t \<Longrightarrow>
   retry_abs (on_tick w t s) =
     spec_after_sweep (allRetrievalsSuccess (snd (retrieveUrls w (cfg s) (metric s) (disk s) (t = FullTick))))"
  by (simp add: on_tick_ticker retry_abs_def spec_after_sweep_def)

theorem on_tick_refines_spec_witness:
  "tick_ready (projr (start world_B (config_of [item_A]) (NewMetrics ''backuprf'') Map.empty)) RetryTick
   \<and> retry_abs (on_tick world_A RetryTick
        (projr (start world_B (config_of [item_A]) (NewMetrics ''backuprf'') Map.empty))) = Disarmed"
proof -
  let ?s = "projr (start world_B (config_of [item_A]) (NewMetrics ''backuprf'') Map.empty)"
  have h: "tick_ready ?s RetryTick"
    by (simp add: sched_code sweep_code scenario_defs split: prod.splits)
  from on_tick_refines_spec [OF h, of world_A] h show ?thesis
    by (simp add: sched_code sweep_code scenario_defs spec_after_sweep_def split: prod.splits)
qed

text \<open>
  C10. Before the loop starts, \<^verbatim>\<open>main\<close> runs one synchronous full sweep; the retry ticker
  is left running exactly when that sweep did not succeed (it is not reset: it runs from
  its creation, before the sweep).
\<close>

theorem start_runs_full_sweep:
  assumes "0 < Interval c" and "0 < RetryInterval c"
  shows "\<exists>s. start w c m files = Inr s
           \<and> cfg s = fst (retrieveUrls w c m files True)
           \<and> metric s = sw_metrics (snd (retrieveUrls w c m files True))
           \<and> retry_abs s = spec_after_sweep (allRetrievalsSuccess (snd (retrieveUrls w c m files True)))"
  by (simp add: start_eq [OF assms] retry_abs_def spec_after_sweep_def)

theorem start_runs_full_sweep_witness:
  "0 < Interval (config_of [item_A]) \<and> 0 < RetryInterval (config_of [item_A])
   \<and> (\<exists>s. start world_A (config_of [item_A]) (NewMetrics ''backuprf'') Map.empty = Inr s \<and> retry_abs s = Disarmed)"
proof -
  have h: "0 < Interval (config_of [item_A])" "0 < RetryInterval (config_of [item_A])"
    by (simp_all add: scenario_defs)
  from start_runs_full_sweep [OF h, of world_A "NewMetrics ''backuprf''" Map.empty] h show ?thesis
    by (auto simp: sweep_code scenario_defs spec_after_sweep_def split: prod.splits)
qed

text \<open>
  C11. A configured interval of zero or less (which \<^verbatim>\<open>time.ParseDuration\<close> accepts, for
  instance \<^verbatim>\<open>"0s"\<close> or \<^verbatim>\<open>"-5m"\<close>) makes \<^verbatim>\<open>time.NewTicker\<close> panic before the
  first sweep: the program does not start.
\<close>

theorem start_panics_nonpositive:
  "Interval c \<le> 0 \<or> RetryInterval c \<le> 0 \<Longrightarrow> start w c m files = Inl NonPositiveInterval"
  by (auto simp: start_def NewTicker_def)

theorem start_panics_nonpositive_witness:
  "start world_A ((config_of [item_A])\<lparr>Interval := 0\<rparr>) (NewMetrics ''backuprf'') Map.empty = Inl NonPositiveInterval"
  using start_panics_nonpositive [of "(config_of [item_A])\<lparr>Interval := 0\<rparr>"] by simp

text \<open>
  C12. Every round of the loop runs exactly one sweep (the counter \<^verbatim>\<open>backup_nb\<close> grows
  by one) and keeps the tracked items: only their success flags change.
\<close>

theorem loop_step_one_sweep:
  "loop_step s s' \<Longrightarrow>
   BackupTotal (metric s') = Suc (BackupTotal (metric s))
   \<and> map backup_target (Backups (cfg s')) = map backup_target (Backups (cfg s))"
proof -
  assume "loop_step s s'"
  then obtain t w where s': "s' = on_tick w t s" by (auto elim: loop_stepE)
  have "BackupTotal (metric s') = Suc (BackupTotal (metric s))"
    by (simp add: s' on_tick_parts retrieveUrls_metrics)
  moreover have "map backup_target (Backups (cfg s')) = map backup_target (Backups (cfg s))"
    unfolding s' by (rule on_tick_targets)
  ultimately show ?thesis ..
qed

theorem loop_step_one_sweep_witness:
  "BackupTotal (metric (on_tick world_A FullTick
      (projr (start world_A (config_of [item_A]) (NewMetrics ''backuprf'') Map.empty)))) = 2"
proof -
  let ?s = "projr (start world_A (config_of [item_A]) (NewMetrics ''backuprf'') Map.empty)"
  have "loop_step ?s (on_tick world_A FullTick ?s)"
    by (rule loop_step.tick) (simp add: tick_ready_def)
  from loop_step_one_sweep [OF this] show ?thesis
    by (simp add: sched_code sweep_code scenario_defs split: prod.splits)
qed

text \<open>
  The spec's scenarios B and C (section 8): with a server that refuses connections,
  the first full sweep reports status 0 and one failure, clears the item's flag and arms
  the retry timer; when the server answers again, the retry sweep's working set is exactly
  that item, it succeeds, sets the flag and disarms the timer.
\<close>

lemma scenario_B_then_C:
  "Status (metric (projr (start world_B (config_of [item_A]) (NewMetrics ''backuprf'') Map.empty))) ''voh0ahch3E'' = Some 0
   \<and> BackupFailed (metric (projr (start world_B (config_of [item_A]) (NewMetrics ''backuprf'') Map.empty))) ''voh0ahch3E'' = Some 1
   \<and> failed_ids (Backups (cfg (projr (start world_B (config_of [item_A]) (NewMetrics ''backuprf'') Map.empty)))) = [''voh0ahch3E'']
   \<and> retry_abs (projr (start world_B (config_of [item_A]) (NewMetrics ''backuprf'') Map.empty)) = Armed
   \<and> map RetrieveSuccess (Backups (cfg (on_tick world_A RetryTick
        (projr (start world_B (config_of [item_A]) (NewMetrics ''backuprf'') Map.empty))))) = [True]
   \<and> Status (metric (on_tick world_A RetryTick
        (projr (start world_B (config_of [item_A]) (NewMetrics ''backuprf'') Map.empty)))) ''voh0ahch3E'' = Some 1
   \<and> retry_abs (on_tick world_A RetryTick
        (projr (start world_B (config_of [item_A]) (NewMetrics ''backuprf'') Map.empty))) = Disarmed"
  by (simp add: sched_code sweep_code scenario_defs failed_ids_def split: prod.splits)

text \<open>
  The spec's scenario D: with one item that always succeeds and one that always
  fails, the full sweep reports failure although one item succeeded, and the following
  retry sweep considers only the failing item, leaving the other one's metrics alone.
\<close>

lemma scenario_D:
  "retry_abs (projr (start world_D (config_of [item_good, item_bad]) (NewMetrics ''backuprf'') Map.empty)) = Armed
   \<and> failed_ids (Backups (cfg (projr (start world_D (config_of [item_good, item_bad]) (NewMetrics ''backuprf'') Map.empty)))) = [''bad'']
   \<and> Status (metric (projr (start world_D (config_of [item_good, item_bad]) (NewMetrics ''backuprf'') Map.empty))) ''good'' = Some 1
   \<and> BackupFailed (metric (on_tick world_D RetryTick
        (projr (start world_D (config_of [item_good, item_bad]) (NewMetrics ''backuprf'') Map.empty)))) ''good'' = None
   \<and> BackupFailed (metric (on_tick world_D RetryTick
        (projr (start world_D (config_of [item_good, item_bad]) (NewMetrics ''backuprf'') Map.empty)))) ''bad'' = Some 2"
  by (simp add: sched_code sweep_code scenario_defs failed_ids_def split: prod.splits)

end
