(* ===== verification/Timers.thy ===== *)
theory Timers
  imports Scheduler
begin

text \<open>
  The scheduler with its clock. \<^verbatim>\<open>Scheduler\<close> abstracts from time: which tick may come
  next. This theory adds the two Go tickers of \<^verbatim>\<open>main\<close> (\<^verbatim>\<open>src/main.go\<close> lines 211--233)
  with their deadlines, the clock, and the time a sweep takes, and shows that the timed
  loop refines the untimed one, that the tickers keep their cadence, and that the loop
  reaches every point in time.

  A Go ticker (\<^verbatim>\<open>time.NewTicker\<close>, \<^verbatim>\<open>Stop\<close>, \<^verbatim>\<open>Reset\<close>, the runtime's periodic
  timer) is modelled from the Go documentation and runtime, under the Go 1.23 semantics:
  a tick that falls due while nobody receives waits in the channel (at most one, later
  ones are dropped), the next deadline stays on the ticker's grid (the runtime's
  \<open>when + period * (1 + (now - when) div period)\<close>), and \<^verbatim>\<open>Stop\<close> and \<^verbatim>\<open>Reset\<close> discard a
  tick that waits. A sweep runs from the moment its tick is received and takes the time
  the timeline gives for that moment; the tickers fire meanwhile.
\<close>

subsection \<open>Go tickers\<close>

record go_ticker =
  tk_period :: duration
  tk_when :: int
  tk_on :: bool
  tk_ready :: bool

definition next_when :: "int \<Rightarrow> duration \<Rightarrow> int \<Rightarrow> int" where
  "next_when when p now = when + p * (1 + (now - when) div p)"

definition ticker_new :: "int \<Rightarrow> duration \<Rightarrow> go_ticker" where
  "ticker_new now d = \<lparr>tk_period = d, tk_when = now + d, tk_on = True, tk_ready = False\<rparr>"

definition ticker_stop :: "go_ticker \<Rightarrow> go_ticker" where
  "ticker_stop k = k\<lparr>tk_on := False, tk_ready := False\<rparr>"

definition ticker_reset :: "int \<Rightarrow> duration \<Rightarrow> go_ticker \<Rightarrow> go_ticker" where
  "ticker_reset now d k = k\<lparr>tk_period := d, tk_when := now + d, tk_on := True, tk_ready := False\<rparr>"

definition ticker_recv :: "go_ticker \<Rightarrow> go_ticker" where
  "ticker_recv k = k\<lparr>tk_ready := False\<rparr>"

definition ticker_fire :: "int \<Rightarrow> go_ticker \<Rightarrow> go_ticker" where
  "ticker_fire now k =
     (if tk_on k \<and> tk_when k \<le> now
      then k\<lparr>tk_ready := True, tk_when := next_when (tk_when k) (tk_period k) now\<rparr> else k)"

text \<open>
  The reference for \<open>next_when\<close>: step the deadline by one period until it lies in the
  future, as a timer that is re-armed after every firing would.
\<close>

function grid_after :: "int \<Rightarrow> duration \<Rightarrow> int \<Rightarrow> int" where
  "grid_after when p now = (if p \<le> 0 \<or> now < when then when else grid_after (when + p) p now)"
  by pat_completeness auto
termination
  by (relation "measure (\<lambda>(when, p, now). nat (now - when + 1))") auto

subsection \<open>The timed loop\<close>

record tstate =
  ts_cfg :: config
  ts_metric :: metrics
  ts_disk :: fs
  tnow :: int
  tk_full :: go_ticker
  tk_retry :: go_ticker

type_synonym timeline = "int \<Rightarrow> world \<times> nat"

definition untimed :: "tstate \<Rightarrow> sched" where
  "untimed ts = \<lparr>cfg = ts_cfg ts, metric = ts_metric ts, disk = ts_disk ts,
                 tickerRetry = (if tk_on (tk_retry ts) then Ticking else Stopped)\<rparr>"

definition t_sweep :: "world \<Rightarrow> nat \<Rightarrow> bool \<Rightarrow> tstate \<Rightarrow> tstate \<times> bool" where
  "t_sweep w d retrieveAll ts =
     (case retrieveUrls w (ts_cfg ts) (ts_metric ts) (ts_disk ts) retrieveAll of
        (c', r) \<Rightarrow>
          (ts\<lparr>ts_cfg := c', ts_metric := sw_metrics r, ts_disk := sw_files r,
              tnow := tnow ts + int d,
              tk_full := ticker_fire (tnow ts + int d) (tk_full ts),
              tk_retry := ticker_fire (tnow ts + int d) (tk_retry ts)\<rparr>,
           allRetrievalsSuccess r))"

fun t_on_tick :: "world \<Rightarrow> nat \<Rightarrow> tick \<Rightarrow> tstate \<Rightarrow> tstate" where
  "t_on_tick w d FullTick ts =
     (case t_sweep w d True (ts\<lparr>tk_full := ticker_recv (tk_full ts)\<rparr>) of
        (ts', ok) \<Rightarrow>
          (if ok then ts'\<lparr>tk_retry := ticker_stop (tk_retry ts')\<rparr>
           else ts'\<lparr>tk_retry := ticker_reset (tnow ts') (RetryInterval (ts_cfg ts)) (tk_retry ts')\<rparr>))"
| "t_on_tick w d RetryTick ts =
     (case t_sweep w d False (ts\<lparr>tk_retry := ticker_recv (tk_retry ts)\<rparr>) of
        (ts', ok) \<Rightarrow> (if ok then ts'\<lparr>tk_retry := ticker_stop (tk_retry ts')\<rparr> else ts'))"

definition t_start :: "timeline \<Rightarrow> int \<Rightarrow> config \<Rightarrow> metrics \<Rightarrow> fs \<Rightarrow> go_panic + tstate" where
  "t_start tline t0 c m files =
     (case NewTicker (Interval c) of
        Inl p \<Rightarrow> Inl p
      | Inr _ \<Rightarrow>
          (case NewTicker (RetryInterval c) of
             Inl p \<Rightarrow> Inl p
           | Inr _ \<Rightarrow>
               (case t_sweep (fst (tline t0)) (snd (tline t0)) True
                       \<lparr>ts_cfg = c, ts_metric = m, ts_disk = files, tnow = t0,
                        tk_full = ticker_new t0 (Interval c), tk_retry = ticker_new t0 (RetryInterval c)\<rparr> of
                  (ts, ok) \<Rightarrow> Inr (if ok then ts\<lparr>tk_retry := ticker_stop (tk_retry ts)\<rparr> else ts))))"

definition idle :: "tstate \<Rightarrow> bool" where
  "idle ts \<longleftrightarrow> \<not> tk_ready (tk_full ts) \<and> \<not> tk_ready (tk_retry ts)"

definition next_deadline :: "tstate \<Rightarrow> int" where
  "next_deadline ts =
     (if tk_on (tk_retry ts) then min (tk_when (tk_full ts)) (tk_when (tk_retry ts))
      else tk_when (tk_full ts))"

definition t_wait :: "tstate \<Rightarrow> tstate" where
  "t_wait ts =
     ts\<lparr>tnow := next_deadline ts,
        tk_full := ticker_fire (next_deadline ts) (tk_full ts),
        tk_retry := ticker_fire (next_deadline ts) (tk_retry ts)\<rparr>"

inductive t_step :: "timeline \<Rightarrow> tstate \<Rightarrow> tstate \<Rightarrow> bool" where
  wait: "idle ts \<Longrightarrow> t_step tline ts (t_wait ts)"
| full: "tk_ready (tk_full ts) \<Longrightarrow> t_step tline ts (t_on_tick (fst (tline (tnow ts))) (snd (tline (tnow ts))) FullTick ts)"
| retry: "tk_ready (tk_retry ts) \<Longrightarrow> t_step tline ts (t_on_tick (fst (tline (tnow ts))) (snd (tline (tnow ts))) RetryTick ts)"

inductive t_reachable :: "timeline \<Rightarrow> tstate \<Rightarrow> bool" for tline where
  init: "config_loaded c \<Longrightarrow> t_start tline t0 c m files = Inr ts \<Longrightarrow> t_reachable tline ts"
| step: "t_reachable tline ts \<Longrightarrow> t_step tline ts ts' \<Longrightarrow> t_reachable tline ts'"

definition ticker_ok :: "int \<Rightarrow> duration \<Rightarrow> go_ticker \<Rightarrow> bool" where
  "ticker_ok now p k \<longleftrightarrow> tk_period k = p \<and> (tk_on k \<longrightarrow> now < tk_when k \<and> tk_when k \<le> now + p)
     \<and> (tk_ready k \<longrightarrow> tk_on k)"

definition t_inv :: "tstate \<Rightarrow> bool" where
  "t_inv ts \<longleftrightarrow> 0 < Interval (ts_cfg ts) \<and> 0 < RetryInterval (ts_cfg ts) \<and> tk_on (tk_full ts)
     \<and> ticker_ok (tnow ts) (Interval (ts_cfg ts)) (tk_full ts)
     \<and> ticker_ok (tnow ts) (RetryInterval (ts_cfg ts)) (tk_retry ts)"

partial_function (option) run_until :: "timeline \<Rightarrow> int \<Rightarrow> tstate \<Rightarrow> tstate option" where
  "run_until tline horizon ts =
     (if horizon \<le> tnow ts then Some ts
      else if tk_ready (tk_full ts)
      then run_until tline horizon (t_on_tick (fst (tline (tnow ts))) (snd (tline (tnow ts))) FullTick ts)
      else if tk_ready (tk_retry ts)
      then run_until tline horizon (t_on_tick (fst (tline (tnow ts))) (snd (tline (tnow ts))) RetryTick ts)
      else run_until tline horizon (t_wait ts))"

subsection \<open>Timed scenarios\<close>

definition timeline_B :: timeline where
  "timeline_B = (\<lambda>_. (world_B, 5000000000))"

definition timeline_slow :: timeline where
  "timeline_slow = (\<lambda>_. (world_A, 130000000000))"

definition ts_B :: tstate where
  "ts_B = projr (t_start timeline_B 0 (config_of [item_A]) (NewMetrics ''backuprf'') Map.empty)"

subsection \<open>Lemmas\<close>

lemma next_when_bounds:
  assumes "0 < p" and "when \<le> now"
  shows "now < next_when when p now \<and> next_when when p now \<le> now + p"
proof -
  let ?q = "(now - when) div p" and ?r = "(now - when) mod p"
  have split: "now - when = p * ?q + ?r" by simp
  have r: "0 \<le> ?r" "?r < p" using assms(1) by simp_all
  have "next_when when p now = now - ?r + p"
    unfolding next_when_def using split by (simp add: algebra_simps)
  with r show ?thesis by simp
qed

lemma next_when_mod: "next_when when p now mod p = when mod p"
  by (simp add: next_when_def)

lemma next_when_step:
  assumes "0 < p" and "when + p \<le> now"
  shows "next_when when p now = next_when (when + p) p now"
proof -
  have e: "now - when = (now - (when + p)) + p" by simp
  have "(now - (when + p) + p) div p = (now - (when + p)) div p + 1"
    by (rule div_add_self2) (use assms(1) in simp)
  then have "(now - when) div p = (now - (when + p)) div p + 1"
    by (subst e)
  then show ?thesis by (simp add: next_when_def algebra_simps)
qed

lemma next_when_grid_after:
  "0 < p \<Longrightarrow> when \<le> now \<Longrightarrow> next_when when p now = grid_after when p now"
proof (induction "when" p now rule: grid_after.induct)
  case (1 "when" p now)
  show ?case
  proof (cases "now < when + p")
    case True
    then have "(now - when) div p = 0" using 1(2,3) by (simp add: div_pos_pos_trivial)
    then show ?thesis using True 1(2,3) by (simp add: next_when_def grid_after.simps)
  next
    case False
    then show ?thesis
      using 1 next_when_step [of p "when" now] by (simp add: grid_after.simps)
  qed
qed

lemma ticker_fire_ok:
  assumes "0 < p" and "ticker_ok now p k" and "now \<le> t"
  shows "ticker_ok t p (ticker_fire t k)"
proof (cases "tk_on k \<and> tk_when k \<le> t")
  case True
  then show ?thesis
    using assms next_when_bounds [OF assms(1), of "tk_when k" t]
    by (simp add: ticker_fire_def ticker_ok_def)
next
  case False
  then show ?thesis using assms by (auto simp: ticker_fire_def ticker_ok_def)
qed

lemma ticker_fire_on [simp]: "tk_on (ticker_fire t k) = tk_on k"
  by (simp add: ticker_fire_def)

lemma ticker_fire_period [simp]: "tk_period (ticker_fire t k) = tk_period k"
  by (simp add: ticker_fire_def)

lemma ticker_fire_future:
  "tk_on k \<longrightarrow> t < tk_when k \<Longrightarrow> ticker_fire t k = k"
  by (auto simp: ticker_fire_def)

lemma ticker_recv_ok: "ticker_ok now p k \<Longrightarrow> ticker_ok now p (ticker_recv k)"
  by (simp add: ticker_recv_def ticker_ok_def)

lemma ticker_stop_ok: "tk_period k = p \<Longrightarrow> ticker_ok now p (ticker_stop k)"
  by (simp add: ticker_stop_def ticker_ok_def)

lemma ticker_reset_ok: "0 < p \<Longrightarrow> ticker_ok now p (ticker_reset now p k)"
  by (simp add: ticker_reset_def ticker_ok_def)

lemma ticker_new_ok: "0 < p \<Longrightarrow> ticker_ok now p (ticker_new now p)"
  by (simp add: ticker_new_def ticker_ok_def)

lemma retrieveUrls_intervals [simp]:
  "Interval (fst (retrieveUrls w c m files ra)) = Interval c"
  "RetryInterval (fst (retrieveUrls w c m files ra)) = RetryInterval c"
  by (simp_all add: retrieveUrls_def split: prod.splits)

lemma t_sweep_parts:
  "ts_cfg (fst (t_sweep w d ra ts)) = fst (retrieveUrls w (ts_cfg ts) (ts_metric ts) (ts_disk ts) ra)"
  "ts_metric (fst (t_sweep w d ra ts)) = sw_metrics (snd (retrieveUrls w (ts_cfg ts) (ts_metric ts) (ts_disk ts) ra))"
  "ts_disk (fst (t_sweep w d ra ts)) = sw_files (snd (retrieveUrls w (ts_cfg ts) (ts_metric ts) (ts_disk ts) ra))"
  "tnow (fst (t_sweep w d ra ts)) = tnow ts + int d"
  "tk_full (fst (t_sweep w d ra ts)) = ticker_fire (tnow ts + int d) (tk_full ts)"
  "tk_retry (fst (t_sweep w d ra ts)) = ticker_fire (tnow ts + int d) (tk_retry ts)"
  "snd (t_sweep w d ra ts) = allRetrievalsSuccess (snd (retrieveUrls w (ts_cfg ts) (ts_metric ts) (ts_disk ts) ra))"
  by (simp_all add: t_sweep_def split: prod.splits)

lemma t_on_tick_eq:
  "t_on_tick w d t ts =
     (let ts1 = (if t = FullTick then ts\<lparr>tk_full := ticker_recv (tk_full ts)\<rparr>
                 else ts\<lparr>tk_retry := ticker_recv (tk_retry ts)\<rparr>);
          ts' = fst (t_sweep w d (t = FullTick) ts1)
      in if snd (t_sweep w d (t = FullTick) ts1) then ts'\<lparr>tk_retry := ticker_stop (tk_retry ts')\<rparr>
         else if t = FullTick
         then ts'\<lparr>tk_retry := ticker_reset (tnow ts') (RetryInterval (ts_cfg ts)) (tk_retry ts')\<rparr>
         else ts')"
  by (cases t) (simp_all add: Let_def split: prod.splits)

lemma untimed_t_on_tick: "untimed (t_on_tick w d t ts) = on_tick w t (untimed ts)"
  by (cases t)
    (simp_all add: untimed_def t_sweep_def ticker_stop_def ticker_reset_def ticker_recv_def
      split: prod.splits)

lemma untimed_t_wait [simp]: "untimed (t_wait ts) = untimed ts"
  by (simp add: untimed_def t_wait_def)

lemma t_inv_sweep:
  assumes "0 < Interval (ts_cfg ts)" and "0 < RetryInterval (ts_cfg ts)" and "tk_on (tk_full ts)"
    and "ticker_ok (tnow ts) (Interval (ts_cfg ts)) (tk_full ts)"
    and "ticker_ok (tnow ts) (RetryInterval (ts_cfg ts)) (tk_retry ts)"
  shows "t_inv (fst (t_sweep w d ra ts))"
proof -
  have "tnow ts \<le> tnow ts + int d" by simp
  with assms show ?thesis
    by (simp add: t_inv_def t_sweep_parts ticker_fire_ok)
qed

lemma t_inv_stop: "t_inv ts \<Longrightarrow> t_inv (ts\<lparr>tk_retry := ticker_stop (tk_retry ts)\<rparr>)"
  by (simp add: t_inv_def ticker_ok_def ticker_stop_def)

lemma t_inv_reset:
  "t_inv ts \<Longrightarrow> t_inv (ts\<lparr>tk_retry := ticker_reset (tnow ts) (RetryInterval (ts_cfg ts)) (tk_retry ts)\<rparr>)"
  by (simp add: t_inv_def ticker_ok_def ticker_reset_def)

lemma t_inv_on_tick:
  assumes "t_inv ts"
  shows "t_inv (t_on_tick w d t ts)"
proof -
  define ts1 where "ts1 = (if t = FullTick then ts\<lparr>tk_full := ticker_recv (tk_full ts)\<rparr>
                           else ts\<lparr>tk_retry := ticker_recv (tk_retry ts)\<rparr>)"
  define ts' where "ts' = fst (t_sweep w d (t = FullTick) ts1)"
  have "t_inv ts1"
    using assms by (simp add: ts1_def t_inv_def ticker_recv_ok) (simp add: ticker_recv_def)
  then have inv': "t_inv ts'"
    unfolding ts'_def by (intro t_inv_sweep) (simp_all add: t_inv_def)
  have "RetryInterval (ts_cfg ts') = RetryInterval (ts_cfg ts)"
    by (simp add: ts'_def ts1_def t_sweep_parts)
  then show ?thesis
    using t_inv_stop [OF inv'] t_inv_reset [OF inv'] inv'
    unfolding t_on_tick_eq Let_def ts1_def [symmetric] ts'_def [symmetric]
    by simp
qed

lemma t_wait_later:
  assumes "t_inv ts"
  shows "tnow ts < next_deadline ts"
  using assms by (simp add: t_inv_def ticker_ok_def next_deadline_def)

lemma t_inv_wait:
  assumes "t_inv ts"
  shows "t_inv (t_wait ts)"
proof -
  have le: "tnow ts \<le> next_deadline ts" using t_wait_later [OF assms] by simp
  have "ticker_ok (next_deadline ts) (Interval (ts_cfg ts)) (ticker_fire (next_deadline ts) (tk_full ts))"
    "ticker_ok (next_deadline ts) (RetryInterval (ts_cfg ts)) (ticker_fire (next_deadline ts) (tk_retry ts))"
    using assms le unfolding t_inv_def by (blast intro: ticker_fire_ok)+
  with assms show ?thesis
    by (simp add: t_inv_def t_wait_def)
qed

lemma t_inv_step: "t_step tline ts ts' \<Longrightarrow> t_inv ts \<Longrightarrow> t_inv ts'"
  by (induction rule: t_step.induct) (blast intro: t_inv_on_tick t_inv_wait)+

lemma t_start_eq:
  assumes "0 < Interval c" and "0 < RetryInterval c"
  shows "t_start tline t0 c m files =
    Inr (let ts0 = \<lparr>ts_cfg = c, ts_metric = m, ts_disk = files, tnow = t0,
                    tk_full = ticker_new t0 (Interval c), tk_retry = ticker_new t0 (RetryInterval c)\<rparr>;
             ts = fst (t_sweep (fst (tline t0)) (snd (tline t0)) True ts0)
         in if snd (t_sweep (fst (tline t0)) (snd (tline t0)) True ts0)
            then ts\<lparr>tk_retry := ticker_stop (tk_retry ts)\<rparr> else ts)"
  using assms by (simp add: t_start_def NewTicker_def Let_def split: prod.splits)

lemma t_start_Inr:
  assumes "t_start tline t0 c m files = Inr ts"
  shows "0 < Interval c" and "0 < RetryInterval c"
  using assms by (auto simp: t_start_def NewTicker_def split: if_splits)

lemma t_inv_start:
  assumes "t_start tline t0 c m files = Inr ts"
  shows "t_inv ts"
proof -
  note pos = t_start_Inr [OF assms]
  let ?ts0 = "\<lparr>ts_cfg = c, ts_metric = m, ts_disk = files, tnow = t0,
               tk_full = ticker_new t0 (Interval c), tk_retry = ticker_new t0 (RetryInterval c)\<rparr>"
  have "t_inv (fst (t_sweep (fst (tline t0)) (snd (tline t0)) True ?ts0))"
    using pos by (intro t_inv_sweep) (simp_all add: ticker_new_ok, simp add: ticker_new_def)
  then show ?thesis
    using assms t_start_eq [OF pos(1) pos(2)]
    by (auto simp: Let_def t_inv_def ticker_ok_def ticker_stop_def split: if_splits)
qed

lemma untimed_t_start:
  assumes "t_start tline t0 c m files = Inr ts"
  shows "start (fst (tline t0)) c m files = Inr (untimed ts)"
proof -
  note pos = t_start_Inr [OF assms]
  show ?thesis
    using assms t_start_eq [OF pos(1) pos(2), of tline t0 m files] start_eq [OF pos(1) pos(2)]
    by (auto simp: Let_def untimed_def t_sweep_parts ticker_stop_def ticker_new_def split: if_splits)
qed

lemma t_step_sim:
  assumes "t_step tline ts ts'" and "t_inv ts"
  shows "untimed ts' = untimed ts \<or> loop_step (untimed ts) (untimed ts')"
  using assms
proof (induction rule: t_step.induct)
  case (wait ts tline)
  then show ?case by simp
next
  case (full ts tline)
  have "loop_step (untimed ts) (on_tick (fst (tline (tnow ts))) FullTick (untimed ts))"
    by (rule loop_step.tick) (simp add: tick_ready_def)
  then show ?case by (metis untimed_t_on_tick)
next
  case (retry ts tline)
  then have "tick_ready (untimed ts) RetryTick"
    by (simp add: tick_ready_def untimed_def t_inv_def ticker_ok_def)
  then have "loop_step (untimed ts) (on_tick (fst (tline (tnow ts))) RetryTick (untimed ts))"
    by (rule loop_step.tick)
  then show ?case by (metis untimed_t_on_tick)
qed

lemma t_reachable_inv: "t_reachable tline ts \<Longrightarrow> t_inv ts \<and> reachable (untimed ts)"
proof (induction rule: t_reachable.induct)
  case (init c t0 m files ts)
  then show ?case
    using t_inv_start untimed_t_start reachable.init by blast
next
  case (step ts ts')
  then show ?case
    using t_inv_step t_step_sim reachable.step by metis
qed

lemma t_on_tick_tnow [simp]: "tnow (t_on_tick w d t ts) = tnow ts + int d"
  by (simp add: t_on_tick_eq Let_def t_sweep_parts)

lemma t_on_tick_instant_idle:
  assumes "t_inv ts" and "t = RetryTick \<Longrightarrow> \<not> tk_ready (tk_full ts)"
  shows "idle (t_on_tick w 0 t ts)"
proof -
  have future: "ticker_fire (tnow ts) k = k" if "ticker_ok (tnow ts) p k" for k p
    using that by (intro ticker_fire_future) (simp add: ticker_ok_def)
  have ok: "ticker_ok (tnow ts) (Interval (ts_cfg ts)) (ticker_recv (tk_full ts))"
      "ticker_ok (tnow ts) (RetryInterval (ts_cfg ts)) (ticker_recv (tk_retry ts))"
    using assms(1) by (simp_all add: t_inv_def ticker_recv_ok)
  show ?thesis
  proof (cases t)
    case FullTick
    then show ?thesis
      using future [OF ok(1)]
      by (simp add: t_on_tick_eq Let_def t_sweep_parts idle_def ticker_recv_def
          ticker_stop_def ticker_reset_def)
  next
    case RetryTick
    have "ticker_ok (tnow ts) (Interval (ts_cfg ts)) (tk_full ts)"
      using assms(1) by (simp add: t_inv_def)
    then show ?thesis
      using RetryTick assms(2) future [OF ok(2)] future [of "Interval (ts_cfg ts)" "tk_full ts"]
      by (simp add: t_on_tick_eq Let_def t_sweep_parts idle_def ticker_recv_def ticker_stop_def)
  qed
qed

lemma t_wait_not_idle:
  assumes "t_inv ts"
  shows "\<not> idle (t_wait ts)"
proof -
  have on: "tk_on (tk_full ts)" using assms by (simp add: t_inv_def)
  show ?thesis
  proof (cases "tk_on (tk_retry ts) \<and> tk_when (tk_retry ts) < tk_when (tk_full ts)")
    case True
    then show ?thesis
      by (simp add: idle_def t_wait_def next_deadline_def ticker_fire_def min_def)
  next
    case False
    then show ?thesis using on
      by (auto simp: idle_def t_wait_def next_deadline_def ticker_fire_def min_def)
  qed
qed

lemma run_until_reaches:
  assumes "t_inv ts"
  shows "\<exists>ts'. run_until tline horizon ts = Some ts' \<and> (t_step tline)\<^sup>*\<^sup>* ts ts' \<and> horizon \<le> tnow ts'"
  using assms
proof (induction "3 * nat (horizon - tnow ts) + ((if tk_ready (tk_full ts) then 1 else 0)
                  + (if tk_ready (tk_retry ts) then 1 else 0))" arbitrary: ts rule: less_induct)
  case less
  let ?rank = "\<lambda>ts. (if tk_ready (tk_full ts) then 1 else 0) + (if tk_ready (tk_retry ts) then 1 else (0::nat))"
  let ?w = "fst (tline (tnow ts))" and ?d = "snd (tline (tnow ts))"
  have tick: "\<exists>ts'. run_until tline horizon (t_on_tick ?w ?d t ts) = Some ts'
                \<and> (t_step tline)\<^sup>*\<^sup>* ts ts' \<and> horizon \<le> tnow ts'"
    if step: "t_step tline ts (t_on_tick ?w ?d t ts)" and early: "tnow ts < horizon"
      and rdy: "0 < ?rank ts" and noful: "t = RetryTick \<Longrightarrow> \<not> tk_ready (tk_full ts)" for t
  proof -
    let ?ts1 = "t_on_tick ?w ?d t ts"
    have inv1: "t_inv ?ts1" using less.prems by (rule t_inv_on_tick)
    have "3 * nat (horizon - tnow ?ts1) + ?rank ?ts1 < 3 * nat (horizon - tnow ts) + ?rank ts"
    proof (cases "?d = 0")
      case True
      then have "idle ?ts1" using t_on_tick_instant_idle [OF less.prems noful] by simp
      then show ?thesis using True rdy by (simp add: idle_def)
    next
      case False
      then have a: "nat (horizon - tnow ?ts1) < nat (horizon - tnow ts)" using early by simp
      have "?rank ?ts1 \<le> 2" by simp
      with a show ?thesis by linarith
    qed
    then obtain ts' where "run_until tline horizon ?ts1 = Some ts'" "(t_step tline)\<^sup>*\<^sup>* ?ts1 ts'"
        "horizon \<le> tnow ts'"
      using less.hyps [OF _ inv1] by blast
    then show ?thesis using step by (meson converse_rtranclp_into_rtranclp)
  qed
  show ?case
  proof (cases "horizon \<le> tnow ts")
    case True
    then show ?thesis by (subst run_until.simps) simp
  next
    case early: False
    show ?thesis
    proof (cases "tk_ready (tk_full ts)")
      case True
      then show ?thesis
        using tick [of FullTick] early t_step.full [of ts tline]
        by (subst run_until.simps) (simp del: t_on_tick.simps)
    next
      case nofull: False
      show ?thesis
      proof (cases "tk_ready (tk_retry ts)")
        case True
        then show ?thesis
          using tick [of RetryTick] early nofull t_step.retry [of ts tline]
          by (subst run_until.simps) (simp del: t_on_tick.simps)
      next
        case False
        then have idle: "idle ts" using nofull by (simp add: idle_def)
        have later: "tnow ts < tnow (t_wait ts)"
          using t_wait_later [OF less.prems] by (simp add: t_wait_def)
        have a: "nat (horizon - tnow (t_wait ts)) < nat (horizon - tnow ts)"
          using later early by simp
        have "?rank (t_wait ts) \<le> 2" by simp
        with a have "3 * nat (horizon - tnow (t_wait ts)) + ?rank (t_wait ts) < 3 * nat (horizon - tnow ts) + ?rank ts"
          by linarith
        then obtain ts' where "run_until tline horizon (t_wait ts) = Some ts'"
            "(t_step tline)\<^sup>*\<^sup>* (t_wait ts) ts'" "horizon \<le> tnow ts'"
          using less.hyps [OF _ t_inv_wait [OF less.prems]] by blast
        moreover have "t_step tline ts (t_wait ts)" using idle by (rule t_step.wait)
        moreover have "run_until tline horizon ts = run_until tline horizon (t_wait ts)"
          using early nofull False by (subst run_until.simps) simp
        ultimately show ?thesis by (metis converse_rtranclp_into_rtranclp)
      qed
    qed
  qed
qed

lemma t_reachable_star:
  "(t_step tline)\<^sup>*\<^sup>* ts ts' \<Longrightarrow> t_reachable tline ts \<Longrightarrow> t_reachable tline ts'"
  by (induction rule: rtranclp_induct) (auto intro: t_reachable.step)

lemma t_start_B: "t_start timeline_B 0 (config_of [item_A]) (NewMetrics ''backuprf'') Map.empty = Inr ts_B"
  by (simp add: ts_B_def t_start_def NewTicker_def scenario_defs split: prod.splits)

lemma ts_B_parts:
  "tnow ts_B = 5000000000" "tk_on (tk_retry ts_B)" "tk_when (tk_retry ts_B) = 10000000000"
  "\<not> tk_ready (tk_retry ts_B)" "\<not> tk_ready (tk_full ts_B)" "tk_when (tk_full ts_B) = 60000000000"
  "Backups (ts_cfg ts_B) = [item_A\<lparr>RetrieveSuccess := False\<rparr>]"
  "Interval (ts_cfg ts_B) = 60000000000" "RetryInterval (ts_cfg ts_B) = 10000000000"
  "tk_period (tk_retry ts_B) = 10000000000"
  by (simp_all add: ts_B_def t_start_def NewTicker_def t_sweep_def ticker_new_def ticker_fire_def
      ticker_stop_def timeline_B_def sweep_code scenario_defs split: prod.splits)

lemma ts_B_reachable: "t_reachable timeline_B ts_B"
  by (rule t_reachable.init [OF _ t_start_B]) (simp add: config_loaded_def backups_wf_def scenario_defs)

lemma t_start_fail:
  assumes "t_start tline t0 c m files = Inr ts"
    and "\<not> list_all RetrieveSuccess (Backups (ts_cfg ts))"
  shows "ts = fst (t_sweep (fst (tline t0)) (snd (tline t0)) True
                \<lparr>ts_cfg = c, ts_metric = m, ts_disk = files, tnow = t0,
                 tk_full = ticker_new t0 (Interval c), tk_retry = ticker_new t0 (RetryInterval c)\<rparr>)"
proof -
  note pos = t_start_Inr [OF assms(1)]
  show ?thesis
    using assms t_start_eq [OF pos, of tline t0 m files] retrieveUrls_all_flags
    by (auto simp: Let_def t_sweep_parts split: if_splits)
qed

lemma ticker_fire_mod: "tk_when (ticker_fire t k) mod tk_period k = tk_when k mod tk_period k"
  by (simp add: ticker_fire_def next_when_mod)

lemma t_step_full_grid:
  "t_step tline ts ts' \<Longrightarrow>
   tk_period (tk_full ts') = tk_period (tk_full ts)
   \<and> tk_when (tk_full ts') mod tk_period (tk_full ts) = tk_when (tk_full ts) mod tk_period (tk_full ts)"
proof (induction rule: t_step.induct)
  case (wait ts tline)
  then show ?case by (simp add: t_wait_def ticker_fire_mod)
next
  case (full ts tline)
  then show ?case
    using ticker_fire_mod [of _ "ticker_recv (tk_full ts)"]
    by (simp add: t_on_tick_eq Let_def t_sweep_parts ticker_recv_def ticker_stop_def ticker_reset_def)
next
  case (retry ts tline)
  then show ?case
    by (simp add: t_on_tick_eq Let_def t_sweep_parts ticker_stop_def ticker_fire_mod)
qed

lemma t_start_full:
  assumes "t_start tline t0 c m files = Inr ts"
  shows "tk_full ts = ticker_fire (t0 + int (snd (tline t0))) (ticker_new t0 (Interval c))"
proof -
  note pos = t_start_Inr [OF assms]
  show ?thesis
    using assms t_start_eq [OF pos, of tline t0 m files]
    by (auto simp: Let_def t_sweep_parts split: if_splits)
qed

lemma ts_B_wait:
  "idle ts_B" "tk_ready (tk_retry (t_wait ts_B))" "tk_when (tk_retry (t_wait ts_B)) = 20000000000"
  "tnow (t_wait ts_B) = 10000000000" "ts_cfg (t_wait ts_B) = ts_cfg ts_B"
  using ts_B_parts by (simp_all add: idle_def t_wait_def next_deadline_def ticker_fire_def next_when_def)

subsection \<open>Properties of the timed loop\<close>

text \<open>
  The timed loop refines the untimed scheduler: every state the timed model of
  \<^verbatim>\<open>main\<close> reaches, with any timeline of worlds and sweep durations, projects to a
  reachable state of the step relation of \<^verbatim>\<open>Scheduler\<close>. Waiting changes nothing there
  and every received tick is one \<open>loop_step\<close>, so all properties of reachable states carry
  over to the program with its clock.
\<close>

lemma timed_loop_refines:
  "t_reachable tline ts \<Longrightarrow> reachable (untimed ts)"
  by (simp add: t_reachable_inv)

lemma timed_loop_refines_witness: "reachable (untimed ts_B)"
  using timed_loop_refines [OF ts_B_reachable] .

text \<open>
  With the clock, the retry ticker runs exactly when some tracked item's last
  retrieval failed (the spec's \<open>Armed\<close> iff a retry is pending).
\<close>

lemma timed_retry_iff_pending:
  assumes "t_reachable tline ts"
  shows "tk_on (tk_retry ts) \<longleftrightarrow> \<not> list_all RetrieveSuccess (Backups (ts_cfg ts))"
proof -
  have "reachable (untimed ts)" using t_reachable_inv [OF assms] by simp
  then have "sched_inv (untimed ts)" by (rule reachable_sched_inv)
  then show ?thesis by (auto simp: sched_inv_def untimed_def split: if_splits)
qed

lemma timed_retry_iff_pending_witness:
  "t_reachable timeline_B ts_B \<and> tk_on (tk_retry ts_B)"
  using timed_retry_iff_pending [OF ts_B_reachable] ts_B_reachable ts_B_parts(7)
  by (simp add: scenario_defs)

text \<open>
  C23. In every reachable timed state the full-sweep ticker runs with its next deadline in
  the coming \<open>Interval\<close>, and a running retry ticker has its next deadline in the coming
  \<open>RetryInterval\<close>: no deadline is in the past and none is further than one period.
\<close>

theorem tickers_on_schedule:
  assumes "t_reachable tline ts"
  shows "tk_on (tk_full ts) \<and> tnow ts < tk_when (tk_full ts)
         \<and> tk_when (tk_full ts) \<le> tnow ts + Interval (ts_cfg ts)
         \<and> (tk_on (tk_retry ts) \<longrightarrow> tnow ts < tk_when (tk_retry ts)
              \<and> tk_when (tk_retry ts) \<le> tnow ts + RetryInterval (ts_cfg ts))"
  using t_reachable_inv [OF assms] by (simp add: t_inv_def ticker_ok_def)

theorem tickers_on_schedule_witness:
  "tk_when (tk_retry ts_B) \<le> tnow ts_B + RetryInterval (ts_cfg ts_B)"
  using tickers_on_schedule [OF ts_B_reachable] ts_B_parts by simp

text \<open>
  The loop makes progress in time: from every reachable state, running the loop
  (waiting for the next deadline, serving ready ticks) reaches any time horizon after
  finitely many steps, in a reachable state. No run is stuck, and no run performs
  infinitely many sweeps in bounded time, even when sweeps take no time.
\<close>

lemma run_until_terminates:
  assumes "t_reachable tline ts"
  shows "\<exists>ts'. run_until tline horizon ts = Some ts' \<and> t_reachable tline ts' \<and> horizon \<le> tnow ts'"
  using run_until_reaches [of ts tline horizon] t_reachable_inv [OF assms] t_reachable_star assms
  by blast

lemma run_until_terminates_witness:
  "\<exists>ts'. run_until timeline_B 3600000000000 ts_B = Some ts' \<and> t_reachable timeline_B ts'
     \<and> 3600000000000 \<le> tnow ts'"
  by (rule run_until_terminates [OF ts_B_reachable])

text \<open>
  When no tick is waiting, the loop sleeps until the next deadline: strictly later, at
  most one \<open>Interval\<close> later (at most one \<open>RetryInterval\<close> while the retry ticker runs),
  and it wakes with a tick ready. A full sweep is therefore never more than an interval
  away from an idle loop.
\<close>

lemma wait_bounded:
  assumes "t_reachable tline ts" and "idle ts"
  shows "tnow ts < tnow (t_wait ts) \<and> tnow (t_wait ts) \<le> tnow ts + Interval (ts_cfg ts)
         \<and> (tk_on (tk_retry ts) \<longrightarrow> tnow (t_wait ts) \<le> tnow ts + RetryInterval (ts_cfg ts))
         \<and> \<not> idle (t_wait ts)"
proof -
  have inv: "t_inv ts" using t_reachable_inv [OF assms(1)] by simp
  then show ?thesis
    using t_wait_later [OF inv] t_wait_not_idle [OF inv]
    by (auto simp: t_wait_def next_deadline_def t_inv_def ticker_ok_def)
qed

lemma wait_bounded_witness:
  "idle ts_B \<and> tnow (t_wait ts_B) = 10000000000 \<and> \<not> idle (t_wait ts_B)"
proof -
  have i: "idle ts_B" using ts_B_parts by (simp add: idle_def)
  have "tnow (t_wait ts_B) = 10000000000"
    using ts_B_parts by (simp add: t_wait_def next_deadline_def)
  with wait_bounded [OF ts_B_reachable i] i show ?thesis by simp
qed

text \<open>
  C24. \<^verbatim>\<open>main\<close> creates \<^verbatim>\<open>tickerRetry\<close> before the first sweep and does not reset
  it when that sweep fails. So the first retry comes \<open>RetryInterval\<close> after the ticker
  was created, not after the sweep ended as the spec's \<open>start()\<close> says ("its interval is
  (re)started from now"); a first sweep that takes at least \<open>RetryInterval\<close> leaves a
  retry tick ready at once.
\<close>

theorem start_retry_not_restarted:
  assumes "t_start tline t0 c m files = Inr ts"
    and "\<not> list_all RetrieveSuccess (Backups (ts_cfg ts))"
  shows "tk_on (tk_retry ts)
         \<and> (int (snd (tline t0)) < RetryInterval c \<longrightarrow>
              tk_when (tk_retry ts) = t0 + RetryInterval c \<and> \<not> tk_ready (tk_retry ts))
         \<and> (RetryInterval c \<le> int (snd (tline t0)) \<longrightarrow> tk_ready (tk_retry ts))"
  using t_start_fail [OF assms]
  by (simp add: t_sweep_parts ticker_fire_def ticker_new_def)

theorem start_retry_not_restarted_witness:
  "tnow ts_B = 5000000000 \<and> tk_when (tk_retry ts_B) = 10000000000 \<and> \<not> tk_ready (tk_retry ts_B)"
  using start_retry_not_restarted [OF t_start_B] ts_B_parts
  by (simp add: timeline_B_def scenario_defs)

text \<open>
  C25. A full sweep that leaves a failed item restarts the retry cadence: the retry ticker
  runs, no stale tick waits, and its next deadline is one \<open>RetryInterval\<close> after the end
  of the sweep (\<^verbatim>\<open>tickerRetry.Reset\<close>, spec section 4.1).
\<close>

theorem full_failure_restarts_retry:
  assumes "ts' = t_on_tick w d FullTick ts"
    and "\<not> list_all RetrieveSuccess (Backups (ts_cfg ts'))"
  shows "tk_on (tk_retry ts') \<and> \<not> tk_ready (tk_retry ts')
         \<and> tk_when (tk_retry ts') = tnow ts + int d + RetryInterval (ts_cfg ts)"
proof -
  have "\<not> allRetrievalsSuccess (snd (retrieveUrls w (ts_cfg ts) (ts_metric ts) (ts_disk ts) True))"
    using assms retrieveUrls_all_flags
    by (simp add: t_on_tick_eq Let_def t_sweep_parts ticker_recv_def split: if_splits)
  then show ?thesis
    using assms(1) by (simp add: t_on_tick_eq Let_def t_sweep_parts ticker_recv_def ticker_reset_def)
qed

theorem full_failure_restarts_retry_witness:
  "\<not> list_all RetrieveSuccess (Backups (ts_cfg (t_on_tick world_B 2000000000 FullTick ts_B)))
   \<and> tk_when (tk_retry (t_on_tick world_B 2000000000 FullTick ts_B)) = 17000000000"
proof -
  have f: "\<not> list_all RetrieveSuccess (Backups (ts_cfg (t_on_tick world_B 2000000000 FullTick ts_B)))"
    using ts_B_parts
    by (simp add: t_on_tick_eq Let_def t_sweep_parts ticker_recv_def retrieveUrls_backups
        sweep_flag_def considered_def fetch_started_def transfer_def scenario_defs)
  with full_failure_restarts_retry [OF refl f] show ?thesis using ts_B_parts by simp
qed

text \<open>
  C26. A retry sweep that leaves a failed item does not restart the cadence: the retry
  ticker keeps running on its grid (the next deadline is congruent to the old one modulo
  \<open>RetryInterval\<close>) and lies within one period after the end of the sweep, as the spec
  (section 4.1) requires.
\<close>

theorem retry_failure_keeps_cadence:
  assumes "t_reachable tline ts" and "tk_ready (tk_retry ts)"
    and "ts' = t_on_tick w d RetryTick ts"
    and "\<not> list_all RetrieveSuccess (Backups (ts_cfg ts'))"
  shows "tk_on (tk_retry ts')
         \<and> tk_when (tk_retry ts') mod RetryInterval (ts_cfg ts) = tk_when (tk_retry ts) mod RetryInterval (ts_cfg ts)
         \<and> tnow ts' < tk_when (tk_retry ts') \<and> tk_when (tk_retry ts') \<le> tnow ts' + RetryInterval (ts_cfg ts)"
proof -
  have inv: "t_inv ts" using t_reachable_inv [OF assms(1)] by simp
  have inv': "t_inv ts'" unfolding assms(3) by (rule t_inv_on_tick [OF inv])
  have nok: "\<not> allRetrievalsSuccess (snd (retrieveUrls w (ts_cfg ts) (ts_metric ts) (ts_disk ts) False))"
    using assms(3,4) retrieveUrls_all_flags
    by (simp add: t_on_tick_eq Let_def t_sweep_parts ticker_recv_def split: if_splits)
  then have k': "tk_retry ts' = ticker_fire (tnow ts + int d) (ticker_recv (tk_retry ts))"
    using assms(3) by (simp add: t_on_tick_eq Let_def t_sweep_parts)
  have on: "tk_on (tk_retry ts)" and per: "tk_period (tk_retry ts) = RetryInterval (ts_cfg ts)"
    using inv assms(2) by (simp_all add: t_inv_def ticker_ok_def)
  have cfg': "RetryInterval (ts_cfg ts') = RetryInterval (ts_cfg ts)"
    using assms(3) nok by (simp add: t_on_tick_eq Let_def t_sweep_parts)
  have "tk_when (tk_retry ts') mod RetryInterval (ts_cfg ts) = tk_when (tk_retry ts) mod RetryInterval (ts_cfg ts)"
    using ticker_fire_mod [of "tnow ts + int d" "ticker_recv (tk_retry ts)"] per
    by (simp add: k' ticker_recv_def)
  moreover have "tk_on (tk_retry ts')" using on by (simp add: k' ticker_recv_def)
  ultimately show ?thesis
    using inv' cfg' by (simp add: t_inv_def ticker_ok_def)
qed

theorem retry_failure_keeps_cadence_witness:
  "tk_on (tk_retry (t_on_tick world_B 2000000000 RetryTick (t_wait ts_B)))
   \<and> tk_when (tk_retry (t_on_tick world_B 2000000000 RetryTick (t_wait ts_B))) mod 10000000000 = 0"
proof -
  have r: "t_reachable timeline_B (t_wait ts_B)"
    by (rule t_reachable.step [OF ts_B_reachable t_step.wait [OF ts_B_wait(1)]])
  have f: "\<not> list_all RetrieveSuccess (Backups (ts_cfg (t_on_tick world_B 2000000000 RetryTick (t_wait ts_B))))"
    using ts_B_parts ts_B_wait
    by (simp add: t_on_tick_eq Let_def t_sweep_parts ticker_recv_def retrieveUrls_backups
        sweep_flag_def considered_def fetch_started_def transfer_def scenario_defs)
  from retry_failure_keeps_cadence [OF r ts_B_wait(2) refl f] show ?thesis
    using ts_B_parts ts_B_wait by simp
qed

text \<open>
  C27. The full-sweep ticker is never reset: along any run, its deadlines stay on the grid
  of the moment \<^verbatim>\<open>main\<close> created it, whatever the sweeps cost.
\<close>

theorem full_ticker_keeps_grid:
  assumes "t_start tline t0 c m files = Inr ts" and "(t_step tline)\<^sup>*\<^sup>* ts ts'"
  shows "tk_when (tk_full ts') mod Interval c = t0 mod Interval c"
proof -
  have "tk_period (tk_full ts') = Interval c \<and> tk_when (tk_full ts') mod Interval c = t0 mod Interval c"
    using assms(2)
  proof (induction rule: rtranclp_induct)
    case base
    show ?case
      using ticker_fire_mod [of "t0 + int (snd (tline t0))" "ticker_new t0 (Interval c)"]
      by (simp add: t_start_full [OF assms(1)] ticker_new_def)
  next
    case (step y z)
    then show ?case using t_step_full_grid [OF step(2)] by simp
  qed
  then show ?thesis by simp
qed

theorem full_ticker_keeps_grid_witness:
  "tk_when (tk_full (t_wait ts_B)) mod 60000000000 = 0"
proof -
  have "(t_step timeline_B)\<^sup>*\<^sup>* ts_B (t_wait ts_B)"
    using t_step.wait [OF ts_B_wait(1)] by (rule r_into_rtranclp)
  from full_ticker_keeps_grid [OF t_start_B this] show ?thesis by (simp add: scenario_defs)
qed

text \<open>
  When a sweep overruns the full ticker's deadline, the deadline computed by the
  runtime's closed formula is the one obtained by stepping the old deadline one period
  at a time until it lies after the end of the sweep, and one tick waits.
\<close>

lemma sweep_fires_on_grid:
  assumes "t_reachable tline ts" and "tk_when (tk_full ts) \<le> tnow ts + int d"
  shows "tk_ready (tk_full (fst (t_sweep w d ra ts)))
         \<and> tk_when (tk_full (fst (t_sweep w d ra ts))) =
             grid_after (tk_when (tk_full ts)) (Interval (ts_cfg ts)) (tnow ts + int d)"
proof -
  have inv: "t_inv ts" using t_reachable_inv [OF assms(1)] by simp
  then have "0 < Interval (ts_cfg ts)" "tk_on (tk_full ts)" "tk_period (tk_full ts) = Interval (ts_cfg ts)"
    by (simp_all add: t_inv_def ticker_ok_def)
  then show ?thesis
    using assms(2) next_when_grid_after [of "Interval (ts_cfg ts)" "tk_when (tk_full ts)" "tnow ts + int d"]
    by (simp add: t_sweep_parts ticker_fire_def)
qed

lemma sweep_fires_on_grid_witness:
  "tk_when (tk_full (fst (t_sweep world_B 130000000000 True ts_B))) = 180000000000"
proof -
  have "tk_when (tk_full ts_B) \<le> tnow ts_B + int 130000000000" using ts_B_parts by simp
  from sweep_fires_on_grid [OF ts_B_reachable this, of world_B True] show ?thesis
    using ts_B_parts by (simp add: grid_after.simps)
qed

text \<open>
  Ticks are dropped, not queued: a first sweep of 130 s under a 60 s interval passes
  two deadlines, yet only one full tick waits afterwards and the next deadline is 180 s.
  The spec (section 5) says a slow sweep delays the next tick; the code skips the missed
  ones.
\<close>

lemma slow_first_sweep_drops_ticks:
  "tnow (projr (t_start timeline_slow 0 (config_of [item_A]) (NewMetrics ''backuprf'') Map.empty)) = 130000000000
   \<and> tk_ready (tk_full (projr (t_start timeline_slow 0 (config_of [item_A]) (NewMetrics ''backuprf'') Map.empty)))
   \<and> tk_when (tk_full (projr (t_start timeline_slow 0 (config_of [item_A]) (NewMetrics ''backuprf'') Map.empty))) = 180000000000
   \<and> \<not> tk_on (tk_retry (projr (t_start timeline_slow 0 (config_of [item_A]) (NewMetrics ''backuprf'') Map.empty)))"
  by (simp add: t_start_def NewTicker_def t_sweep_def ticker_new_def ticker_fire_def next_when_def
      ticker_stop_def timeline_slow_def sweep_code scenario_defs split: prod.splits)

end
