(* ===== verification/Banner.thy ===== *)
theory Banner
  imports Prelude
begin

text \<open>
  The version banner: \<^verbatim>\<open>printVersion\<close> (\<^verbatim>\<open>src/config/config.go\<close> lines 20--52), which
  \<^verbatim>\<open>--version\<close> prints, and the version string itself, \<^verbatim>\<open>Version\<close>, the embedded
  \<^verbatim>\<open>version.txt\<close> with surrounding white space removed (\<^verbatim>\<open>src/main.go\<close> lines 23--27).
  The build information \<^verbatim>\<open>debug.ReadBuildInfo\<close> returns is an input (\<open>None\<close> when the
  binary carries none); \<^verbatim>\<open>time.Parse\<close> with \<^verbatim>\<open>time.RFC3339\<close> and the formatting of a
  \<^verbatim>\<open>time.Time\<close> by \<^verbatim>\<open>%s\<close> are the parameters \<open>time_lib\<close>, and a time is its count of
  nanoseconds from the Unix epoch. \<^verbatim>\<open>fmt.Sprintf("%-15s: %s\n", ...)\<close> pads the label on
  the right to 15 characters; \<^verbatim>\<open>%v\<close> of a \<^verbatim>\<open>bool\<close> prints \<^verbatim>\<open>true\<close> or
  \<^verbatim>\<open>false\<close>. \<^verbatim>\<open>strings.TrimSpace\<close> is modelled on ASCII white space.
\<close>

record build_setting =
  Key :: string
  Value :: string

record build_info =
  bi_GoVersion :: string
  bi_Settings :: "build_setting list"

type_synonym go_time = int

record time_lib =
  Parse_RFC3339 :: "string \<Rightarrow> go_time option"
  Time_String :: "go_time \<Rightarrow> string"

text \<open>The zero \<^verbatim>\<open>time.Time\<close>, January 1 of year 1, 00:00:00 UTC.\<close>

definition zero_time :: go_time where
  "zero_time = -62135596800000000000"

definition pad_right :: "nat \<Rightarrow> string \<Rightarrow> string" where
  "pad_right n s = s @ replicate (n - length s) (CHR '' '')"

definition sprintf_field :: "string \<Rightarrow> string \<Rightarrow> string" where
  "sprintf_field label v = pad_right 15 label @ '': '' @ v @ [CHR 0x0A]"

definition go_bool :: "bool \<Rightarrow> string" where
  "go_bool b = (if b then ''true'' else ''false'')"

definition parse_time :: "time_lib \<Rightarrow> string \<Rightarrow> go_time" where
  "parse_time tlib s = (case Parse_RFC3339 tlib s of Some t \<Rightarrow> t | None \<Rightarrow> zero_time)"

fun scan_settings ::
  "time_lib \<Rightarrow> build_setting list \<Rightarrow> string \<times> go_time \<times> bool \<Rightarrow> string \<times> go_time \<times> bool"
where
  "scan_settings tlib [] acc = acc"
| "scan_settings tlib (kv # kvs) (revision, lastCommit, dirtyBuild) =
     (if Value kv = [] then scan_settings tlib kvs (revision, lastCommit, dirtyBuild)
      else if Key kv = ''vcs.revision'' then scan_settings tlib kvs (Value kv, lastCommit, dirtyBuild)
      else if Key kv = ''vcs.time''
      then scan_settings tlib kvs (revision, parse_time tlib (Value kv), dirtyBuild)
      else if Key kv = ''vcs.modified''
      then scan_settings tlib kvs (revision, lastCommit, Value kv = ''true'')
      else scan_settings tlib kvs (revision, lastCommit, dirtyBuild))"

definition printVersion :: "time_lib \<Rightarrow> build_info option \<Rightarrow> string \<Rightarrow> string" where
  "printVersion tlib bi version =
     (let output = sprintf_field ''Version'' version in
      case bi of
        None \<Rightarrow> output
      | Some info \<Rightarrow>
          (case scan_settings tlib (bi_Settings info) (''unknown'', zero_time, True) of
             (revision, lastCommit, dirtyBuild) \<Rightarrow>
               output @ sprintf_field ''Revision'' revision
               @ sprintf_field ''Dirty Build'' (go_bool dirtyBuild)
               @ sprintf_field ''Last Commit'' (Time_String tlib lastCommit)
               @ sprintf_field ''Go Version'' (bi_GoVersion info)))"

definition go_space :: "char \<Rightarrow> bool" where
  "go_space c \<longleftrightarrow> c \<in> {CHR 0x09, CHR 0x0A, CHR 0x0B, CHR 0x0C, CHR 0x0D, CHR '' ''}"

definition TrimSpace :: "string \<Rightarrow> string" where
  "TrimSpace s = rev (dropWhile go_space (rev (dropWhile go_space s)))"

text \<open>
  What the banner reports, read off the settings directly: the value of the last setting
  with the key and a non-empty value.
\<close>

definition last_value :: "string \<Rightarrow> build_setting list \<Rightarrow> string option" where
  "last_value k kvs =
     (case filter (\<lambda>kv. Key kv = k \<and> Value kv \<noteq> []) kvs of
        [] \<Rightarrow> None
      | xs \<Rightarrow> Some (Value (last xs)))"

definition banner_fields :: "time_lib \<Rightarrow> build_info \<Rightarrow> string \<Rightarrow> (string \<times> string) list" where
  "banner_fields tlib info version =
     [(''Version'', version),
      (''Revision'', case last_value ''vcs.revision'' (bi_Settings info) of None \<Rightarrow> ''unknown'' | Some r \<Rightarrow> r),
      (''Dirty Build'', go_bool (case last_value ''vcs.modified'' (bi_Settings info) of
                                   None \<Rightarrow> True | Some m \<Rightarrow> m = ''true'')),
      (''Last Commit'', Time_String tlib (case last_value ''vcs.time'' (bi_Settings info) of
                                           None \<Rightarrow> zero_time | Some s \<Rightarrow> parse_time tlib s)),
      (''Go Version'', bi_GoVersion info)]"

definition example_build :: build_info where
  "example_build =
     \<lparr>bi_GoVersion = ''go1.22.0'',
      bi_Settings = [\<lparr>Key = ''vcs.revision'', Value = ''0c5a8e1''\<rparr>,
                     \<lparr>Key = ''vcs.modified'', Value = ''''\<rparr>,
                     \<lparr>Key = ''vcs.revision'', Value = ''9f2b7d4''\<rparr>]\<rparr>"

definition example_time_lib :: time_lib where
  "example_time_lib = \<lparr>Parse_RFC3339 = (\<lambda>_. None), Time_String = (\<lambda>_. ''0001-01-01 00:00:00 +0000 UTC'')\<rparr>"

subsection \<open>Lemmas\<close>

lemma printVersion_example:
  "printVersion example_time_lib (Some example_build) ''1.2.0'' =
     ''Version        : 1.2.0'' @ [CHR 0x0A] @ ''Revision       : 9f2b7d4'' @ [CHR 0x0A]
     @ ''Dirty Build    : true'' @ [CHR 0x0A] @ ''Last Commit    : 0001-01-01 00:00:00 +0000 UTC'' @ [CHR 0x0A]
     @ ''Go Version     : go1.22.0'' @ [CHR 0x0A]"
  by (simp add: printVersion_def example_build_def example_time_lib_def sprintf_field_def pad_right_def
      go_bool_def parse_time_def numeral_eq_Suc)

lemma last_value_Cons:
  "last_value k (kv # kvs) =
     (case last_value k kvs of
        Some v \<Rightarrow> Some v
      | None \<Rightarrow> (if Key kv = k \<and> Value kv \<noteq> [] then Some (Value kv) else None))"
  by (auto simp: last_value_def split: list.splits)

lemma scan_settings_last:
  "scan_settings tlib kvs (r, t, d) =
     (case last_value ''vcs.revision'' kvs of None \<Rightarrow> r | Some x \<Rightarrow> x,
      case last_value ''vcs.time'' kvs of None \<Rightarrow> t | Some x \<Rightarrow> parse_time tlib x,
      case last_value ''vcs.modified'' kvs of None \<Rightarrow> d | Some x \<Rightarrow> x = ''true'')"
proof (induction kvs arbitrary: r t d)
  case Nil
  then show ?case by (simp add: last_value_def)
next
  case (Cons kv kvs)
  then show ?case
    by (auto simp: last_value_Cons split: option.splits)
qed

text \<open>
  C29. The loop of \<^verbatim>\<open>printVersion\<close> over the build settings is a "last non-empty value
  wins" lookup: with build information, the banner is exactly five padded lines, the
  version, the last non-empty \<^verbatim>\<open>vcs.revision\<close> (else \<^verbatim>\<open>unknown\<close>), whether the last
  non-empty \<^verbatim>\<open>vcs.modified\<close> is \<^verbatim>\<open>"true"\<close> (true when there is none: a build whose
  settings do not say is reported dirty), the parsed last \<^verbatim>\<open>vcs.time\<close> (the zero time
  if absent or unparsable), and the Go version; without it, only the version line.
\<close>

theorem printVersion_last_wins:
  "printVersion tlib (Some info) version = concat (map (\<lambda>(l, v). sprintf_field l v) (banner_fields tlib info version))
   \<and> printVersion tlib None version = sprintf_field ''Version'' version"
  by (simp add: printVersion_def banner_fields_def scan_settings_last split: option.splits)

end
