(* ===== verification/Duration.thy ===== *)
theory Duration
  imports Prelude
begin

text \<open>
  Go's \<^verbatim>\<open>time.ParseDuration\<close>, which \<^verbatim>\<open>readConfig\<close> (\<^verbatim>\<open>src/config/config.go\<close>) calls
  on the configured intervals and on its defaults. It is library code, modelled from the
  spec's "human-readable duration syntax" and the Go library's documented algorithm: an
  optional sign, then one or more components \<open>[0-9]*(.[0-9]*)?unit\<close> with units
  \<^verbatim>\<open>ns\<close>, \<^verbatim>\<open>us\<close>, \<^verbatim>\<open>\<mu>s\<close> (both UTF-8 spellings), \<^verbatim>\<open>ms\<close>, \<^verbatim>\<open>s\<close>, \<^verbatim>\<open>m\<close>,
  \<^verbatim>\<open>h\<close>. The accumulator is a \<^verbatim>\<open>uint64\<close> (\<open>64 word\<close>: sums wrap) checked against
  \<open>2^63\<close> at the points the library checks; the result is the \<^verbatim>\<open>int64\<close> read of the
  accumulator, negated in two's complement for a leading minus. The one place where the
  library computes in \<^verbatim>\<open>float64\<close> (the fractional part of a component,
  \<open>f * unit / scale\<close>, truncated) is computed exactly here; the two agree except where
  the floating-point product rounds across an integer.
\<close>

datatype dur_error = InvalidDuration | MissingUnit | UnknownUnit string

definition digit_char :: "char \<Rightarrow> bool" where
  "digit_char c \<longleftrightarrow> (48::nat) \<le> of_char c \<and> of_char c \<le> (57::nat)"

definition digit_val :: "char \<Rightarrow> uint64" where
  "digit_val c = of_nat (of_char c - 48)"

fun leadingInt :: "uint64 \<Rightarrow> string \<Rightarrow> (uint64 \<times> string) option" where
  "leadingInt x [] = Some (x, [])"
| "leadingInt x (c # s) =
     (if \<not> digit_char c then Some (x, c # s)
      else if x > 922337203685477580 then None
      else (let x' = x * 10 + digit_val c in
            if x' > 9223372036854775808 then None else leadingInt x' s))"

fun leadingFraction :: "uint64 \<Rightarrow> nat \<Rightarrow> bool \<Rightarrow> string \<Rightarrow> uint64 \<times> nat \<times> string" where
  "leadingFraction x scale overflow [] = (x, scale, [])"
| "leadingFraction x scale overflow (c # s) =
     (if \<not> digit_char c then (x, scale, c # s)
      else if overflow then leadingFraction x scale True s
      else if x > 922337203685477580 then leadingFraction x scale True s
      else (let y = x * 10 + digit_val c in
            if y > 9223372036854775808 then leadingFraction x scale True s
            else leadingFraction y (scale * 10) False s))"

definition unit_of :: "string \<Rightarrow> uint64 option" where
  "unit_of u =
     (if u = ''ns'' then Some 1
      else if u = ''us'' then Some 1000
      else if u = [CHR 0xC2, CHR 0xB5, CHR ''s''] then Some 1000
      else if u = [CHR 0xCE, CHR 0xBC, CHR ''s''] then Some 1000
      else if u = ''ms'' then Some 1000000
      else if u = ''s'' then Some 1000000000
      else if u = ''m'' then Some 60000000000
      else if u = ''h'' then Some 3600000000000
      else None)"

definition unit_char :: "char \<Rightarrow> bool" where
  "unit_char c \<longleftrightarrow> \<not> (c = CHR ''.'' \<or> digit_char c)"

definition fraction_part :: "string \<Rightarrow> uint64 \<times> nat \<times> string \<times> bool" where
  "fraction_part s1 =
     (case s1 of
        c # r \<Rightarrow>
          (if c = CHR ''.'' then
             (case leadingFraction 0 1 False r of (f, scale, r') \<Rightarrow> (f, scale, r', length r' \<noteq> length r))
           else (0, 1, s1, False))
      | [] \<Rightarrow> (0, 1, s1, False))"

definition scale_component :: "uint64 \<Rightarrow> uint64 \<Rightarrow> nat \<Rightarrow> uint64 \<Rightarrow> dur_error + uint64" where
  "scale_component v f scale unit =
     (if v > 9223372036854775808 div unit then Inl InvalidDuration
      else (let v1 = v * unit in
            if f > 0 then
              (let v2 = v1 + of_nat (unat f * unat unit div scale) in
               if v2 > 9223372036854775808 then Inl InvalidDuration else Inr v2)
            else Inr v1))"

definition consume_unit :: "uint64 \<Rightarrow> uint64 \<Rightarrow> nat \<Rightarrow> string \<Rightarrow> dur_error + (uint64 \<times> string)" where
  "consume_unit v f scale s2 =
     (let u = takeWhile unit_char s2 in
      if u = [] then Inl MissingUnit
      else (case unit_of u of
              None \<Rightarrow> Inl (UnknownUnit u)
            | Some unit \<Rightarrow>
                (case scale_component v f scale unit of
                   Inl e \<Rightarrow> Inl e
                 | Inr v' \<Rightarrow> Inr (v', dropWhile unit_char s2))))"

definition parse_component :: "string \<Rightarrow> dur_error + (uint64 \<times> string)" where
  "parse_component s =
     (case s of
        [] \<Rightarrow> Inl InvalidDuration
      | c # _ \<Rightarrow>
          (if \<not> (c = CHR ''.'' \<or> digit_char c) then Inl InvalidDuration
           else (case leadingInt 0 s of
                   None \<Rightarrow> Inl InvalidDuration
                 | Some (v, s1) \<Rightarrow>
                     (case fraction_part s1 of
                        (f, scale, s2, post) \<Rightarrow>
                          (if length s1 = length s \<and> \<not> post then Inl InvalidDuration
                           else consume_unit v f scale s2)))))"

function parse_loop :: "uint64 \<Rightarrow> string \<Rightarrow> dur_error + uint64" where
  "parse_loop d s =
     (if s = [] then Inr d
      else (case parse_component s of
              Inl e \<Rightarrow> Inl e
            | Inr (v, s') \<Rightarrow>
                (let d' = d + v in
                 if d' > 9223372036854775808 then Inl InvalidDuration else parse_loop d' s')))"
  by pat_completeness auto
termination
proof (relation "measure (\<lambda>(d, s). length s)", goal_cases)
  case 1
  show ?case by simp
next
  case (2 d s)
  have li: "leadingInt x s = Some (v, r) \<Longrightarrow> length r \<le> length s" for x s v r
    by (induction x s rule: leadingInt.induct) (auto simp: Let_def split: if_splits)
  have lf: "length (snd (snd (leadingFraction x sc ov s))) \<le> length s" for x sc ov s
    by (induction x sc ov s rule: leadingFraction.induct) (auto simp: Let_def le_SucI)
  have fp: "length (fst (snd (snd (fraction_part s1)))) \<le> length s1" for s1
  proof (cases s1)
    case Nil
    then show ?thesis by (simp add: fraction_part_def)
  next
    case (Cons c r)
    have "length (snd (snd (leadingFraction 0 1 False r))) \<le> length r" by (rule lf)
    then show ?thesis using Cons by (auto simp: fraction_part_def split: prod.splits)
  qed
  have dec: "length y < length s" if pc': "parse_component s = Inr (v, y)" for s v y
  proof -
    from pc' obtain c r where s: "s = c # r"
      by (cases s) (auto simp: parse_component_def)
    from pc' obtain v' s1 where l: "leadingInt 0 s = Some (v', s1)"
      by (auto simp: parse_component_def s split: if_splits option.splits)
    obtain f sc s2 post where fr: "fraction_part s1 = (f, sc, s2, post)"
      by (metis prod_cases4)
    from pc' l fr have ne: "takeWhile unit_char s2 \<noteq> []" and y: "y = dropWhile unit_char s2"
      by (auto simp: parse_component_def consume_unit_def s Let_def split: if_splits option.splits sum.splits)
    from ne have "length (dropWhile unit_char s2) < length s2"
      by (cases s2) (auto simp: le_imp_less_Suc length_dropWhile_le split: if_splits)
    moreover have "length s2 \<le> length s1" using fp [of s1] fr by simp
    moreover have "length s1 \<le> length s" using li [OF l] .
    ultimately show ?thesis using y by simp
  qed
  from 2 show ?case by (auto dest: dec)
qed

definition ParseDuration :: "string \<Rightarrow> dur_error + int" where
  "ParseDuration orig =
     (let (neg, s) =
        (case orig of
           c # r \<Rightarrow> (if c = CHR ''-'' \<or> c = CHR ''+'' then (c = CHR ''-'', r) else (False, orig))
         | [] \<Rightarrow> (False, orig))
      in if s = ''0'' then Inr 0
         else if s = [] then Inl InvalidDuration
         else (case parse_loop 0 s of
                 Inl e \<Rightarrow> Inl e
               | Inr d \<Rightarrow>
                   (if neg then Inr (sint (- d))
                    else if d > 9223372036854775807 then Inl InvalidDuration
                    else Inr (sint d))))"

subsection \<open>The value of a decimal numeral\<close>

text \<open>
  The number a string of decimal digits denotes, read left to right as the digit scanner
  reads it.
\<close>

definition digit_step :: "nat \<Rightarrow> char \<Rightarrow> nat" where
  "digit_step n c = 10 * n + (of_char c - 48)"

definition digits_value :: "string \<Rightarrow> nat" where
  "digits_value ds = foldl digit_step 0 ds"

subsection \<open>Properties of the parser\<close>

declare parse_loop.simps [simp del]

lemma foldl_digit_step_ge: "n \<le> foldl digit_step n ds"
proof (induction ds arbitrary: n)
  case Nil
  then show ?case by simp
next
  case (Cons c ds)
  have "n \<le> digit_step n c" by (simp add: digit_step_def)
  also have "\<dots> \<le> foldl digit_step (digit_step n c) ds" by (rule Cons.IH)
  finally show ?case by simp
qed

lemma leadingInt_digits:
  assumes "list_all digit_char ds" and "r = [] \<or> \<not> digit_char (hd r)"
    and "foldl digit_step (unat x) ds \<le> 2 ^ 63"
  shows "leadingInt x (ds @ r) = Some (of_nat (foldl digit_step (unat x) ds), r)"
  using assms
proof (induction ds arbitrary: x)
  case Nil
  then show ?case by (cases r) auto
next
  case (Cons c ds)
  let ?n = "digit_step (unat x) c"
  have le: "?n \<le> 2 ^ 63"
    using Cons.prems(3) foldl_digit_step_ge [of ?n ds] by simp
  have dc: "digit_char c" using Cons.prems(1) by simp
  have "unat x \<le> 922337203685477580"
    using le by (simp add: digit_step_def)
  then have g1: "\<not> x > 922337203685477580"
    by (simp add: word_less_nat_alt not_less)
  have x': "x * 10 + digit_val c = of_nat ?n"
    by (simp add: digit_val_def digit_step_def algebra_simps)
  have un: "unat (x * 10 + digit_val c) = ?n"
    using le by (simp add: x' unat_small_of_nat)
  have g2: "\<not> x * 10 + digit_val c > 9223372036854775808"
    using un le by (simp add: word_less_nat_alt not_less)
  have "leadingInt (x * 10 + digit_val c) (ds @ r) =
        Some (of_nat (foldl digit_step ?n ds), r)"
    using Cons.IH [of "x * 10 + digit_val c"] Cons.prems un by simp
  with dc g1 g2 show ?case by (simp add: Let_def)
qed

lemma unit_of_Some:
  "unit_of u = Some k \<Longrightarrow> u \<noteq> [] \<and> list_all unit_char u \<and> 1 \<le> unat k"
  by (auto simp: unit_of_def unit_char_def digit_char_def split: if_splits)

lemma parse_component_digits:
  assumes ds: "ds \<noteq> []" "list_all digit_char ds"
    and u: "u \<noteq> []" "list_all unit_char u" and v_le: "digits_value ds \<le> 2 ^ 63"
  shows "parse_component (ds @ u) = consume_unit (of_nat (digits_value ds)) 0 1 u"
proof -
  let ?v = "digits_value ds"
  from u have hd_u: "\<not> digit_char (hd u)" "hd u \<noteq> CHR ''.''"
    by (cases u; simp add: unit_char_def)+
  have li: "leadingInt 0 (ds @ u) = Some (of_nat ?v, u)"
    using leadingInt_digits [OF ds(2), of u 0] hd_u v_le by (simp add: digits_value_def)
  have fp: "fraction_part u = (0, 1, u, False)"
    using u hd_u by (cases u) (simp_all add: fraction_part_def)
  obtain c r where dsc: "ds = c # r" using ds(1) by (cases ds) auto
  have "c = CHR ''.'' \<or> digit_char c" using ds(2) dsc by simp
  then show ?thesis
    using li fp u by (simp add: parse_component_def dsc)
qed

lemma ParseDuration_digit_first:
  assumes "digit_char c" and "c # r \<noteq> ''0''"
  shows "ParseDuration (c # r) =
    (case parse_loop 0 (c # r) of
       Inl e \<Rightarrow> Inl e
     | Inr d \<Rightarrow> if d > 9223372036854775807 then Inl InvalidDuration else Inr (sint d))"
proof -
  have "c \<noteq> CHR ''-''" "c \<noteq> CHR ''+''" using assms(1) by (auto simp: digit_char_def)
  then show ?thesis using assms(2) by (auto simp: ParseDuration_def split: sum.splits)
qed

text \<open>
  On a decimal numeral followed by a unit of the table, the parser returns the numeral
  times the unit in nanoseconds, as long as that product stays below \<open>2^63\<close>.
\<close>

lemma ParseDuration_digits_unit:
  assumes ds: "ds \<noteq> []" "list_all digit_char ds"
    and u: "unit_of u = Some k" and small: "digits_value ds * unat k < 2 ^ 63"
  shows "ParseDuration (ds @ u) = Inr (int (digits_value ds * unat k))"
proof -
  let ?v = "digits_value ds" and ?n = "digits_value ds * unat k"
  from unit_of_Some [OF u] have une: "u \<noteq> []" and uc: "list_all unit_char u" and k1: "1 \<le> unat k"
    by auto
  have v_le: "?v \<le> 2 ^ 63"
    using small k1 by (metis less_imp_le_nat mult_le_mono2 nat_mult_1_right order_trans)
  have k0: "0 < unat k" using k1 by simp
  have "?v \<le> 9223372036854775808 div unat k"
    using small by (simp add: less_eq_div_iff_mult_less_eq [OF k0])
  then have nov: "\<not> (of_nat ?v :: uint64) > 9223372036854775808 div k"
    using v_le by (simp add: word_less_nat_alt unat_div unat_small_of_nat not_less)
  have "(of_nat ?v :: uint64) * k = of_nat ?n" by simp
  then have "scale_component (of_nat ?v) 0 1 k = Inr (of_nat ?n)"
    using nov by (simp add: scale_component_def)
  then have pc: "parse_component (ds @ u) = Inr (of_nat ?n, [])"
    using parse_component_digits [OF ds une uc v_le] u uc une
    by (simp add: consume_unit_def takeWhile_all dropWhile_all)
  have un: "unat (of_nat ?n :: uint64) = ?n" using small by (intro unat_small_of_nat) simp
  have pl: "parse_loop 0 (ds @ u) = Inr (of_nat ?n)"
    using pc un small une
    by (simp add: parse_loop.simps [of 0 "ds @ u"] parse_loop.simps [of _ "[]"] word_less_nat_alt)
  obtain c r where dsc: "ds = c # r" using ds(1) by (cases ds) auto
  have "c # r @ u \<noteq> ''0''" using une by simp
  then show ?thesis
    using ParseDuration_digit_first [of c "r @ u"] ds(2) dsc pl un small
    by (simp add: word_less_nat_alt sint_small)
qed

lemma ParseDuration_10s:
  "ParseDuration ''10s'' = Inr 10000000000"
proof -
  have h: "''1'' @ ''0'' \<noteq> []" "list_all digit_char (''1'' @ ''0'')"
    "unit_of ''s'' = Some 1000000000" "digits_value (''1'' @ ''0'') * unat (1000000000 :: uint64) < 2 ^ 63"
    by (simp_all add: digit_char_def unit_of_def digits_value_def digit_step_def)
  from ParseDuration_digits_unit [OF h] show ?thesis
    by (simp add: digits_value_def digit_step_def)
qed

text \<open>
  A day unit is never accepted: a decimal numeral followed by \<^verbatim>\<open>d\<close> is rejected with the
  error "unknown unit d", the string \<^verbatim>\<open>"1d"\<close> included.
\<close>

lemma ParseDuration_day_unit:
  assumes "ds \<noteq> []" and "list_all digit_char ds" and "digits_value ds \<le> 2 ^ 63"
  shows "ParseDuration (ds @ ''d'') = Inl (UnknownUnit ''d'')"
proof -
  have pc: "parse_component (ds @ ''d'') = Inl (UnknownUnit ''d'')"
    using parse_component_digits [OF assms(1,2) _ _ assms(3), of "''d''"]
    by (simp add: consume_unit_def unit_char_def digit_char_def unit_of_def)
  obtain c r where dsc: "ds = c # r" using assms(1) by (cases ds) auto
  have "parse_loop 0 (ds @ ''d'') = Inl (UnknownUnit ''d'')"
    using pc by (simp add: parse_loop.simps [of 0 "ds @ ''d''"])
  then show ?thesis
    using ParseDuration_digit_first [of c "r @ ''d''"] assms(2) dsc by simp
qed

lemma ParseDuration_1d:
  "ParseDuration ''1d'' = Inl (UnknownUnit ''d'')"
proof -
  have h: "''1'' \<noteq> []" "list_all digit_char ''1''" "digits_value ''1'' \<le> 2 ^ 63"
    by (simp_all add: digit_char_def digits_value_def digit_step_def)
  from ParseDuration_day_unit [OF h] show ?thesis by simp
qed

text \<open>Every duration the parser returns is a Go \<^verbatim>\<open>int64\<close>.\<close>

lemma ParseDuration_int64: "ParseDuration s = Inr d \<Longrightarrow> - (2 ^ 63) \<le> d \<and> d < 2 ^ 63"
  using sint_ge [where 'a = 64] sint_lt [where 'a = 64]
  by (auto simp: ParseDuration_def split: list.splits if_splits sum.splits prod.splits)

lemmas dur_code = ParseDuration_def parse_component_def consume_unit_def scale_component_def
  fraction_part_def unit_of_def unit_char_def digit_char_def digit_val_def

lemma ParseDuration_min_int64:
  "ParseDuration ''-9223372036854775808ns'' = Inr (- (2 ^ 63))"
  by (simp add: dur_code parse_loop.simps)

text \<open>
  The accumulator is a \<^verbatim>\<open>uint64\<close> and the check after each addition is only
  "greater than \<open>2^63\<close>": two components of exactly \<open>2^63\<close> nanoseconds add up to
  \<open>2^64\<close>, which wraps to 0 and passes, so the string below parses as a zero duration.
\<close>

lemma ParseDuration_sum_wraps:
  "ParseDuration ''9223372036854775808ns9223372036854775808ns'' = Inr 0"
  by (simp add: dur_code parse_loop.simps)

end
