(* ===== verification/Config.thy ===== *)
theory Config
  imports Backup Duration
begin

text \<open>
  Loading the configuration: \<^verbatim>\<open>New\<close> and \<^verbatim>\<open>readConfig\<close> of \<^verbatim>\<open>src/config/config.go\<close>.
  The file is read and decoded by \<^verbatim>\<open>yaml.Unmarshal\<close> into a \<^verbatim>\<open>map[string]any\<close>; the
  model starts from the outcome of that step: the file could not be read, it is not YAML,
  or it is a document, a YAML mapping given as an association list. The decoder rejects
  a mapping that defines a key twice, so a document is accepted only when its keys are
  distinct at every level (\<open>yaml_wf\<close>). YAML scalars arrive as Go strings, integers,
  floats, booleans or \<^verbatim>\<open>nil\<close>; a type assertion \<^verbatim>\<open>x.(string)\<close> or
  \<^verbatim>\<open>x.(map[string]any)\<close> on anything else, a missing key included, panics. The process
  outcomes of a failed load are kept apart: \<^verbatim>\<open>l.Fatal\<close> (logged, exit status 1), an
  error returned to \<^verbatim>\<open>main\<close> (which exits with status 1), and a runtime panic. Go ranges
  over \<^verbatim>\<open>data["backups"]\<close> in an unspecified order; the model takes the order of the
  association list.
\<close>

datatype yaml =
    YStr string
  | YInt int
  | YFloat string
  | YBool bool
  | YNull
  | YSeq "yaml list"
  | YMap "(string \<times> yaml) list"

datatype config_file = ReadError | NotYaml | Document "(string \<times> yaml) list"

datatype config_error =
    ReadFailed
  | ParseFailed
  | BadInterval dur_error
  | DefaultIntervalFailed dur_error
  | BadRetryInterval dur_error
  | DefaultRetryIntervalFailed dur_error
  | TypeAssertionPanic string

fun yaml_wf :: "yaml \<Rightarrow> bool" where
  "yaml_wf (YSeq vs) = (\<forall>v \<in> set vs. yaml_wf v)"
| "yaml_wf (YMap kvs) = (distinct (map fst kvs) \<and> (\<forall>kv \<in> set kvs. yaml_wf (snd kv)))"
| "yaml_wf _ = True"

definition yaml_Unmarshal :: "config_file \<Rightarrow> config_error + (string \<times> yaml) list" where
  "yaml_Unmarshal file =
     (case file of
        ReadError \<Rightarrow> Inl ReadFailed
      | NotYaml \<Rightarrow> Inl ParseFailed
      | Document data \<Rightarrow> (if yaml_wf (YMap data) then Inr data else Inl ParseFailed))"

definition as_string :: "string \<Rightarrow> yaml option \<Rightarrow> config_error + string" where
  "as_string key v = (case v of Some (YStr s) \<Rightarrow> Inr s | _ \<Rightarrow> Inl (TypeAssertionPanic key))"

definition read_duration ::
  "string \<Rightarrow> (dur_error \<Rightarrow> config_error) \<Rightarrow> (dur_error \<Rightarrow> config_error) \<Rightarrow> (string \<times> yaml) list
   \<Rightarrow> config_error + duration"
where
  "read_duration key bad default_failed data =
     (case map_of data key of
        Some v \<Rightarrow>
          (case as_string key (Some v) of
             Inl e \<Rightarrow> Inl e
           | Inr s \<Rightarrow> (case ParseDuration s of Inl e \<Rightarrow> Inl (bad e) | Inr d \<Rightarrow> Inr d))
      | None \<Rightarrow>
          (case ParseDuration ''1d'' of Inl e \<Rightarrow> Inl (default_failed e) | Inr d \<Rightarrow> Inr d))"

definition read_prefix :: "(string \<times> yaml) list \<Rightarrow> config_error + string" where
  "read_prefix data =
     (case map_of data ''metricsPrefix'' of
        Some v \<Rightarrow> as_string ''metricsPrefix'' (Some v)
      | None \<Rightarrow> Inr ''backupremotefiles'')"

definition decode_backup :: "string \<Rightarrow> yaml \<Rightarrow> config_error + backup" where
  "decode_backup i v =
     (case v of
        YMap fb \<Rightarrow>
          (case as_string ''url'' (map_of fb ''url'') of
             Inl e \<Rightarrow> Inl e
           | Inr url \<Rightarrow>
               (case as_string ''username'' (map_of fb ''username'') of
                  Inl e \<Rightarrow> Inl e
                | Inr username \<Rightarrow>
                    (case as_string ''password'' (map_of fb ''password'') of
                       Inl e \<Rightarrow> Inl e
                     | Inr password \<Rightarrow>
                         (case as_string ''outputFile'' (map_of fb ''outputFile'') of
                            Inl e \<Rightarrow> Inl e
                          | Inr out \<Rightarrow>
                              Inr \<lparr>ID = i, URL = url, Username = username, Password = password,
                                   OutputFile = out, RetrieveSuccess = True\<rparr>))))
      | _ \<Rightarrow> Inl (TypeAssertionPanic i))"

fun decode_backups :: "(string \<times> yaml) list \<Rightarrow> config_error + backup list" where
  "decode_backups [] = Inr []"
| "decode_backups ((i, v) # rest) =
     (case decode_backup i v of
        Inl e \<Rightarrow> Inl e
      | Inr b \<Rightarrow> (case decode_backups rest of Inl e \<Rightarrow> Inl e | Inr bs \<Rightarrow> Inr (b # bs)))"

definition read_backups :: "(string \<times> yaml) list \<Rightarrow> config_error + backup list" where
  "read_backups data =
     (case map_of data ''backups'' of
        Some (YMap bs) \<Rightarrow> decode_backups bs
      | _ \<Rightarrow> Inl (TypeAssertionPanic ''backups''))"

definition readConfig :: "config_file \<Rightarrow> config \<Rightarrow> config_error + config" where
  "readConfig file c =
     (case yaml_Unmarshal file of
        Inl e \<Rightarrow> Inl e
      | Inr data \<Rightarrow>
          (case read_duration ''interval'' BadInterval DefaultIntervalFailed data of
             Inl e \<Rightarrow> Inl e
           | Inr interval \<Rightarrow>
               (case read_duration ''retryInterval'' BadRetryInterval DefaultRetryIntervalFailed data of
                  Inl e \<Rightarrow> Inl e
                | Inr retry \<Rightarrow>
                    (case read_prefix data of
                       Inl e \<Rightarrow> Inl e
                     | Inr prefix \<Rightarrow>
                         (case read_backups data of
                            Inl e \<Rightarrow> Inl e
                          | Inr bs \<Rightarrow>
                              Inr (c\<lparr>Interval := interval, RetryInterval := retry,
                                     MetricsPrefix := prefix, Backups := bs\<rparr>))))))"

definition New :: "int \<Rightarrow> config_file \<Rightarrow> config_error + config" where
  "New port file =
     readConfig file
       \<lparr>Port = port, Backups = [], Interval = 0, RetryInterval = 0, MetricsPrefix = ''''\<rparr>"

subsection \<open>What a loaded configuration satisfies\<close>

text \<open>
  An entry of the \<^verbatim>\<open>backups\<close> mapping that \<^verbatim>\<open>readConfig\<close> can decode: a mapping whose
  four fields are YAML strings; the backup record that decoding an entry must give
  (\<open>entry_decodes\<close>: each field the string the entry holds under its key). The configuration file of the Go test
  (\<^verbatim>\<open>createConfigFile\<close> in \<^verbatim>\<open>src/main_test.go\<close>) as a decoded document.
\<close>

definition yaml_string :: "yaml option \<Rightarrow> bool" where
  "yaml_string v = (case v of Some (YStr s) \<Rightarrow> True | _ \<Rightarrow> False)"

definition entry_ok :: "yaml \<Rightarrow> bool" where
  "entry_ok v =
     (case v of
        YMap fb \<Rightarrow> list_all (\<lambda>k. yaml_string (map_of fb k)) [''url'', ''username'', ''password'', ''outputFile'']
      | _ \<Rightarrow> False)"


definition test_document :: "(string \<times> yaml) list" where
  "test_document =
     [(''backups'', YMap [(''voh0ahch3E'', YMap [(''url'', YStr ''http://127.0.0.1:8080/''),
          (''username'', YStr ''''), (''password'', YStr ''''), (''outputFile'', YStr ''voh0ahch3E.out'')])]),
      (''interval'', YStr ''1m''), (''retryInterval'', YStr ''10s''), (''metricsPrefix'', YStr ''backuprf'')]"

lemmas config_code = New_def readConfig_def yaml_Unmarshal_def read_duration_def read_prefix_def
  read_backups_def decode_backup_def as_string_def dur_code parse_loop.simps

lemma read_duration_missing:
  "map_of data key = None \<Longrightarrow> read_duration key bad df data = Inl (df (UnknownUnit ''d''))"
  by (simp add: read_duration_def ParseDuration_1d)


lemma decode_backup_Inr:
  "decode_backup i v = Inr b \<Longrightarrow> ID b = i \<and> RetrieveSuccess b"
  by (auto simp: decode_backup_def as_string_def split: yaml.splits option.splits sum.splits)

lemma decode_backups_Inr:
  "decode_backups bs = Inr xs \<Longrightarrow> map ID xs = map fst bs \<and> list_all RetrieveSuccess xs"
proof (induction bs arbitrary: xs)
  case Nil
  then show ?case by simp
next
  case (Cons iv bs)
  obtain i v where iv: "iv = (i, v)" by (cases iv)
  from Cons.prems obtain b xs' where b: "decode_backup i v = Inr b"
    and r: "decode_backups bs = Inr xs'" and xs: "xs = b # xs'"
    by (auto simp: iv split: sum.splits)
  show ?case using decode_backup_Inr [OF b] Cons.IH [OF r] by (simp add: iv xs)
qed



lemma decode_backup_not_ok:
  "\<not> entry_ok v \<Longrightarrow> \<exists>k. decode_backup i v = Inl (TypeAssertionPanic k)"
  by (auto simp: entry_ok_def decode_backup_def as_string_def yaml_string_def
      split: yaml.splits option.splits)

lemma read_backups_Inr:
  assumes "yaml_wf (YMap data)" and "read_backups data = Inr xs"
  shows "\<exists>bs. map_of data ''backups'' = Some (YMap bs) \<and> distinct (map fst bs) \<and> map ID xs = map fst bs
         \<and> list_all RetrieveSuccess xs"
proof -
  from assms(2) obtain bs where bs: "map_of data ''backups'' = Some (YMap bs)" and d: "decode_backups bs = Inr xs"
    by (auto simp: read_backups_def split: option.splits yaml.splits)
  from bs have mem: "(''backups'', YMap bs) \<in> set data" by (rule map_of_SomeD)
  from assms(1) have "\<forall>kv \<in> set data. yaml_wf (snd kv)" by simp
  from bspec [OF this mem] have "yaml_wf (YMap bs)" by simp
  then have "distinct (map fst bs)" by simp
  with bs decode_backups_Inr [OF d] show ?thesis by blast
qed

lemma readConfig_Inr:
  assumes "readConfig (Document data) c = Inr c'"
  shows "yaml_wf (YMap data)
    \<and> read_duration ''interval'' BadInterval DefaultIntervalFailed data = Inr (Interval c')
    \<and> read_duration ''retryInterval'' BadRetryInterval DefaultRetryIntervalFailed data = Inr (RetryInterval c')
    \<and> read_prefix data = Inr (MetricsPrefix c') \<and> read_backups data = Inr (Backups c')
    \<and> Port c' = Port c"
  using assms
  by (auto simp: readConfig_def yaml_Unmarshal_def split: if_splits sum.splits)

lemma readConfig_config_loaded:
  assumes "readConfig cf c = Inr c'"
  shows "config_loaded c'"
proof (cases cf)
  case ReadError
  with assms show ?thesis by (simp add: readConfig_def yaml_Unmarshal_def)
next
  case NotYaml
  with assms show ?thesis by (simp add: readConfig_def yaml_Unmarshal_def)
next
  case (Document data)
  with assms have r: "yaml_wf (YMap data)" "read_backups data = Inr (Backups c')"
    using readConfig_Inr by blast+
  from read_backups_Inr [OF r] show ?thesis
    by (auto simp: config_loaded_def backups_wf_def)
qed

subsection \<open>Properties of loading\<close>

text \<open>
  C13. The documented defaults never take effect: \<^verbatim>\<open>readConfig\<close> falls back to
  \<^verbatim>\<open>time.ParseDuration("1d")\<close> when \<^verbatim>\<open>interval\<close> or \<^verbatim>\<open>retryInterval\<close> is absent,
  which fails (Go has no day unit), so every configuration that loads names both
  intervals explicitly.
\<close>

theorem readConfig_requires_intervals:
  "readConfig (Document data) c = Inr c' \<Longrightarrow>
   map_of data ''interval'' \<noteq> None \<and> map_of data ''retryInterval'' \<noteq> None"
  using readConfig_Inr [of data c c'] read_duration_missing
  by (metis sum.distinct(1))

theorem readConfig_requires_intervals_witness:
  "(\<exists>c'. New 9289 (Document test_document) = Inr c')
   \<and> map_of test_document ''interval'' \<noteq> None \<and> map_of test_document ''retryInterval'' \<noteq> None"
proof -
  obtain c' where h: "New 9289 (Document test_document) = Inr c'"
    by (simp add: config_code test_document_def)
  from readConfig_requires_intervals [OF h [unfolded New_def]] h show ?thesis by blast
qed
text \<open>
  C14. Without an \<^verbatim>\<open>interval\<close> key, a well-formed document always ends in the
  \<^verbatim>\<open>l.Fatal\<close> branch that the code labels "THIS IS A BUG": the default \<^verbatim>\<open>"1d"\<close> is
  rejected with the unknown unit \<^verbatim>\<open>"d"\<close>.
\<close>

theorem readConfig_missing_interval_fatal:
  "yaml_wf (YMap data) \<Longrightarrow> map_of data ''interval'' = None \<Longrightarrow>
   readConfig (Document data) c = Inl (DefaultIntervalFailed (UnknownUnit ''d''))"
  by (simp add: readConfig_def yaml_Unmarshal_def read_duration_missing)

theorem readConfig_missing_interval_fatal_witness:
  "yaml_wf (YMap [(''backups'', YMap [])]) \<and> map_of [(''backups'', YMap [])] ''interval'' = None
   \<and> New 9289 (Document [(''backups'', YMap [])]) = Inl (DefaultIntervalFailed (UnknownUnit ''d''))"
proof -
  have h: "yaml_wf (YMap [(''backups'', YMap [])])" "map_of [(''backups'', YMap [])] ''interval'' = None"
    by simp_all
  with readConfig_missing_interval_fatal [OF h] show ?thesis by (simp add: New_def)
qed



lemma decode_backup_Inl:
  "decode_backup i v = Inl e \<Longrightarrow> \<exists>k. e = TypeAssertionPanic k"
  by (auto simp: decode_backup_def as_string_def split: yaml.splits option.splits sum.splits)

text \<open>
  C16. An entry of \<^verbatim>\<open>backups\<close> that is not a mapping, or one of whose four fields is
  missing or not a YAML string (an unquoted numeric password such as \<^verbatim>\<open>1234\<close> decodes
  to a Go \<^verbatim>\<open>int\<close>), makes a type assertion panic while loading.
\<close>

theorem backup_entry_not_string_panics:
  "(i, v) \<in> set bs \<Longrightarrow> \<not> entry_ok v \<Longrightarrow> \<exists>k. decode_backups bs = Inl (TypeAssertionPanic k)"
proof (induction bs)
  case Nil
  then show ?case by simp
next
  case (Cons jw bs)
  obtain j w where jw: "jw = (j, w)" by (cases jw)
  show ?case
  proof (cases "decode_backup j w")
    case (Inl e)
    with decode_backup_Inl show ?thesis by (fastforce simp: jw)
  next
    case (Inr b)
    have "(i, v) = (j, w) \<or> (i, v) \<in> set bs" using Cons.prems(1) jw by simp
    moreover have "(i, v) \<noteq> (j, w)"
      using Inr decode_backup_not_ok [OF Cons.prems(2), of i] by auto
    ultimately have "(i, v) \<in> set bs" by blast
    with Cons.IH Cons.prems(2) obtain k where "decode_backups bs = Inl (TypeAssertionPanic k)"
      by blast
    with Inr show ?thesis by (simp add: jw)
  qed
qed

theorem backup_entry_not_string_panics_witness:
  "\<exists>k. decode_backups [(''k'', YMap [(''url'', YStr ''http://x/''), (''username'', YStr ''admin''),
        (''password'', YInt 1234), (''outputFile'', YStr ''k.out'')])] = Inl (TypeAssertionPanic k)"
proof -
  let ?v = "YMap [(''url'', YStr ''http://x/''), (''username'', YStr ''admin''),
        (''password'', YInt 1234), (''outputFile'', YStr ''k.out'')]"
  have "(''k'', ?v) \<in> set [(''k'', ?v)]" "\<not> entry_ok ?v"
    by (simp_all add: entry_ok_def yaml_string_def)
  from backup_entry_not_string_panics [OF this] show ?thesis .
qed
text \<open>
  C17. An interval configured in days (\<^verbatim>\<open>"1d"\<close>, \<^verbatim>\<open>"7d"\<close>) is rejected: the key's
  error branch is taken with the duration error "unknown unit d", since
  \<^verbatim>\<open>time.ParseDuration\<close> has no day unit.
\<close>

theorem read_duration_days_rejected:
  "map_of data key = Some (YStr (ds @ ''d'')) \<Longrightarrow> ds \<noteq> [] \<Longrightarrow> list_all digit_char ds \<Longrightarrow>
   digits_value ds \<le> 2 ^ 63 \<Longrightarrow> read_duration key bad df data = Inl (bad (UnknownUnit ''d''))"
  by (simp add: read_duration_def as_string_def ParseDuration_day_unit)

theorem read_duration_days_rejected_witness:
  "read_duration ''interval'' BadInterval DefaultIntervalFailed [(''interval'', YStr ''7d'')] =
     Inl (BadInterval (UnknownUnit ''d''))"
proof -
  have h: "map_of [(''interval'', YStr ''7d'')] ''interval'' = Some (YStr (''7'' @ ''d''))"
    "''7'' \<noteq> []" "list_all digit_char ''7''" "digits_value ''7'' \<le> 2 ^ 63"
    by (simp_all add: digit_char_def digits_value_def digit_step_def)
  from read_duration_days_rejected [OF h] show ?thesis .
qed

text \<open>
  C18. An interval written as a decimal numeral and a unit loads as the numeral times the
  unit in nanoseconds (for instance \<^verbatim>\<open>"10s"\<close> as \<open>10^10\<close>), below \<open>2^63\<close>.
\<close>

theorem read_duration_digits_unit:
  "map_of data key = Some (YStr (ds @ u)) \<Longrightarrow> ds \<noteq> [] \<Longrightarrow> list_all digit_char ds \<Longrightarrow>
   unit_of u = Some k \<Longrightarrow> digits_value ds * unat k < 2 ^ 63 \<Longrightarrow>
   read_duration key bad df data = Inr (int (digits_value ds * unat k))"
  by (simp add: read_duration_def as_string_def ParseDuration_digits_unit)

theorem read_duration_digits_unit_witness:
  "read_duration ''retryInterval'' BadRetryInterval DefaultRetryIntervalFailed test_document = Inr 10000000000"
proof -
  have h: "map_of test_document ''retryInterval'' = Some (YStr (''10'' @ ''s''))"
    "''10'' \<noteq> []" "list_all digit_char ''10''" "unit_of ''s'' = Some 1000000000"
    "digits_value ''10'' * unat (1000000000 :: uint64) < 2 ^ 63"
    by (simp_all add: test_document_def digit_char_def unit_of_def digits_value_def digit_step_def)
  from read_duration_digits_unit [OF h] show ?thesis
    by (simp add: digits_value_def digit_step_def)
qed


end
