(* ===== verification/Cli.thy ===== *)
theory Cli
  imports Banner Config
begin

text \<open>
  The command line: the struct \<^verbatim>\<open>CLI\<close> (\<^verbatim>\<open>src/config/config.go\<close> lines 61--65), its
  parse by \<^verbatim>\<open>kong.Parse(&cli, kong.Bind(version))\<close> in \<^verbatim>\<open>config.New\<close> (line 86) and the
  \<^verbatim>\<open>BeforeReset\<close> hook of \<^verbatim>\<open>VersionFlag\<close> (lines 54--59), which prints the banner and
  exits. kong is a library: its scanner is modelled from its documented behaviour for the
  flags this struct declares: \<^verbatim>\<open>--config\<close>/\<^verbatim>\<open>-c\<close> (a required string),
  \<^verbatim>\<open>--port\<close>/\<^verbatim>\<open>-p\<close> (an \<^verbatim>\<open>int\<close>, default 9289), \<^verbatim>\<open>--version\<close>/\<^verbatim>\<open>-V\<close> and kong's own
  \<^verbatim>\<open>--help\<close>/\<^verbatim>\<open>-h\<close>; a value is the next argument (which must not look like a flag) or
  follows \<^verbatim>\<open>=\<close>; the last occurrence of a flag wins; \<^verbatim>\<open>--\<close> ends the flags. The
  \<^verbatim>\<open>BeforeReset\<close> hooks run after the whole line is scanned and before required flags
  are checked, in the order their flags appear. An \<^verbatim>\<open>int\<close> is decoded by
  \<^verbatim>\<open>strconv.ParseInt(s, 0, 64)\<close>: optional sign, then base prefix \<^verbatim>\<open>0b\<close>, \<^verbatim>\<open>0o\<close>,
  \<^verbatim>\<open>0x\<close> or a leading \<^verbatim>\<open>0\<close> for octal, digits of the base, a 64-bit range (digit
  separators \<^verbatim>\<open>_\<close> are not modelled). Error messages are kong's in substance, not
  verbatim. \<^verbatim>\<open>strconv.Itoa\<close> prints an \<^verbatim>\<open>int\<close> in decimal.
\<close>

record cli =
  ConfigFile :: string
  CliPort :: int
  CliVersion :: bool

datatype hook = HookHelp | HookVersion

record kong_flags =
  kf_config :: "string option"
  kf_port :: "int option"
  kf_hook :: "hook option"

datatype kong_result = KongOk cli | KongFatal string | KongHelpExit | KongVersionExit string

subsection \<open>strconv\<close>

fun nat_digits :: "nat \<Rightarrow> string" where
  "nat_digits n =
     (if n < 10 then [char_of (48 + n)] else nat_digits (n div 10) @ [char_of (48 + n mod 10)])"

definition Itoa :: "int \<Rightarrow> string" where
  "Itoa i = (if i < 0 then CHR ''-'' # nat_digits (nat (- i)) else nat_digits (nat i))"

definition char_val :: "char \<Rightarrow> nat" where
  "char_val c =
     (let n = of_char c :: nat in
      if 48 \<le> n \<and> n \<le> 57 then n - 48
      else if 97 \<le> n \<and> n \<le> 122 then n - 87
      else if 65 \<le> n \<and> n \<le> 90 then n - 55
      else 36)"

definition digits_in_base :: "nat \<Rightarrow> string \<Rightarrow> nat" where
  "digits_in_base b ds = foldl (\<lambda>n c. b * n + char_val c) 0 ds"

definition base_prefix :: "string \<Rightarrow> nat \<times> string" where
  "base_prefix s =
     (if s \<noteq> [] \<and> hd s = CHR ''0'' then
        (if 3 \<le> length s \<and> (s ! 1 = CHR ''b'' \<or> s ! 1 = CHR ''B'') then (2, drop 2 s)
         else if 3 \<le> length s \<and> (s ! 1 = CHR ''o'' \<or> s ! 1 = CHR ''O'') then (8, drop 2 s)
         else if 3 \<le> length s \<and> (s ! 1 = CHR ''x'' \<or> s ! 1 = CHR ''X'') then (16, drop 2 s)
         else (8, tl s))
      else (10, s))"

definition ParseUint :: "string \<Rightarrow> nat option" where
  "ParseUint s =
     (if s = [] then None
      else (case base_prefix s of
              (b, ds) \<Rightarrow> if list_all (\<lambda>c. char_val c < b) ds then Some (digits_in_base b ds) else None))"

definition ParseInt :: "string \<Rightarrow> int option" where
  "ParseInt s =
     (if s = [] then None
      else (let (neg, r) = (if hd s = CHR ''-'' then (True, tl s)
                            else if hd s = CHR ''+'' then (False, tl s) else (False, s)) in
            case ParseUint r of
              None \<Rightarrow> None
            | Some u \<Rightarrow>
                if neg then (if u \<le> 2 ^ 63 then Some (- int u) else None)
                else (if u < 2 ^ 63 then Some (int u) else None)))"

subsection \<open>kong\<close>

definition is_flag_token :: "string \<Rightarrow> bool" where
  "is_flag_token a \<longleftrightarrow> a \<noteq> [] \<and> hd a = CHR ''-'' \<and> a \<noteq> ''-''"

definition first_hook :: "hook option \<Rightarrow> hook \<Rightarrow> hook option" where
  "first_hook h new = (case h of None \<Rightarrow> Some new | Some old \<Rightarrow> Some old)"

datatype cli_token =
  TokConfig | TokConfigValue string | TokPort | TokPortValue string | TokVersion | TokHelp
  | TokEnd | TokUnknownFlag | TokArg

definition classify :: "string \<Rightarrow> cli_token" where
  "classify a =
     (if a = ''--config'' \<or> a = ''-c'' then TokConfig
      else if take 9 a = ''--config='' then TokConfigValue (drop 9 a)
      else if a = ''--port'' \<or> a = ''-p'' then TokPort
      else if take 7 a = ''--port='' then TokPortValue (drop 7 a)
      else if a = ''--version'' \<or> a = ''-V'' then TokVersion
      else if a = ''--help'' \<or> a = ''-h'' then TokHelp
      else if a = ''--'' then TokEnd
      else if is_flag_token a then TokUnknownFlag
      else TokArg)"

fun kong_trace :: "string list \<Rightarrow> kong_flags \<Rightarrow> string + kong_flags" where
  "kong_trace [] f = Inr f"
| "kong_trace (a # rest) f =
     (case classify a of
        TokConfig \<Rightarrow>
          (case rest of
             [] \<Rightarrow> Inl ''--config: expected string value''
           | v # rest' \<Rightarrow>
               if is_flag_token v then Inl (''--config: expected string value but got '' @ v)
               else kong_trace rest' (f\<lparr>kf_config := Some v\<rparr>))
      | TokConfigValue v \<Rightarrow> kong_trace rest (f\<lparr>kf_config := Some v\<rparr>)
      | TokPort \<Rightarrow>
          (case rest of
             [] \<Rightarrow> Inl ''--port: expected int value''
           | v # rest' \<Rightarrow>
               if is_flag_token v then Inl (''--port: expected int value but got '' @ v)
               else (case ParseInt v of
                       None \<Rightarrow> Inl (''--port: expected a valid 64 bit int but got '' @ v)
                     | Some n \<Rightarrow> kong_trace rest' (f\<lparr>kf_port := Some n\<rparr>)))
      | TokPortValue v \<Rightarrow>
          (case ParseInt v of
             None \<Rightarrow> Inl (''--port: expected a valid 64 bit int but got '' @ v)
           | Some n \<Rightarrow> kong_trace rest (f\<lparr>kf_port := Some n\<rparr>))
      | TokVersion \<Rightarrow> kong_trace rest (f\<lparr>kf_hook := first_hook (kf_hook f) HookVersion\<rparr>)
      | TokHelp \<Rightarrow> kong_trace rest (f\<lparr>kf_hook := first_hook (kf_hook f) HookHelp\<rparr>)
      | TokEnd \<Rightarrow> (case rest of [] \<Rightarrow> Inr f | v # _ \<Rightarrow> Inl (''unexpected argument '' @ v))
      | TokUnknownFlag \<Rightarrow> Inl (''unknown flag '' @ a)
      | TokArg \<Rightarrow> Inl (''unexpected argument '' @ a))"

definition no_flags :: kong_flags where
  "no_flags = \<lparr>kf_config = None, kf_port = None, kf_hook = None\<rparr>"

definition version_hook :: "time_lib \<Rightarrow> build_info option \<Rightarrow> string \<Rightarrow> kong_result" where
  "version_hook tlib bi version = KongVersionExit (printVersion tlib bi version)"

definition kong_parse :: "time_lib \<Rightarrow> build_info option \<Rightarrow> string \<Rightarrow> string list \<Rightarrow> kong_result" where
  "kong_parse tlib bi version args =
     (case kong_trace args no_flags of
        Inl e \<Rightarrow> KongFatal e
      | Inr f \<Rightarrow>
          (case kf_hook f of
             Some HookHelp \<Rightarrow> KongHelpExit
           | Some HookVersion \<Rightarrow> version_hook tlib bi version
           | None \<Rightarrow>
               (case kf_config f of
                  None \<Rightarrow> KongFatal ''missing flags: --config=STRING''
                | Some c \<Rightarrow>
                    KongOk \<lparr>ConfigFile = c, CliPort = (case kf_port f of None \<Rightarrow> 9289 | Some p \<Rightarrow> p),
                            CliVersion = False\<rparr>)))"

subsection \<open>Lemmas\<close>

declare nat_digits.simps [simp del]

lemma char_val_digit [simp]: "m < 10 \<Longrightarrow> char_val (char_of (48 + m)) = m"
  by (simp add: char_val_def)

lemma digits_in_base_snoc [simp]:
  "digits_in_base b (xs @ [c]) = b * digits_in_base b xs + char_val c"
  by (simp add: digits_in_base_def)

lemma char_val_range: "48 \<le> (of_char c :: nat) \<Longrightarrow> of_char c \<le> (57 :: nat) \<Longrightarrow> char_val c = of_char c - 48"
  by (simp add: char_val_def)

lemma nat_digits_props:
  "nat_digits n \<noteq> [] \<and> list_all (\<lambda>c. 48 \<le> (of_char c :: nat) \<and> of_char c \<le> (57 :: nat)) (nat_digits n)
   \<and> digits_in_base 10 (nat_digits n) = n \<and> (n \<noteq> 0 \<longrightarrow> of_char (hd (nat_digits n)) \<noteq> (48 :: nat))"
proof (induction n rule: nat_digits.induct)
  case (1 n)
  show ?case
  proof (cases "n < 10")
    case True
    then show ?thesis by (simp add: digits_in_base_def nat_digits.simps)
  next
    case False
    then have "n div 10 \<noteq> 0" by simp
    with 1 False show ?thesis
      by (subst (1 2 3 4) nat_digits.simps) auto
  qed
qed

lemma nat_digits_hd:
  "hd (nat_digits n) \<noteq> CHR ''-'' \<and> hd (nat_digits n) \<noteq> CHR ''+'' \<and> (n \<noteq> 0 \<longrightarrow> hd (nat_digits n) \<noteq> CHR ''0'')"
proof -
  define h where "h = hd (nat_digits n)"
  have ge: "48 \<le> (of_char h :: nat)"
    using nat_digits_props [of n] unfolding h_def by (cases "nat_digits n") simp_all
  have "h \<noteq> CHR ''-''" using ge by (cases "h = CHR ''-''") simp_all
  moreover have "h \<noteq> CHR ''+''" using ge by (cases "h = CHR ''+''") simp_all
  moreover have "n \<noteq> 0 \<longrightarrow> h \<noteq> CHR ''0''"
    using nat_digits_props [of n] unfolding h_def [symmetric] by (cases "h = CHR ''0''") simp_all
  ultimately show ?thesis by (simp add: h_def)
qed

lemma nat_digits_base10: "list_all (\<lambda>c. char_val c < 10) (nat_digits n)"
proof -
  have d: "\<forall>c \<in> set (nat_digits n). 48 \<le> (of_char c :: nat) \<and> of_char c \<le> (57 :: nat)"
    using nat_digits_props [of n] unfolding list_all_iff by blast
  have "char_val c < 10" if "c \<in> set (nat_digits n)" for c
  proof -
    have "48 \<le> (of_char c :: nat)" "of_char c \<le> (57 :: nat)" using d that by blast+
    then show ?thesis by (simp add: char_val_range)
  qed
  then show ?thesis by (simp add: list_all_iff)
qed

lemma char_of_48: "char_of (48 :: nat) = CHR ''0''"
proof -
  have "of_char (CHR ''0'') = (48 :: nat)" by simp
  then show ?thesis by (metis char_of_char)
qed

lemma ParseUint_nat_digits: "ParseUint (nat_digits n) = Some n"
proof (cases "n = 0")
  case True
  then show ?thesis
    by (simp add: ParseUint_def base_prefix_def digits_in_base_def char_of_48 nat_digits.simps)
next
  case False
  then show ?thesis
    using nat_digits_props [of n] nat_digits_hd [of n] nat_digits_base10 [of n]
    by (simp add: ParseUint_def base_prefix_def)
qed

lemma ParseInt_Itoa:
  assumes "- (2 ^ 63) \<le> n" and "n < 2 ^ 63"
  shows "ParseInt (Itoa n) = Some n"
proof (cases "n < 0")
  case True
  then have "nat (- n) \<le> 2 ^ 63" using assms(1) by simp
  then show ?thesis
    using True ParseUint_nat_digits [of "nat (- n)"] by (simp add: ParseInt_def Itoa_def)
next
  case False
  then have "nat n < 2 ^ 63" using assms(2) by simp
  then show ?thesis
    using False ParseUint_nat_digits [of "nat n"] nat_digits_hd [of "nat n"] nat_digits_props [of "nat n"]
    by (simp add: ParseInt_def Itoa_def)
qed


lemma classify_config_eq [simp]: "classify (''--config='' @ f) = TokConfigValue f"
  by (simp add: classify_def)

lemma classify_port_eq [simp]: "classify (''--port='' @ s) = TokPortValue s"
  by (simp add: classify_def)

lemma kong_parse_config_port:
  assumes "- (2 ^ 63) \<le> n" and "n < 2 ^ 63"
  shows "kong_parse tlib bi version [''--config='' @ f, ''--port='' @ Itoa n] =
           KongOk \<lparr>ConfigFile = f, CliPort = n, CliVersion = False\<rparr>"
proof -
  have "kong_trace [''--config='' @ f, ''--port='' @ Itoa n] no_flags =
          Inr (no_flags\<lparr>kf_config := Some f\<rparr>\<lparr>kf_port := Some n\<rparr>)"
    by (simp only: kong_trace.simps classify_config_eq classify_port_eq cli_token.case
        ParseInt_Itoa [OF assms] option.case)
  then show ?thesis by (simp add: kong_parse_def no_flags_def)
qed

lemma classify_V: "classify ''-V'' = TokVersion"
  by (simp add: classify_def)

lemma classify_value: "classify a = TokConfig \<or> classify a = TokPort \<Longrightarrow> a \<noteq> ''-V''"
  by (auto simp: classify_def)

lemma kong_trace_hook:
  "kong_trace args f = Inr f' \<Longrightarrow> kf_hook f \<noteq> None \<or> ''-V'' \<in> set args \<Longrightarrow> kf_hook f' \<noteq> None"
proof (induction "length args" arbitrary: args f rule: less_induct)
  case less
  show ?case
  proof (cases args)
    case Nil
    then show ?thesis using less.prems by simp
  next
    case (Cons a rest)
    have flagV: "is_flag_token ''-V''" by (simp add: is_flag_token_def)
    note tr = less.prems(1) [unfolded Cons]
    note pre = less.prems(2) [unfolded Cons]
    have ih: "kf_hook f' \<noteq> None"
      if "kong_trace xs g = Inr f'" "kf_hook g \<noteq> None \<or> ''-V'' \<in> set xs" "length xs < length args" for xs g
      using less.hyps that by blast
    show ?thesis
    proof (cases "classify a")
      case TokVersion
      then show ?thesis
        using tr ih [of rest] Cons by (simp add: first_hook_def split: option.splits)
    next
      case TokHelp
      then have "a \<noteq> ''-V''" using classify_V by auto
      then show ?thesis
        using tr pre ih [of rest] Cons TokHelp by (simp add: first_hook_def split: option.splits)
    next
      case TokConfig
      then have na: "a \<noteq> ''-V''" using classify_value by blast
      from tr TokConfig obtain v rest' where r: "rest = v # rest'" "\<not> is_flag_token v"
          and tr': "kong_trace rest' (f\<lparr>kf_config := Some v\<rparr>) = Inr f'"
        by (auto split: list.splits if_splits)
      have "v \<noteq> ''-V''" using r(2) flagV by auto
      then show ?thesis using ih [OF tr'] pre na r(1) Cons by simp
    next
      case TokPort
      then have na: "a \<noteq> ''-V''" using classify_value by blast
      from tr TokPort obtain v rest' n where r: "rest = v # rest'" "\<not> is_flag_token v"
          and tr': "kong_trace rest' (f\<lparr>kf_port := Some n\<rparr>) = Inr f'"
        by (auto split: list.splits if_splits option.splits)
      have "v \<noteq> ''-V''" using r(2) flagV by auto
      then show ?thesis using ih [OF tr'] pre na r(1) Cons by simp
    next
      case (TokConfigValue v)
      then have "a \<noteq> ''-V''" using classify_V by auto
      then show ?thesis using tr pre ih [of rest] Cons TokConfigValue by simp
    next
      case (TokPortValue v)
      then have na: "a \<noteq> ''-V''" using classify_V by auto
      from tr TokPortValue obtain n where tr': "kong_trace rest (f\<lparr>kf_port := Some n\<rparr>) = Inr f'"
        by (auto split: option.splits)
      show ?thesis using ih [OF tr'] pre na Cons by simp
    next
      case TokEnd
      then have "a \<noteq> ''-V''" using classify_V by auto
      then show ?thesis using tr pre TokEnd by (auto split: list.splits)
    qed (use tr in simp_all)
  qed
qed

lemma kong_parse_version_flag:
  assumes "''-V'' \<in> set args"
  shows "kong_parse tlib bi version args \<in>
           {KongHelpExit, KongVersionExit (printVersion tlib bi version)} \<union> range KongFatal"
proof (cases "kong_trace args no_flags")
  case (Inl e)
  then show ?thesis by (simp add: kong_parse_def)
next
  case (Inr f)
  then have "kf_hook f \<noteq> None" using kong_trace_hook assms by blast
  with Inr show ?thesis
    by (auto simp: kong_parse_def version_hook_def split: option.splits hook.splits)
qed

end
