(* ===== verification/Server.thy ===== *)
theory Server
  imports Cli
begin

text \<open>
  The exporter's HTTP server (\<^verbatim>\<open>src/main.go\<close> lines 237--248): the address
  \<^verbatim>\<open>":" + strconv.Itoa(cfg.Port)\<close> and \<^verbatim>\<open>server.ListenAndServe()\<close>, whose error ends
  the program through \<^verbatim>\<open>l.Fatal\<close>. The Go \<^verbatim>\<open>net\<close> package is modelled from its
  documentation for addresses of the form \<^verbatim>\<open>:port\<close>: the port is a decimal number with an
  optional sign (the package saturates large values, which changes no range decision), a
  port outside 0 to 65535 is refused as an invalid port, port 0 lets the system choose a
  free port, and binding may fail (a port in use or privileged), which \<open>net_env\<close> says.
  \<open>ListenAndServe\<close> returning \<open>Inr p\<close> means the server runs on port \<open>p\<close> and the call
  never returns.
\<close>

record net_env =
  bind_fails :: "int \<Rightarrow> bool"

definition server_Addr :: "int \<Rightarrow> string" where
  "server_Addr port = CHR '':'' # Itoa port"

definition parse_port :: "string \<Rightarrow> int option" where
  "parse_port s =
     (let (neg, ds) = (if s \<noteq> [] \<and> hd s = CHR ''-'' then (True, tl s)
                      else if s \<noteq> [] \<and> hd s = CHR ''+'' then (False, tl s) else (False, s)) in
      if list_all (\<lambda>c. char_val c < 10) ds
      then Some ((if neg then -1 else 1) * int (digits_in_base 10 ds)) else None)"

definition listen_port :: "string \<Rightarrow> int option" where
  "listen_port addr =
     (case addr of
        [] \<Rightarrow> None
      | c # p \<Rightarrow>
          if c \<noteq> CHR '':'' then None
          else (case parse_port p of
                  None \<Rightarrow> None
                | Some n \<Rightarrow> if 0 \<le> n \<and> n \<le> 65535 then Some n else None))"

definition ListenAndServe :: "net_env \<Rightarrow> string \<Rightarrow> string + int" where
  "ListenAndServe net addr =
     (case listen_port addr of
        None \<Rightarrow> Inl ''invalid port''
      | Some p \<Rightarrow> if bind_fails net p then Inl ''address already in use'' else Inr p)"

definition free_net :: net_env where
  "free_net = \<lparr>bind_fails = (\<lambda>_. False)\<rparr>"

subsection \<open>Lemmas\<close>

lemma parse_port_Itoa: "parse_port (Itoa n) = Some n"
proof (cases "n < 0")
  case True
  then show ?thesis
    using nat_digits_props [of "nat (- n)"] nat_digits_base10 [of "nat (- n)"]
    by (simp add: parse_port_def Itoa_def)
next
  case False
  then show ?thesis
    using nat_digits_props [of "nat n"] nat_digits_base10 [of "nat n"] nat_digits_hd [of "nat n"]
    by (simp add: parse_port_def Itoa_def)
qed

lemma listen_port_server_Addr:
  "listen_port (server_Addr n) = (if 0 \<le> n \<and> n \<le> 65535 then Some n else None)"
  by (simp add: listen_port_def server_Addr_def parse_port_Itoa)

lemma ListenAndServe_server_Addr:
  "ListenAndServe net (server_Addr n) =
     (if 0 \<le> n \<and> n \<le> 65535 then (if bind_fails net n then Inl ''address already in use'' else Inr n)
      else Inl ''invalid port'')"
  by (simp add: ListenAndServe_def listen_port_server_Addr)

end
