(* ===== verification/Sweep_Order.thy ===== *)
theory Sweep_Order
  imports Sweep "HOL-Library.Multiset"
begin

text \<open>
  The order of a sweep. \<^verbatim>\<open>readConfig\<close> fills \<^verbatim>\<open>cfg.Backups\<close> by ranging over the Go map
  of the \<^verbatim>\<open>backups\<close> mapping (\<^verbatim>\<open>src/config/config.go\<close> lines 166--178), whose iteration
  order Go leaves unspecified, and \<^verbatim>\<open>retrieveUrls\<close> then visits the items in that order.
  This theory shows that the order does not matter when the items' identifiers and output
  paths are distinct: every permutation of the items gives the same metrics, the same
  files and the same result, and the same items. The identifiers are distinct by
  construction (map keys); the output paths are not checked, and with a shared path the
  content of the file depends on the order. \<open>item_file\<close> is the file-system effect of one
  item's attempt, the \<^verbatim>\<open>backupFile\<close> call of the loop.
\<close>

definition item_file :: "world \<Rightarrow> backup \<Rightarrow> fs \<Rightarrow> fs" where
  "item_file w b files = snd (backupFile w (ID b) (URL b) (Username b) (Password b) (OutputFile b) files)"

definition world_echo :: world where
  "world_echo = world_A\<lparr>http_get := (\<lambda>url _ _. HttpResponse 200 url)\<rparr>"

definition item_x :: backup where
  "item_x = (item ''x'' ''http://x/'' True)\<lparr>OutputFile := ''same.out''\<rparr>"

definition item_y :: backup where
  "item_y = (item ''y'' ''http://y/'' True)\<lparr>OutputFile := ''same.out''\<rparr>"

subsection \<open>Lemmas\<close>

lemma retrieve_item_files:
  "sw_files (snd (retrieve_item w ra b s)) =
     (if considered ra b then item_file w b (sw_files s) else sw_files s)"
  by (cases "considered ra b") (simp_all add: retrieve_item_skip retrieve_item_eq item_file_def)

lemma retrieve_loop_files:
  "sw_files (snd (retrieve_loop w ra bs s)) = fold (item_file w) (filter (considered ra) bs) (sw_files s)"
  by (induction bs arbitrary: s) (simp_all add: retrieve_loop_Cons retrieve_item_files)

lemma retrieveUrls_snd:
  "snd (retrieveUrls w cfg m files ra) =
     \<lparr>sw_metrics = (sweep_metrics w ra (Backups cfg) m)\<lparr>BackupTotal := Suc (BackupTotal m)\<rparr>,
      sw_files = fold (item_file w) (filter (considered ra) (Backups cfg)) files,
      allRetrievalsSuccess = list_all (\<lambda>b. considered ra b \<longrightarrow> fetch_started w b) (Backups cfg)\<rparr>"
  by (simp add: retrieveUrls_state Let_def retrieve_loop_files retrieve_loop_metrics retrieve_loop_all)

lemma item_metrics_commute:
  assumes "ID a \<noteq> ID b"
  shows "item_metrics w a \<circ> item_metrics w b = item_metrics w b \<circ> item_metrics w a"
proof
  fix m
  show "(item_metrics w a \<circ> item_metrics w b) m = (item_metrics w b \<circ> item_metrics w a) m"
    using assms
    by (simp add: item_metrics_def record_success_def record_failure_def gauge_set_def
        counter_inc_def counter_add_def counter_val_def fun_upd_twist)
qed

lemma item_file_commute:
  assumes "OutputFile a \<noteq> OutputFile b"
  shows "item_file w a \<circ> item_file w b = item_file w b \<circ> item_file w a"
proof
  fix files
  show "(item_file w a \<circ> item_file w b) files = (item_file w b \<circ> item_file w a) files"
    using assms
    by (simp add: item_file_def backupFile_files fun_upd_twist split: option.splits)
qed

lemma fold_distinct_commute:
  assumes "mset xs = mset ys" and "distinct (map key xs)"
    and "\<And>a b. key a \<noteq> key b \<Longrightarrow> f a \<circ> f b = f b \<circ> f a"
  shows "fold f xs = fold f ys"
proof -
  have c: "f a \<circ> f b = f b \<circ> f a" if a: "a \<in> set xs" and b: "b \<in> set xs" for a b
  proof (cases "a = b")
    case False
    then have "key a \<noteq> key b"
      using a b assms(2) by (auto dest: inj_onD simp: distinct_map)
    then show ?thesis by (rule assms(3))
  qed simp
  from fold_multiset_equiv [OF c assms(1)] show ?thesis .
qed


lemma sweep_metrics_perm:
  assumes "mset bs' = mset bs" and "distinct (map ID bs)"
  shows "sweep_metrics w ra bs' m = sweep_metrics w ra bs m"
proof -
  have "fold (item_metrics w) (filter (considered ra) bs) = fold (item_metrics w) (filter (considered ra) bs')"
    using assms by (intro fold_distinct_commute [where key = ID]) (simp_all add: distinct_map_filter item_metrics_commute)
  then show ?thesis by (simp add: sweep_metrics_def)
qed

lemma sweep_files_perm:
  assumes "mset bs' = mset bs" and "distinct (map OutputFile bs)"
  shows "fold (item_file w) (filter (considered ra) bs') files = fold (item_file w) (filter (considered ra) bs) files"
proof -
  have "fold (item_file w) (filter (considered ra) bs) = fold (item_file w) (filter (considered ra) bs')"
    using assms by (intro fold_distinct_commute [where key = OutputFile]) (simp_all add: distinct_map_filter item_file_commute)
  then show ?thesis by simp
qed

text \<open>
  C28. A sweep does not depend on the order of the items (the Go map order of the
  configuration's \<^verbatim>\<open>backups\<close>) when their identifiers and output paths are distinct:
  any permutation gives the same metrics, the same files, the same result and, up to
  order, the same items.
\<close>

theorem sweep_order_independent:
  assumes "mset bs' = mset (Backups cfg)"
    and "distinct (map ID (Backups cfg))" and "distinct (map OutputFile (Backups cfg))"
  shows "snd (retrieveUrls w (cfg\<lparr>Backups := bs'\<rparr>) m files ra) = snd (retrieveUrls w cfg m files ra)
         \<and> mset (Backups (fst (retrieveUrls w (cfg\<lparr>Backups := bs'\<rparr>) m files ra))) =
             mset (Backups (fst (retrieveUrls w cfg m files ra)))"
proof -
  have "set bs' = set (Backups cfg)" using assms(1) by (metis set_mset_mset)
  then have "list_all (\<lambda>b. considered ra b \<longrightarrow> fetch_started w b) bs' =
             list_all (\<lambda>b. considered ra b \<longrightarrow> fetch_started w b) (Backups cfg)"
    by (simp add: list_all_iff)
  then show ?thesis
    using sweep_metrics_perm [OF assms(1,2), of w ra m] sweep_files_perm [OF assms(1,3), of w ra files] assms(1)
    by (simp add: retrieveUrls_snd retrieveUrls_backups)
qed

theorem sweep_order_independent_witness:
  "snd (retrieveUrls world_D (config_of [item_bad, item_good]) (NewMetrics ''backuprf'') Map.empty True)
   = snd (retrieveUrls world_D (config_of [item_good, item_bad]) (NewMetrics ''backuprf'') Map.empty True)"
proof -
  have h: "mset [item_bad, item_good] = mset (Backups (config_of [item_good, item_bad]))"
      "distinct (map ID (Backups (config_of [item_good, item_bad])))"
      "distinct (map OutputFile (Backups (config_of [item_good, item_bad])))"
    by (simp_all add: scenario_defs)
  have c: "(config_of [item_good, item_bad])\<lparr>Backups := [item_bad, item_good]\<rparr> = config_of [item_bad, item_good]"
    by (simp add: config_of_def)
  from sweep_order_independent [OF h, of world_D "NewMetrics ''backuprf''" Map.empty True] show ?thesis
    by (simp only: c)
qed

lemma shared_output_order_matters:
  "sw_files (snd (retrieveUrls world_echo (config_of [item_x, item_y]) (NewMetrics ''backuprf'') Map.empty True))
     ''same.out'' = Some ''http://y/''
   \<and> sw_files (snd (retrieveUrls world_echo (config_of [item_y, item_x]) (NewMetrics ''backuprf'') Map.empty True))
     ''same.out'' = Some ''http://x/''"
  by (simp add: retrieveUrls_snd item_file_def backupFile_files considered_def transfer_def
      world_echo_def item_x_def item_y_def scenario_defs)

end
