(* ===== verification/Metrics_Inv.thy ===== *)
theory Metrics_Inv
  imports Scheduler
begin

text \<open>
  The shape of the exported metrics, a well-formedness invariant of the scheduler's
  state: the metrics carry the configured prefix, one \<^verbatim>\<open>build_info\<close> series with value 1,
  a \<^verbatim>\<open>backup_status\<close> series with value 0 or 1 and a \<^verbatim>\<open>backup_failed\<close> series for exactly
  the tracked items, \<^verbatim>\<open>backup_size\<close> and \<^verbatim>\<open>backup_time\<close> series only for tracked items
  and always together, and a positive \<^verbatim>\<open>backup_nb\<close>. \<^verbatim>\<open>NewMetrics\<close> and
  \<^verbatim>\<open>initializeCounters\<close> (\<^verbatim>\<open>src/main.go\<close> lines 38--108) establish the part that
  does not depend on a sweep; the first full sweep completes it; every round of the loop
  keeps it. A series for an identifier that is not configured never appears.
\<close>

definition metrics_ok :: "label set \<Rightarrow> metrics \<Rightarrow> bool" where
  "metrics_ok ids m \<longleftrightarrow> dom (Status m) \<subseteq> ids \<and> ran (Status m) \<subseteq> {0, 1}
     \<and> dom (BackupFailed m) = ids \<and> dom (Size m) \<subseteq> ids \<and> dom (Time m) = dom (Size m)"

definition metrics_wf :: "build_key \<Rightarrow> sched \<Rightarrow> bool" where
  "metrics_wf bk s \<longleftrightarrow>
     (let ids = ID ` set (Backups (cfg s)); m = metric s in
      Namespace m = MetricsPrefix (cfg s) \<and> BuildInfo m = [bk \<mapsto> 1] \<and> 0 < BackupTotal m
      \<and> metrics_ok ids m \<and> dom (Status m) = ids)"

subsection \<open>Lemmas\<close>

lemma ran_gauge_set: "ran (gauge_set g k v) \<subseteq> insert v (ran g)"
  by (auto simp: ran_def gauge_set_def)

lemma item_metrics_ok:
  assumes "metrics_ok ids m" and "ID b \<in> ids"
  shows "metrics_ok ids (item_metrics w b m)"
proof -
  have "ran (Status (item_metrics w b m)) \<subseteq> insert (if item_ok w b then 1 else 0) (ran (Status m))"
    by (simp add: item_metrics_def record_success_def record_failure_def ran_gauge_set)
  then have "ran (Status (item_metrics w b m)) \<subseteq> {0, 1}"
    using assms(1) by (auto simp: metrics_ok_def split: if_splits)
  moreover have "dom (BackupFailed (item_metrics w b m)) = ids"
    using assms by (auto simp: metrics_ok_def item_metrics_def record_success_def record_failure_def)
  ultimately show ?thesis
    using assms by (auto simp: metrics_ok_def item_metrics_def record_success_def record_failure_def)
qed

lemma dom_Status_item_metrics [simp]:
  "dom (Status (item_metrics w b m)) = insert (ID b) (dom (Status m))"
  by (simp add: item_metrics_def record_success_def record_failure_def)

lemma item_metrics_frame [simp]:
  "Namespace (item_metrics w b m) = Namespace m" "BuildInfo (item_metrics w b m) = BuildInfo m"
  by (simp_all add: item_metrics_def record_success_def record_failure_def)

lemma fold_item_metrics_ok:
  "metrics_ok ids m \<Longrightarrow> ID ` set xs \<subseteq> ids \<Longrightarrow>
   metrics_ok ids (fold (item_metrics w) xs m)
   \<and> dom (Status (fold (item_metrics w) xs m)) = dom (Status m) \<union> ID ` set xs
   \<and> Namespace (fold (item_metrics w) xs m) = Namespace m
   \<and> BuildInfo (fold (item_metrics w) xs m) = BuildInfo m"
proof (induction xs arbitrary: m)
  case Nil
  then show ?case by simp
next
  case (Cons x xs)
  have "metrics_ok ids (item_metrics w x m)" using Cons.prems by (simp add: item_metrics_ok)
  then show ?case using Cons.IH [of "item_metrics w x m"] Cons.prems by auto
qed

lemma ID_sweep_flag [simp]: "ID (sweep_flag w ra b) = ID b"
  by (simp add: sweep_flag_def)

lemma sweep_keeps_ids: "ID ` set (Backups (fst (retrieveUrls w c m files ra))) = ID ` set (Backups c)"
  by (simp add: retrieveUrls_backups image_image)

lemma retrieveUrls_prefix [simp]: "MetricsPrefix (fst (retrieveUrls w c m files ra)) = MetricsPrefix c"
  by (simp add: retrieveUrls_def split: prod.splits)

lemma sweep_metrics_ok:
  assumes "metrics_ok (ID ` set (Backups c)) m"
  shows "metrics_ok (ID ` set (Backups c)) (sw_metrics (snd (retrieveUrls w c m files ra)))
    \<and> dom (Status (sw_metrics (snd (retrieveUrls w c m files ra)))) =
        dom (Status m) \<union> ID ` set (filter (considered ra) (Backups c))
    \<and> Namespace (sw_metrics (snd (retrieveUrls w c m files ra))) = Namespace m
    \<and> BuildInfo (sw_metrics (snd (retrieveUrls w c m files ra))) = BuildInfo m
    \<and> 0 < BackupTotal (sw_metrics (snd (retrieveUrls w c m files ra)))"
proof -
  have "ID ` set (filter (considered ra) (Backups c)) \<subseteq> ID ` set (Backups c)" by auto
  note f = fold_item_metrics_ok [OF assms this, of w]
  show ?thesis
    unfolding retrieveUrls_metrics sweep_metrics_def
    using f assms by (auto simp: metrics_ok_def)
qed

lemma metrics_wf_step:
  assumes "metrics_wf bk s" and "loop_step s s'"
  shows "metrics_wf bk s'"
proof -
  from assms(2) obtain t w where s': "s' = on_tick w t s"
    by (auto elim: loop_stepE)
  let ?r = "retrieveUrls w (cfg s) (metric s) (disk s) (t = FullTick)"
  have ids: "ID ` set (Backups (cfg s')) = ID ` set (Backups (cfg s))"
    by (simp add: s' on_tick_parts sweep_keeps_ids)
  have pre: "MetricsPrefix (cfg s') = MetricsPrefix (cfg s)" by (simp add: s' on_tick_parts)
  have ok: "metrics_ok (ID ` set (Backups (cfg s))) (metric s)"
    using assms(1) by (simp add: metrics_wf_def Let_def)
  have "metric s' = sw_metrics (snd ?r)" by (simp add: s' on_tick_parts)
  then show ?thesis
    using sweep_metrics_ok [OF ok, of w "disk s" "t = FullTick"] assms(1) ids pre
    by (auto simp: metrics_wf_def Let_def)
qed

lemma metrics_wf_start:
  assumes "start w c (initializeCounters rt version c (NewMetrics (MetricsPrefix c))) files = Inr s"
  shows "metrics_wf (GOARCH rt, GOOS rt, GoVersion rt, version) s"
proof -
  let ?m0 = "initializeCounters rt version c (NewMetrics (MetricsPrefix c))"
  have pos: "0 < Interval c" "0 < RetryInterval c"
    using assms by (auto simp: start_def NewTicker_def split: if_splits)
  from start_eq [OF pos, of w ?m0 files] assms
  have cs: "cfg s = fst (retrieveUrls w c ?m0 files True)"
    and ms: "metric s = sw_metrics (snd (retrieveUrls w c ?m0 files True))"
    by auto
  have "dom (BackupFailed ?m0) = ID ` set (Backups c)"
    by (auto simp: initializeCounters_def NewMetrics_def init_failed_apply split: if_splits)
  then have ok: "metrics_ok (ID ` set (Backups c)) ?m0"
    by (simp add: metrics_ok_def initializeCounters_def NewMetrics_def)
  have m0: "Namespace ?m0 = MetricsPrefix c" "BuildInfo ?m0 = [(GOARCH rt, GOOS rt, GoVersion rt, version) \<mapsto> 1]"
      "dom (Status ?m0) = {}"
    by (simp_all add: initializeCounters_def NewMetrics_def gauge_set_def)
  have "filter (considered True) (Backups c) = Backups c" by (simp add: considered_def)
  then show ?thesis
    using sweep_metrics_ok [OF ok, of w files True] m0
    by (simp add: metrics_wf_def Let_def cs ms sweep_keeps_ids)
qed


lemma loop_step_cfg:
  "loop_step s s' \<Longrightarrow> MetricsPrefix (cfg s') = MetricsPrefix (cfg s)
     \<and> ID ` set (Backups (cfg s')) = ID ` set (Backups (cfg s))"
proof -
  assume "loop_step s s'"
  then obtain t w where "s' = on_tick w t s" by (auto elim: loop_stepE)
  then show ?thesis by (simp add: on_tick_parts sweep_keeps_ids)
qed

lemma metrics_wf_steps:
  assumes "metrics_wf bk s" and "loop_step\<^sup>*\<^sup>* s s'"
  shows "metrics_wf bk s' \<and> MetricsPrefix (cfg s') = MetricsPrefix (cfg s)
         \<and> ID ` set (Backups (cfg s')) = ID ` set (Backups (cfg s))"
  using assms(2,1)
proof (induction rule: rtranclp_induct)
  case base
  then show ?case by simp
next
  case (step y z)
  then show ?case using metrics_wf_step [of bk y z] loop_step_cfg [of y z] by simp
qed

lemma start_cfg:
  assumes "start w c m files = Inr s"
  shows "MetricsPrefix (cfg s) = MetricsPrefix c \<and> ID ` set (Backups (cfg s)) = ID ` set (Backups c)"
proof -
  have pos: "0 < Interval c" "0 < RetryInterval c"
    using assms by (auto simp: start_def NewTicker_def split: if_splits)
  from start_eq [OF pos, of w m files] assms have "cfg s = fst (retrieveUrls w c m files True)"
    by auto
  then show ?thesis by (simp add: sweep_keeps_ids)
qed

end
