(* ===== verification/Tests.thy ===== *)
theory Tests
  imports Cli Sweep
begin

text \<open>
  The repository's Go test \<^verbatim>\<open>TestRetrieveUrlsSimple\<close> (\<^verbatim>\<open>src/main_test.go\<close>) as a
  model: \<^verbatim>\<open>createConfigFile\<close> (lines 20--50) writes a YAML configuration with one backup
  keyed by the test message, the test starts an HTTP server answering
  \<^verbatim>\<open>fmt.Fprintln(w, wantedMsg)\<close> (lines 53--56), runs \<^verbatim>\<open>config.New\<close> on the command line
  \<^verbatim>\<open>-c <file>\<close>, \<^verbatim>\<open>NewMetrics\<close> and one full \<^verbatim>\<open>retrieveUrls\<close>, and asserts that the
  output file exists, that the sweep succeeded and that the file holds the message and a
  newline (lines 52--101). \<open>createConfigFile\<close> gives the document the YAML text decodes to,
  which is the text's literal content when the key is a plain YAML string
  (\<open>yaml_plain_key\<close>) and the URL can stand between single quotes (\<open>yaml_quotable\<close>);
  the server's URL \<^verbatim>\<open>ts.URL\<close> is a parameter. The file system starts without the output
  file, as the test removes it first.
\<close>

definition createConfigFile :: "string \<Rightarrow> string \<Rightarrow> string \<times> string \<times> (string \<times> yaml) list" where
  "createConfigFile key url =
     (''config.'' @ key @ ''.yaml'', key @ ''.out'',
      [(''backups'', YMap [(key, YMap [(''url'', YStr url), (''username'', YStr ''''),
                                       (''password'', YStr ''''), (''outputFile'', YStr (key @ ''.out''))])]),
       (''interval'', YStr ''1m''), (''retryInterval'', YStr ''10s''), (''metricsPrefix'', YStr ''backuprf'')])"

definition test_server :: "string \<Rightarrow> world" where
  "test_server wantedMsg = serving (HttpResponse 200 (wantedMsg @ [CHR 0x0A]))"

definition TestRetrieveUrlsSimple :: "string \<Rightarrow> string \<Rightarrow> bool" where
  "TestRetrieveUrlsSimple wantedMsg tsURL =
     (case createConfigFile wantedMsg tsURL of
        (configurationFilename, outputFilename, doc) \<Rightarrow>
          (case kong_parse example_time_lib None ''0.0.0'' [''-c'', configurationFilename] of
             KongOk cli \<Rightarrow>
               (case New (CliPort cli)
                       (if ConfigFile cli = configurationFilename then Document doc else ReadError) of
                  Inl _ \<Rightarrow> False
                | Inr cfg \<Rightarrow>
                    (case retrieveUrls (test_server wantedMsg) cfg (NewMetrics (MetricsPrefix cfg)) Map.empty True of
                       (_, r) \<Rightarrow>
                         sw_files r outputFilename \<noteq> None \<and> allRetrievalsSuccess r
                         \<and> sw_files r outputFilename = Some (wantedMsg @ [CHR 0x0A])))
           | _ \<Rightarrow> False))"

definition is_letter :: "char \<Rightarrow> bool" where
  "is_letter c \<longleftrightarrow> (65 \<le> (of_char c :: nat) \<and> of_char c \<le> (90 :: nat))
                  \<or> (97 \<le> (of_char c :: nat) \<and> of_char c \<le> (122 :: nat))"

definition yaml_plain_key :: "string \<Rightarrow> bool" where
  "yaml_plain_key k \<longleftrightarrow> k \<noteq> [] \<and> is_letter (hd k) \<and> list_all (\<lambda>c. is_letter c \<or> digit_char c) k
     \<and> k \<notin> {''true'', ''True'', ''TRUE'', ''false'', ''False'', ''FALSE'', ''null'', ''Null'', ''NULL''}"

definition yaml_quotable :: "string \<Rightarrow> bool" where
  "yaml_quotable u \<longleftrightarrow> CHR 0x27 \<notin> set u \<and> CHR 0x0A \<notin> set u"

subsection \<open>The test passes\<close>

lemma createConfigFile_test_document:
  "createConfigFile ''voh0ahch3E'' ''http://127.0.0.1:8080/'' =
     (''config.voh0ahch3E.yaml'', ''voh0ahch3E.out'', test_document)"
  by (simp add: createConfigFile_def test_document_def)

text \<open>
  C6. The repository's test passes on the model, for every message that can serve as a
  plain YAML key and every server URL: the configuration it writes loads, the full sweep
  fetches the server's answer into \<^verbatim>\<open><message>.out\<close> and reports success.
\<close>

theorem TestRetrieveUrlsSimple_passes:
  assumes "yaml_plain_key wantedMsg" and "yaml_quotable tsURL"
  shows "TestRetrieveUrlsSimple wantedMsg tsURL"
  by (simp add: TestRetrieveUrlsSimple_def createConfigFile_def kong_parse_def classify_def
      is_flag_token_def no_flags_def config_code sweep_code test_server_def scenario_defs
      transfer_def)

theorem TestRetrieveUrlsSimple_passes_witness:
  "yaml_plain_key ''voh0ahch3E'' \<and> yaml_quotable ''http://127.0.0.1:8080''
   \<and> TestRetrieveUrlsSimple ''voh0ahch3E'' ''http://127.0.0.1:8080''"
proof -
  have h: "yaml_plain_key ''voh0ahch3E''" "yaml_quotable ''http://127.0.0.1:8080''"
    by (simp_all add: yaml_plain_key_def is_letter_def digit_char_def yaml_quotable_def)
  with TestRetrieveUrlsSimple_passes [OF h] show ?thesis by simp
qed

end
