(* ===== verification/Exposition.thy ===== *)
theory Exposition
  imports Metrics Fetch Cli "HOL-Library.Char_ord" "HOL-Library.List_Lexorder" "HOL-Library.Product_Lexorder"
begin

text \<open>
  What the exporter serves on \<^verbatim>\<open>/metrics\<close>. \<^verbatim>\<open>main\<close> registers the six collectors of
  \<^verbatim>\<open>NewMetrics\<close> (\<^verbatim>\<open>src/main.go\<close> lines 38--94) in a private registry and installs
  \<^verbatim>\<open>promhttp.HandlerFor(reg, promhttp.HandlerOpts{Registry: reg})\<close> (line 237). The
  handler and the text encoder are library code (client_golang's \<^verbatim>\<open>promhttp\<close> and
  \<^verbatim>\<open>Registry.Gather\<close>, prometheus/common's \<^verbatim>\<open>expfmt\<close> text format 0.0.4), modelled
  from their documented behaviour:
  \<^item> because \<^verbatim>\<open>HandlerOpts.Registry\<close> is set, the handler registers its own counter vector
    \<^verbatim>\<open>promhttp_metric_handler_errors_total{cause}\<close> in the same registry and creates its
    two children \<^verbatim>\<open>encoding\<close> and \<^verbatim>\<open>gathering\<close> at 0 (\<open>handler_errors_family\<close>);
  \<^item> \<^verbatim>\<open>Gather\<close> drops the families without series and sorts the families by name and the
    series of a family by their label values (\<open>gather\<close>);
  \<^item> the encoder writes per family a \<^verbatim>\<open># HELP\<close> and a \<^verbatim>\<open># TYPE\<close> line and one line per
    series, \<open>name{label="value",...} value\<close>, escaping backslash, double quote and newline
    in label values and backslash and newline in help texts (\<open>write_family\<close>);
  \<^item> a value is the \<^verbatim>\<open>float64\<close> of the Go integer, printed by \<^verbatim>\<open>writeFloat\<close>: \<^verbatim>\<open>1\<close>,
    \<^verbatim>\<open>0\<close> and \<^verbatim>\<open>-1\<close> literally, otherwise \<^verbatim>\<open>strconv.FormatFloat(f, 'g', -1, 64)\<close>, the
    shortest digits, in exponent form from \<open>10^6\<close> on (\<open>writeFloat\<close>). The digits are those
    of the integer, which is exact for integers below \<open>2^53\<close>.
  The exposition is the body served to a request that asks for neither the protobuf nor the
  OpenMetrics format nor compression. The reading side, \<open>scrape\<close>, parses sample lines of
  the text format back into a map from a series (name and label pairs) to its value, and
  \<open>series\<close> says which series the metrics state should show.
\<close>

subsection \<open>The registry's families\<close>

datatype metric_type = GAUGE | COUNTER

record family =
  fam_name :: string
  fam_help :: string
  fam_type :: metric_type
  fam_samples :: "((string \<times> string) list \<times> int) list"

definition BuildFQName :: "string \<Rightarrow> string \<Rightarrow> string" where
  "BuildFQName namespace name = (if namespace = [] then name else namespace @ ''_'' @ name)"

definition children :: "('k::linorder \<Rightarrow> (string \<times> string) list) \<Rightarrow> ('k \<rightharpoonup> int)
                        \<Rightarrow> ((string \<times> string) list \<times> int) list" where
  "children lbl g = map (\<lambda>k. (lbl k, the (g k))) (sorted_list_of_set (dom g))"

definition id_labels :: "label \<Rightarrow> (string \<times> string) list" where
  "id_labels i = [(''id'', i)]"

definition build_labels :: "build_key \<Rightarrow> (string \<times> string) list" where
  "build_labels k = (case k of (a, os, gv, v) \<Rightarrow>
     [(''goarch'', a), (''goos'', os), (''goversion'', gv), (''version'', v)])"

definition metric_families :: "metrics \<Rightarrow> family list" where
  "metric_families m =
     (let fq = BuildFQName (Namespace m) in
      [\<lparr>fam_name = fq ''build_info'', fam_help = ''Build information'', fam_type = GAUGE,
        fam_samples = children build_labels (BuildInfo m)\<rparr>,
       \<lparr>fam_name = fq ''backup_status'', fam_help = ''Status of latest backup'', fam_type = GAUGE,
        fam_samples = children id_labels (Status m)\<rparr>,
       \<lparr>fam_name = fq ''backup_size'', fam_help = ''Status of latest backup'', fam_type = GAUGE,
        fam_samples = children id_labels (Size m)\<rparr>,
       \<lparr>fam_name = fq ''backup_time'', fam_help = ''Timestamp of latest backup'', fam_type = GAUGE,
        fam_samples = children id_labels (Time m)\<rparr>,
       \<lparr>fam_name = fq ''backup_failed'', fam_help = ''Number of failed backups'', fam_type = COUNTER,
        fam_samples = children id_labels (map_option int \<circ> BackupFailed m)\<rparr>,
       \<lparr>fam_name = fq ''backup_nb'', fam_help = ''Number of retreivals'', fam_type = COUNTER,
        fam_samples = [([], int (BackupTotal m))]\<rparr>])"

definition handler_errors_family :: family where
  "handler_errors_family =
     \<lparr>fam_name = ''promhttp_metric_handler_errors_total'',
      fam_help = ''Total number of internal errors encountered by the promhttp metric handler.'',
      fam_type = COUNTER,
      fam_samples = [([(''cause'', ''encoding'')], 0), ([(''cause'', ''gathering'')], 0)]\<rparr>"

definition registry_families :: "metrics \<Rightarrow> family list" where
  "registry_families m = metric_families m @ [handler_errors_family]"

definition gather :: "family list \<Rightarrow> family list" where
  "gather fams = sort_key fam_name (filter (\<lambda>f. fam_samples f \<noteq> []) fams)"

subsection \<open>The text encoder\<close>

abbreviation nl :: char where "nl \<equiv> CHR 0x0A"
abbreviation bslash :: char where "bslash \<equiv> CHR 0x5C"
abbreviation dquote :: char where "dquote \<equiv> CHR 0x22"

fun escape_label :: "string \<Rightarrow> string" where
  "escape_label [] = []"
| "escape_label (c # cs) =
     (if c = bslash then [bslash, bslash]
      else if c = dquote then [bslash, dquote]
      else if c = nl then [bslash, CHR ''n''] else [c]) @ escape_label cs"

fun escape_help :: "string \<Rightarrow> string" where
  "escape_help [] = []"
| "escape_help (c # cs) =
     (if c = bslash then [bslash, bslash] else if c = nl then [bslash, CHR ''n''] else [c])
     @ escape_help cs"

definition strip_trailing_zeros :: "string \<Rightarrow> string" where
  "strip_trailing_zeros ds = rev (dropWhile (\<lambda>c. c = CHR ''0'') (rev ds))"

definition exp_digits :: "nat \<Rightarrow> string" where
  "exp_digits e = (if e < 10 then CHR ''0'' # nat_digits e else nat_digits e)"

definition format_g :: "nat \<Rightarrow> string" where
  "format_g n =
     (let ds = nat_digits n; d = strip_trailing_zeros ds; e = length ds - 1 in
      if e < 6 then ds
      else hd d # (if 1 < length d then CHR ''.'' # List.tl d else []) @ ''e+'' @ exp_digits e)"

definition writeFloat :: "int \<Rightarrow> string" where
  "writeFloat v =
     (if v = 1 then ''1'' else if v = 0 then ''0'' else if v = -1 then ''-1''
      else if v < 0 then CHR ''-'' # format_g (nat (- v)) else format_g (nat v))"

definition label_pair :: "string \<times> string \<Rightarrow> string" where
  "label_pair p = (case p of (n, v) \<Rightarrow> n @ CHR ''='' # dquote # escape_label v @ [dquote])"

fun join_pairs :: "(string \<times> string) list \<Rightarrow> string" where
  "join_pairs [] = []"
| "join_pairs [p] = label_pair p"
| "join_pairs (p # ps) = label_pair p @ '','' @ join_pairs ps"

definition sample_text :: "string \<Rightarrow> (string \<times> string) list \<times> int \<Rightarrow> string" where
  "sample_text name s = (case s of (ls, v) \<Rightarrow>
     name @ (if ls = [] then [] else CHR ''{'' # join_pairs ls @ ''}'') @ CHR '' '' # writeFloat v)"

definition type_name :: "metric_type \<Rightarrow> string" where
  "type_name t = (case t of GAUGE \<Rightarrow> ''gauge'' | COUNTER \<Rightarrow> ''counter'')"

definition family_lines :: "family \<Rightarrow> string list" where
  "family_lines f =
     (''# HELP '' @ fam_name f @ CHR '' '' # escape_help (fam_help f))
     # (''# TYPE '' @ fam_name f @ CHR '' '' # type_name (fam_type f))
     # map (sample_text (fam_name f)) (fam_samples f)"

definition write_family :: "family \<Rightarrow> string" where
  "write_family f = concat (map (\<lambda>l. l @ [nl]) (family_lines f))"

definition exposition :: "metrics \<Rightarrow> string" where
  "exposition m = concat (map write_family (gather (registry_families m)))"

definition metrics_handler :: "metrics \<Rightarrow> http_result" where
  "metrics_handler m = HttpResponse 200 (exposition m)"

definition example_metrics :: metrics where
  "example_metrics = (NewMetrics ''backuprf'')\<lparr>Status := [''a'' \<mapsto> 1], BackupFailed := [''a'' \<mapsto> 0], BackupTotal := 1\<rparr>"

subsection \<open>Reading the text format\<close>

text \<open>
  The reading side follows the text format's grammar: a sample line is a metric name,
  optionally label pairs in braces with the three escapes, a space and a value; comment
  lines start with \<^verbatim>\<open>#\<close>. Values are read as integers, in any decimal notation
  with an optional fraction and exponent that denotes one.
\<close>

definition is_digit :: "char \<Rightarrow> bool" where
  "is_digit c \<longleftrightarrow> 48 \<le> (of_char c :: nat) \<and> of_char c \<le> (57 :: nat)"

definition is_label_start :: "char \<Rightarrow> bool" where
  "is_label_start c \<longleftrightarrow>
     (97 \<le> (of_char c :: nat) \<and> of_char c \<le> (122 :: nat))
     \<or> (65 \<le> (of_char c :: nat) \<and> of_char c \<le> (90 :: nat)) \<or> c = CHR ''_''"

definition is_name_start :: "char \<Rightarrow> bool" where
  "is_name_start c \<longleftrightarrow> is_label_start c \<or> c = CHR '':''"

definition is_name_char :: "char \<Rightarrow> bool" where
  "is_name_char c \<longleftrightarrow> is_name_start c \<or> is_digit c"

definition is_label_char :: "char \<Rightarrow> bool" where
  "is_label_char c \<longleftrightarrow> is_label_start c \<or> is_digit c"

definition valid_name :: "string \<Rightarrow> bool" where
  "valid_name s \<longleftrightarrow> s \<noteq> [] \<and> is_name_start (hd s) \<and> list_all is_name_char s"

definition valid_label_name :: "string \<Rightarrow> bool" where
  "valid_label_name s \<longleftrightarrow> s \<noteq> [] \<and> is_label_start (hd s) \<and> list_all is_label_char s"

definition valid_prefix :: "string \<Rightarrow> bool" where
  "valid_prefix ns \<longleftrightarrow> ns = [] \<or> valid_name ns"

fun split_nl :: "string \<Rightarrow> string \<Rightarrow> string list" where
  "split_nl acc [] = (if acc = [] then [] else [acc])"
| "split_nl acc (c # cs) = (if c = nl then acc # split_nl [] cs else split_nl (acc @ [c]) cs)"

definition lines_of :: "string \<Rightarrow> string list" where
  "lines_of s = split_nl [] s"

fun read_quoted :: "string \<Rightarrow> (string \<times> string) option" where
  "read_quoted [] = None"
| "read_quoted [c] = (if c = dquote then Some ([], []) else None)"
| "read_quoted (c # d # cs) =
     (if c = dquote then Some ([], d # cs)
      else if c = bslash then
        (if d = bslash \<or> d = dquote \<or> d = CHR ''n'' then
           (case read_quoted cs of
              None \<Rightarrow> None
            | Some (v, r) \<Rightarrow> Some ((if d = CHR ''n'' then nl else d) # v, r))
         else None)
      else (case read_quoted (d # cs) of
              None \<Rightarrow> None
            | Some (v, r) \<Rightarrow> Some (c # v, r)))"

function read_pairs :: "string \<Rightarrow> ((string \<times> string) list \<times> string) option" where
  "read_pairs s =
     (let n = takeWhile is_label_char s; r = dropWhile is_label_char s in
      if n = [] \<or> \<not> is_label_start (hd n) then None
      else (case r of
              c # q # r1 \<Rightarrow>
                if c = CHR ''='' \<and> q = dquote then
                  (case read_quoted r1 of
                     None \<Rightarrow> None
                   | Some (v, r2) \<Rightarrow>
                       (case r2 of
                          d # r3 \<Rightarrow>
                            if d = CHR ''}'' then Some ([(n, v)], r3)
                            else if d = CHR '','' then
                              map_option (\<lambda>(ps, r4). ((n, v) # ps, r4)) (read_pairs r3)
                            else None
                        | [] \<Rightarrow> None))
                else None
            | _ \<Rightarrow> None))"
  by pat_completeness auto
termination
proof (relation "measure length", goal_cases)
  case 1
  show ?case by simp
next
  case (2 s n r c x q r1 y v r2 d r3)
  have len_q: "read_quoted s = Some (v, r) \<Longrightarrow> length r < length s" for s v r
    by (induction s arbitrary: v r rule: read_quoted.induct)
       (fastforce split: if_splits option.splits)+
  from 2 have "dropWhile is_label_char s = c # q # r1" and "read_quoted r1 = Some (v, d # r3)"
    by simp_all
  then have "length (dropWhile is_label_char s) = Suc (Suc (length r1))"
    and "length r3 < length r1"
    using len_q [of r1 v "d # r3"] by simp_all
  then show ?case
    using length_dropWhile_le [of is_label_char s] by simp
qed

definition read_labels :: "string \<Rightarrow> ((string \<times> string) list \<times> string) option" where
  "read_labels r = (case r of c # r1 \<Rightarrow> if c = CHR ''{'' then read_pairs r1 else Some ([], r)
                            | [] \<Rightarrow> Some ([], []))"

definition read_exp :: "string \<Rightarrow> int option" where
  "read_exp s =
     (case s of
        [] \<Rightarrow> Some 0
      | c # r \<Rightarrow>
          (case r of
             sg # ds \<Rightarrow>
               if (c = CHR ''e'' \<or> c = CHR ''E'') \<and> (sg = CHR ''+'' \<or> sg = CHR ''-'')
                  \<and> ds \<noteq> [] \<and> list_all is_digit ds
               then Some ((if sg = CHR ''-'' then -1 else 1) * int (digits_in_base 10 ds))
               else None
           | [] \<Rightarrow> None))"

definition parse_unsigned :: "string \<Rightarrow> int option" where
  "parse_unsigned s =
     (let ip = takeWhile is_digit s; r1 = dropWhile is_digit s;
          (fp, r2) = (case r1 of
                        c # r \<Rightarrow> if c = CHR ''.'' then (takeWhile is_digit r, dropWhile is_digit r)
                                 else ([], r1)
                      | [] \<Rightarrow> ([], []));
          mant = int (digits_in_base 10 (ip @ fp)); lf = int (length fp)
      in if ip = [] then None
         else (case read_exp r2 of
                 None \<Rightarrow> None
               | Some e \<Rightarrow>
                   if lf \<le> e then Some (mant * 10 ^ nat (e - lf))
                   else if mant mod 10 ^ nat (lf - e) = 0 then Some (mant div 10 ^ nat (lf - e))
                   else None))"

definition parse_value :: "string \<Rightarrow> int option" where
  "parse_value s =
     (case s of
        c # r \<Rightarrow> if c = CHR ''-'' then map_option uminus (parse_unsigned r)
                 else if c = CHR ''+'' then parse_unsigned r else parse_unsigned s
      | [] \<Rightarrow> None)"

definition parse_sample :: "string \<Rightarrow> ((string \<times> (string \<times> string) list) \<times> int) option" where
  "parse_sample l =
     (let name = takeWhile is_name_char l; r = dropWhile is_name_char l in
      if name = [] \<or> \<not> is_name_start (hd name) then None
      else (case read_labels r of
              None \<Rightarrow> None
            | Some (ls, r') \<Rightarrow>
                (case r' of
                   c # v \<Rightarrow> if c = CHR '' '' then map_option (\<lambda>x. ((name, ls), x)) (parse_value v)
                            else None
                 | [] \<Rightarrow> None)))"

definition scrape :: "string \<Rightarrow> (string \<times> (string \<times> string) list) \<rightharpoonup> int" where
  "scrape body = map_of (List.map_filter parse_sample (lines_of body))"

subsection \<open>What a scrape should show\<close>

definition id_series :: "(label \<rightharpoonup> int) \<Rightarrow> (string \<times> string) list \<Rightarrow> int option" where
  "id_series g ls = (case ls of [(l, i)] \<Rightarrow> if l = ''id'' then g i else None | _ \<Rightarrow> None)"

definition build_series :: "(build_key \<rightharpoonup> int) \<Rightarrow> (string \<times> string) list \<Rightarrow> int option" where
  "build_series g ls =
     (case ls of
        [(l1, a), (l2, os), (l3, gv), (l4, v)] \<Rightarrow>
          if l1 = ''goarch'' \<and> l2 = ''goos'' \<and> l3 = ''goversion'' \<and> l4 = ''version''
          then g (a, os, gv, v) else None
      | _ \<Rightarrow> None)"

definition series :: "metrics \<Rightarrow> string \<times> (string \<times> string) list \<Rightarrow> int option" where
  "series m = (\<lambda>(n, ls).
     if n = BuildFQName (Namespace m) ''build_info'' then build_series (BuildInfo m) ls
     else if n = BuildFQName (Namespace m) ''backup_status'' then id_series (Status m) ls
     else if n = BuildFQName (Namespace m) ''backup_size'' then id_series (Size m) ls
     else if n = BuildFQName (Namespace m) ''backup_time'' then id_series (Time m) ls
     else if n = BuildFQName (Namespace m) ''backup_failed''
       then id_series (map_option int \<circ> BackupFailed m) ls
     else if n = BuildFQName (Namespace m) ''backup_nb''
       then (if ls = [] then Some (int (BackupTotal m)) else None)
     else if n = ''promhttp_metric_handler_errors_total''
       then (if ls = [(''cause'', ''encoding'')] \<or> ls = [(''cause'', ''gathering'')] then Some 0 else None)
     else None)"

definition fam_entries :: "family \<Rightarrow> ((string \<times> (string \<times> string) list) \<times> int) list" where
  "fam_entries f = map (\<lambda>(ls, v). ((fam_name f, ls), v)) (fam_samples f)"

definition valid_family :: "family \<Rightarrow> bool" where
  "valid_family f \<longleftrightarrow> valid_name (fam_name f)
     \<and> (\<forall>s \<in> set (fam_samples f). list_all (valid_label_name \<circ> fst) (fst s))"

definition finite_metrics :: "metrics \<Rightarrow> bool" where
  "finite_metrics m \<longleftrightarrow> finite (dom (BuildInfo m)) \<and> finite (dom (Status m)) \<and> finite (dom (Size m))
     \<and> finite (dom (Time m)) \<and> finite (dom (BackupFailed m))"

subsection \<open>The encoder's inverse\<close>

text \<open>
  The reading side inverts the writing side: an escaped label value is read back up to
  its closing quote, \<open>writeFloat\<close> is read back as the integer (\<open>parse_value_writeFloat\<close>),
  a sample line as its name, label pairs and value (\<open>parse_sample_text\<close>), and the
  served text of any list of well-named families with distinct names, sorted and filtered by
  \<open>gather\<close>, as the map of their samples (\<open>scrape_gather\<close>). For the registry of
  \<^verbatim>\<open>main\<close> that map is \<open>series\<close> (\<open>scrape_exposition\<close>).
\<close>

lemmas writeFloat_code = writeFloat_def format_g_def nat_digits.simps strip_trailing_zeros_def
  exp_digits_def char_of_def bit_0

lemma read_quoted_Cons:
  "read_quoted (c # cs) =
     (if c = dquote then Some ([], cs)
      else if c = bslash then
        (case cs of
           [] \<Rightarrow> None
         | d # ds \<Rightarrow>
             if d = bslash \<or> d = dquote \<or> d = CHR ''n'' then
               (case read_quoted ds of
                  None \<Rightarrow> None
                | Some (v, r) \<Rightarrow> Some ((if d = CHR ''n'' then nl else d) # v, r))
             else None)
      else (case read_quoted cs of None \<Rightarrow> None | Some (v, r) \<Rightarrow> Some (c # v, r)))"
  by (cases cs) simp_all

lemma read_quoted_escape: "read_quoted (escape_label v @ dquote # r) = Some (v, r)"
  by (induction v) (simp_all add: read_quoted_Cons del: read_quoted.simps)

lemma is_digit_nat_digits: "list_all is_digit (nat_digits n)"
  using nat_digits_props [of n] by (simp add: list_all_iff is_digit_def)

lemma not_digit [simp]:
  "\<not> is_digit CHR ''.''" "\<not> is_digit CHR ''e''" "\<not> is_digit CHR ''+''" "\<not> is_digit CHR ''-''"
  "\<not> is_digit nl" "\<not> is_digit dquote"
  by (simp_all add: is_digit_def)

lemma digits_in_base_append:
  "digits_in_base 10 (xs @ ys) = digits_in_base 10 xs * 10 ^ length ys + digits_in_base 10 ys"
proof (induction ys rule: rev_induct)
  case Nil
  then show ?case by (simp add: digits_in_base_def)
next
  case (snoc y ys)
  then show ?case by (simp only: append_assoc [symmetric] digits_in_base_snoc) (simp add: algebra_simps)
qed

lemma digits_in_base_zeros:
  "digits_in_base 10 (d @ replicate k (CHR ''0'')) = digits_in_base 10 d * 10 ^ k"
proof -
  have "digits_in_base 10 (replicate k (CHR ''0'')) = 0"
    by (induction k) (simp_all add: digits_in_base_def char_val_def)
  then show ?thesis by (simp add: digits_in_base_append)
qed

lemma digits_in_base_lead_zero: "digits_in_base 10 (CHR ''0'' # ds) = digits_in_base 10 ds"
  by (simp add: digits_in_base_def char_val_def)

lemma strip_trailing_zeros_split:
  "ds = strip_trailing_zeros ds @ replicate (length ds - length (strip_trailing_zeros ds)) (CHR ''0'')"
proof -
  let ?P = "\<lambda>c. c = CHR ''0''"
  let ?t = "takeWhile ?P (rev ds)"
  have r: "rev ds = ?t @ dropWhile ?P (rev ds)" by simp
  have "replicate (length ?t) (CHR ''0'') = ?t"
    by (rule replicate_length_same) (auto dest: set_takeWhileD)
  then have t: "rev ?t = replicate (length ?t) (CHR ''0'')" by (metis rev_replicate)
  have "ds = rev (dropWhile ?P (rev ds)) @ rev ?t"
    by (metis r rev_append rev_rev_ident)
  moreover have "length ds = length (rev (dropWhile ?P (rev ds))) + length ?t"
    by (metis length_append length_rev takeWhile_dropWhile_id add.commute)
  ultimately show ?thesis unfolding strip_trailing_zeros_def t by simp
qed

lemma strip_trailing_zeros_hd:
  assumes "ds \<noteq> []" and "hd ds \<noteq> CHR ''0''"
  shows "strip_trailing_zeros ds \<noteq> [] \<and> hd (strip_trailing_zeros ds) = hd ds"
proof -
  let ?d = "strip_trailing_zeros ds"
  obtain k where ds: "ds = ?d @ replicate k (CHR ''0'')"
    using strip_trailing_zeros_split by blast
  have "?d \<noteq> []"
  proof
    assume "?d = []"
    with ds assms show False by (cases k) simp_all
  qed
  then show ?thesis using ds by (metis hd_append2)
qed

lemma strip_trailing_zeros_set: "set (strip_trailing_zeros ds) \<subseteq> set ds"
  by (metis Un_upper1 set_append strip_trailing_zeros_split)

lemma read_exp_digits: "read_exp (CHR ''e'' # CHR ''+'' # exp_digits e) = Some (int e)"
proof -
  have "exp_digits e \<noteq> [] \<and> list_all is_digit (exp_digits e) \<and> digits_in_base 10 (exp_digits e) = e"
    using nat_digits_props [of e] is_digit_nat_digits [of e]
    by (simp add: exp_digits_def digits_in_base_lead_zero is_digit_def)
  then show ?thesis by (simp add: read_exp_def)
qed

lemma parse_unsigned_digits:
  "ds \<noteq> [] \<Longrightarrow> list_all is_digit ds \<Longrightarrow> parse_unsigned ds = Some (int (digits_in_base 10 ds))"
  by (simp add: parse_unsigned_def takeWhile_all dropWhile_all read_exp_def)

lemma parse_unsigned_exp:
  assumes "is_digit h" and "list_all is_digit t" and "length t \<le> e"
  shows "parse_unsigned (h # (if 0 < length t then CHR ''.'' # t else []) @ CHR ''e'' # CHR ''+'' # exp_digits e)
         = Some (int (digits_in_base 10 (h # t)) * 10 ^ (e - length t))"
proof -
  have tw: "takeWhile is_digit (t @ CHR ''e'' # CHR ''+'' # exp_digits e) = t"
    and dw: "dropWhile is_digit (t @ CHR ''e'' # CHR ''+'' # exp_digits e) = CHR ''e'' # CHR ''+'' # exp_digits e"
    using assms(2) by (simp_all add: takeWhile_append2 dropWhile_append2 list_all_iff)
  have n: "nat (int e - int (length t)) = e - length t" using assms(3) by simp
  show ?thesis
    using assms tw dw read_exp_digits [of e] n
    by (cases t) (simp_all add: parse_unsigned_def)
qed

lemma parse_unsigned_format_g: "parse_unsigned (format_g n) = Some (int n)"
proof -
  define ds where "ds = nat_digits n"
  define d where "d = strip_trailing_zeros ds"
  have ds: "ds \<noteq> []" "list_all is_digit ds" "digits_in_base 10 ds = n"
    using nat_digits_props [of n] is_digit_nat_digits [of n] unfolding ds_def by simp_all
  show ?thesis
  proof (cases "length ds - 1 < 6")
    case True
    then show ?thesis
      using ds by (simp add: format_g_def Let_def ds_def [symmetric] parse_unsigned_digits)
  next
    case False
    have "n \<noteq> 0"
    proof
      assume "n = 0"
      then have "ds = [CHR ''0'']" by (simp add: ds_def nat_digits.simps char_of_48)
      with False show False by simp
    qed
    then have h0: "hd ds \<noteq> CHR ''0''" using nat_digits_hd [of n] by (simp add: ds_def)
    then obtain h t where dht: "d = h # t" and hd: "hd ds = h"
      using strip_trailing_zeros_hd [OF ds(1)] unfolding d_def by (cases "strip_trailing_zeros ds") auto
    define k where "k = length ds - length d"
    have split: "ds = d @ replicate k (CHR ''0'')"
      unfolding d_def k_def by (rule strip_trailing_zeros_split)
    have digs: "is_digit h" "list_all is_digit t"
      using ds(2) strip_trailing_zeros_set [of ds] unfolding d_def [symmetric] dht
      by (auto simp: list_all_iff)
    have len: "length t \<le> length ds - 1" "length ds - 1 - length t = k"
      using arg_cong [OF split, of length] dht unfolding k_def by simp_all
    have fmt: "format_g n = h # (if 0 < length t then CHR ''.'' # t else [])
                 @ CHR ''e'' # CHR ''+'' # exp_digits (length ds - 1)"
      using False dht unfolding format_g_def Let_def ds_def [symmetric] d_def [symmetric] by simp
    have "n = digits_in_base 10 (h # t) * 10 ^ k"
      using ds(3) split dht digits_in_base_zeros [of d k] by simp
    then show ?thesis
      unfolding fmt parse_unsigned_exp [OF digs len(1)] len(2) by simp
  qed
qed

lemma format_g_hd: "format_g n \<noteq> [] \<and> is_digit (hd (format_g n))"
proof (cases "n = 0")
  case True
  then show ?thesis by (simp add: format_g_def nat_digits.simps char_of_48 is_digit_def)
next
  case False
  have ds: "nat_digits n \<noteq> []" "list_all is_digit (nat_digits n)"
    using nat_digits_props [of n] is_digit_nat_digits [of n] by simp_all
  have st: "strip_trailing_zeros (nat_digits n) \<noteq> []
            \<and> hd (strip_trailing_zeros (nat_digits n)) = hd (nat_digits n)"
    using strip_trailing_zeros_hd [OF ds(1)] nat_digits_hd [of n] False by simp
  have "format_g n \<noteq> [] \<and> hd (format_g n) = hd (nat_digits n)"
    using ds(1) st by (simp add: format_g_def Let_def)
  moreover have "is_digit (hd (nat_digits n))"
    using ds by (cases "nat_digits n") simp_all
  ultimately show ?thesis by simp
qed

lemma parse_value_writeFloat: "parse_value (writeFloat v) = Some v"
proof -
  have pos: "parse_value (format_g k) = parse_unsigned (format_g k)" for k
    using format_g_hd [of k] by (cases "format_g k") (auto simp: parse_value_def)
  show ?thesis
  proof (cases "v < 0")
    case True
    then show ?thesis
      using parse_unsigned_format_g [of "nat (- v)"]
      by (auto simp: writeFloat_def parse_value_def parse_unsigned_digits read_exp_def
               digits_in_base_def char_val_def is_digit_def)
  next
    case False
    then show ?thesis
      using parse_unsigned_format_g [of "nat v"] pos [of "nat v"]
      by (auto simp: writeFloat_def parse_value_def parse_unsigned_digits
               digits_in_base_def char_val_def is_digit_def)
  qed
qed

lemma split_nl_line: "nl \<notin> set l \<Longrightarrow> split_nl acc (l @ nl # rest) = (acc @ l) # split_nl [] rest"
  by (induction l arbitrary: acc) auto

lemma lines_of_concat:
  "\<forall>l \<in> set ls. nl \<notin> set l \<Longrightarrow> lines_of (concat (map (\<lambda>l. l @ [nl]) ls)) = ls"
  by (induction ls) (simp_all add: lines_of_def split_nl_line)

lemma not_name_char [simp]:
  "\<not> is_label_char CHR ''=''" "\<not> is_name_char CHR ''{''" "\<not> is_name_char CHR '' ''"
  "\<not> is_name_char CHR ''#''" "\<not> is_name_char nl" "\<not> is_label_char nl"
  by (simp_all add: is_label_char_def is_name_char_def is_name_start_def is_label_start_def is_digit_def)

lemma read_pairs_join:
  "ls \<noteq> [] \<Longrightarrow> list_all (valid_label_name \<circ> fst) ls
   \<Longrightarrow> read_pairs (join_pairs ls @ CHR ''}'' # r) = Some (ls, r)"
proof (induction ls rule: join_pairs.induct)
  case 1
  then show ?case by simp
next
  case (2 p)
  obtain n v where p: "p = (n, v)" by fastforce
  have n: "valid_label_name n" using 2 p by simp
  then have "takeWhile is_label_char (n @ CHR ''='' # dquote # escape_label v @ dquote # CHR ''}'' # r) = n
             \<and> dropWhile is_label_char (n @ CHR ''='' # dquote # escape_label v @ dquote # CHR ''}'' # r)
               = CHR ''='' # dquote # escape_label v @ dquote # CHR ''}'' # r"
    by (intro takeWhile_dropWhile_stop) (simp_all add: valid_label_name_def)
  then show ?case
    using n p by (subst read_pairs.simps) (simp add: label_pair_def read_quoted_escape valid_label_name_def)
next
  case (3 p q ps)
  obtain n v where p: "p = (n, v)" by fastforce
  have n: "valid_label_name n" using 3 p by simp
  have ih: "read_pairs (join_pairs (q # ps) @ CHR ''}'' # r) = Some (q # ps, r)"
    using 3 by simp
  let ?rest = "escape_label v @ dquote # CHR '','' # join_pairs (q # ps) @ CHR ''}'' # r"
  have "takeWhile is_label_char (n @ CHR ''='' # dquote # ?rest) = n
        \<and> dropWhile is_label_char (n @ CHR ''='' # dquote # ?rest) = CHR ''='' # dquote # ?rest"
    using n by (intro takeWhile_dropWhile_stop) (simp_all add: valid_label_name_def)
  then show ?case
    using n p ih
    by (subst read_pairs.simps) (simp add: label_pair_def read_quoted_escape valid_label_name_def)
qed

lemma parse_sample_text:
  assumes "valid_name n" and "list_all (valid_label_name \<circ> fst) ls"
  shows "parse_sample (sample_text n (ls, v)) = Some ((n, ls), v)"
proof (cases "ls = []")
  case True
  have "takeWhile is_name_char (n @ CHR '' '' # writeFloat v) = n
        \<and> dropWhile is_name_char (n @ CHR '' '' # writeFloat v) = CHR '' '' # writeFloat v"
    using assms(1) by (intro takeWhile_dropWhile_stop) (simp_all add: valid_name_def)
  then show ?thesis
    using True assms(1)
    by (simp add: sample_text_def parse_sample_def read_labels_def parse_value_writeFloat valid_name_def)
next
  case False
  let ?rest = "join_pairs ls @ CHR ''}'' # CHR '' '' # writeFloat v"
  have "takeWhile is_name_char (n @ CHR ''{'' # ?rest) = n
        \<and> dropWhile is_name_char (n @ CHR ''{'' # ?rest) = CHR ''{'' # ?rest"
    using assms(1) by (intro takeWhile_dropWhile_stop) (simp_all add: valid_name_def)
  then show ?thesis
    using False assms read_pairs_join [OF False assms(2), of "CHR '' '' # writeFloat v"]
    by (simp add: sample_text_def parse_sample_def read_labels_def parse_value_writeFloat valid_name_def)
qed

lemma parse_sample_comment: "parse_sample (CHR ''#'' # r) = None"
  by (simp add: parse_sample_def)

lemma nl_escape_label: "nl \<notin> set (escape_label v)"
  by (induction v) auto

lemma nl_escape_help: "nl \<notin> set (escape_help v)"
  by (induction v) auto

lemma format_g_chars: "\<forall>c \<in> set (format_g n). is_digit c \<or> c = CHR ''.'' \<or> c = CHR ''e'' \<or> c = CHR ''+''"
proof -
  let ?ds = "nat_digits n"
  let ?d = "strip_trailing_zeros ?ds"
  have ds: "\<forall>c \<in> set ?ds. is_digit c" using is_digit_nat_digits [of n] by (simp add: list_all_iff)
  then have d: "\<forall>c \<in> set ?d. is_digit c" using strip_trailing_zeros_set [of ?ds] by blast
  have "\<forall>c \<in> set (exp_digits e). is_digit c" for e
    using is_digit_nat_digits [of e] by (auto simp: exp_digits_def list_all_iff is_digit_def)
  moreover have "\<forall>c \<in> set (List.tl ?d). is_digit c" using d by (metis list.set_sel(2) tl_Nil)
  moreover have "?d \<noteq> [] \<Longrightarrow> is_digit (hd ?d)" using d by simp
  moreover have "hd ?d = hd [] \<Longrightarrow> ?d = [] \<Longrightarrow> False"
    if "\<not> length ?ds - 1 < 6"
    using that strip_trailing_zeros_hd [of ?ds] nat_digits_props [of n] nat_digits_hd [of n]
    by (cases "n = 0") (auto simp: nat_digits.simps char_of_48)
  ultimately show ?thesis
    using ds by (auto simp: format_g_def Let_def)
qed

lemma nl_writeFloat: "nl \<notin> set (writeFloat v)"
  using format_g_chars [of "nat v"] format_g_chars [of "nat (- v)"]
  by (auto simp: writeFloat_def)

lemma nl_valid_name: "valid_name n \<Longrightarrow> nl \<notin> set n"
  by (auto simp: valid_name_def list_all_iff)

lemma nl_label_name: "valid_label_name n \<Longrightarrow> nl \<notin> set n"
  using not_name_char(6) by (metis list_all_iff valid_label_name_def)

lemma nl_join_pairs: "list_all (valid_label_name \<circ> fst) ls \<Longrightarrow> nl \<notin> set (join_pairs ls)"
  by (induction ls rule: join_pairs.induct) (auto simp: label_pair_def nl_escape_label nl_label_name)

lemma family_lines_nl: "valid_family f \<Longrightarrow> \<forall>l \<in> set (family_lines f). nl \<notin> set l"
  by (auto simp: family_lines_def valid_family_def sample_text_def type_name_def nl_valid_name
      nl_escape_help nl_writeFloat nl_join_pairs split: metric_type.splits)

lemma parse_family_lines:
  assumes "valid_family f"
  shows "List.map_filter parse_sample (family_lines f) = fam_entries f"
proof -
  have "\<forall>s \<in> set (fam_samples f). parse_sample (sample_text (fam_name f) s)
          = Some ((\<lambda>(ls, v). ((fam_name f, ls), v)) s)"
    using assms parse_sample_text by (auto simp: valid_family_def)
  then show ?thesis
    by (simp add: family_lines_def fam_entries_def map_filter_simps parse_sample_comment map_filter_map)
qed

lemma scrape_families:
  assumes "\<forall>f \<in> set F. valid_family f"
  shows "scrape (concat (map write_family F)) = map_of (concat (map fam_entries F))"
proof -
  have w: "concat (map write_family F) = concat (map (\<lambda>l. l @ [nl]) (concat (map family_lines F)))"
    by (induction F) (simp_all add: write_family_def)
  have "\<forall>l \<in> set (concat (map family_lines F)). nl \<notin> set l"
    using assms family_lines_nl by fastforce
  then have "lines_of (concat (map write_family F)) = concat (map family_lines F)"
    unfolding w by (rule lines_of_concat)
  moreover have "List.map_filter parse_sample (concat (map family_lines F)) = concat (map fam_entries F)"
    using assms by (induction F) (simp_all add: map_filter_append parse_family_lines)
  ultimately show ?thesis by (simp add: scrape_def)
qed

lemma map_of_tag:
  "map_of (map (\<lambda>(ls, y). ((n0, ls), y)) xs) (n, ls) = (if n = n0 then map_of xs ls else None)"
  by (induction xs) auto

lemma map_fst_entries: "map fst (fam_entries f) = map (Pair (fam_name f)) (map fst (fam_samples f))"
  by (induction "fam_samples f" arbitrary: f) (auto simp: fam_entries_def split: prod.splits)

lemma entries_filter:
  "concat (map fam_entries (filter (\<lambda>f. fam_samples f \<noteq> []) F)) = concat (map fam_entries F)"
  by (induction F) (simp_all add: fam_entries_def)

lemma distinct_entries:
  assumes "distinct (map fam_name F)" and "\<forall>f \<in> set F. distinct (map fst (fam_samples f))"
  shows "distinct (map fst (concat (map fam_entries F)))"
  using assms
proof (induction F)
  case Nil
  then show ?case by simp
next
  case (Cons f F)
  have "distinct (map fst (fam_samples f))" using Cons.prems(2) by (rule bspec) simp
  then have "distinct (map fst (fam_entries f))"
    unfolding map_fst_entries distinct_map [of "Pair (fam_name f)" "map fst (fam_samples f)"]
    by (simp add: inj_on_def)
  moreover have "set (map fst (fam_entries f)) \<inter> set (map fst (concat (map fam_entries F))) = {}"
  proof -
    have "\<forall>x \<in> set (map fst (concat (map fam_entries F))). fst x \<noteq> fam_name f"
      using Cons.prems(1) by (force simp: fam_entries_def)
    moreover have "\<forall>x \<in> set (map fst (fam_entries f)). fst x = fam_name f"
      by (auto simp: fam_entries_def)
    ultimately show ?thesis by (metis disjoint_iff)
  qed
  moreover have "distinct (map fst (concat (map fam_entries F)))"
  proof (rule Cons.IH)
    show "distinct (map fam_name F)" using Cons.prems(1) by simp
    show "\<forall>g \<in> set F. distinct (map fst (fam_samples g))" using Cons.prems(2) by simp
  qed
  ultimately show ?case by (simp only: list.map concat.simps map_append distinct_append)
qed

lemma map_of_entries_name:
  "distinct (map fam_name F) \<Longrightarrow> f \<in> set F
   \<Longrightarrow> map_of (concat (map fam_entries F)) (fam_name f, ls) = map_of (fam_samples f) ls"
proof (induction F)
  case Nil
  then show ?case by simp
next
  case (Cons g F)
  have e: "map_of (fam_entries g) (n, ls) = (if n = fam_name g then map_of (fam_samples g) ls else None)"
    for n
    unfolding fam_entries_def by (rule map_of_tag)
  have o: "map_of (concat (map fam_entries F)) (fam_name g, ls) = None"
    if "fam_name g \<notin> fam_name ` set F"
    using that by (induction F) (auto simp: map_of_append fam_entries_def map_of_tag)
  show ?case
  proof (cases "f = g")
    case True
    then show ?thesis
      using Cons.prems(1) by (simp add: map_add_def e o split: option.splits)
  next
    case False
    then have "f \<in> set F" using Cons.prems(2) by simp
    moreover have "fam_name g \<notin> fam_name ` set F" using Cons.prems(1) by simp
    ultimately have "fam_name f \<noteq> fam_name g" by (metis image_eqI)
    then show ?thesis
      using False Cons by (simp add: map_add_def e split: option.splits)
  qed
qed

lemma map_of_entries_other:
  "n \<notin> fam_name ` set F \<Longrightarrow> map_of (concat (map fam_entries F)) (n, ls) = None"
proof (induction F)
  case Nil
  then show ?case by simp
next
  case (Cons g F)
  have "map_of (fam_entries g) (n, ls) = None"
    using Cons.prems unfolding fam_entries_def by (simp add: map_of_tag)
  then show ?case using Cons by (simp add: map_of_append)
qed

lemma scrape_gather:
  assumes "\<forall>f \<in> set F. valid_family f" and "distinct (map fam_name F)"
    and "\<forall>f \<in> set F. distinct (map fst (fam_samples f))"
  shows "scrape (concat (map write_family (gather F))) = map_of (concat (map fam_entries F))"
proof -
  let ?P = "\<lambda>f. fam_samples f \<noteq> []"
  let ?G = "gather F"
  have set_G: "set ?G = set (filter ?P F)" by (simp add: gather_def)
  have "distinct (map fam_name (filter ?P F))" using assms(2) by (rule distinct_map_filter)
  then have dG: "distinct (map fam_name ?G)"
    unfolding gather_def distinct_map by (simp only: distinct_sort set_sort)
  have "map_of (concat (map fam_entries ?G)) = map_of (concat (map fam_entries (filter ?P F)))"
  proof (subst map_of_inject_set)
    show "distinct (map fst (concat (map fam_entries ?G)))"
      using dG assms(3) set_G by (intro distinct_entries) auto
    show "distinct (map fst (concat (map fam_entries (filter ?P F))))"
      using assms(2,3) by (intro distinct_entries distinct_map_filter) auto
    show "set (concat (map fam_entries ?G)) = set (concat (map fam_entries (filter ?P F)))"
      using set_G by simp
  qed
  moreover have "scrape (concat (map write_family ?G)) = map_of (concat (map fam_entries ?G))"
    using assms(1) set_G by (intro scrape_families) auto
  ultimately show ?thesis by (simp only: entries_filter)
qed

lemma map_of_children: "inj lbl \<Longrightarrow> finite (dom g) \<Longrightarrow> map_of (children lbl g) (lbl k) = g k"
  using map_of_keys_inj [of lbl "\<lambda>k. the (g k)" "sorted_list_of_set (dom g)" k]
  by (cases "g k") (auto simp: children_def)

lemma map_of_children_other: "ls \<notin> range lbl \<Longrightarrow> map_of (children lbl g) ls = None"
  by (simp add: children_def map_of_keys_other)

lemma distinct_children:
  assumes "inj lbl"
  shows "distinct (map fst (children lbl g))"
proof -
  have "map fst (children lbl g) = map lbl (sorted_list_of_set (dom g))"
    by (simp add: children_def)
  then show ?thesis
    using inj_on_subset [OF assms subset_UNIV] by (simp add: distinct_map)
qed

lemma children_labels: "s \<in> set (children lbl g) \<Longrightarrow> fst s \<in> range lbl"
  by (auto simp: children_def)

lemma inj_id_labels: "inj id_labels"
  by (simp add: inj_def id_labels_def)

lemma inj_build_labels: "inj build_labels"
  by (simp add: inj_def build_labels_def split: prod.splits)

lemma map_of_children_id: "finite (dom g) \<Longrightarrow> map_of (children id_labels g) ls = id_series g ls"
proof (cases "ls \<in> range id_labels")
  case True
  then obtain i where "ls = id_labels i" by blast
  then show "finite (dom g) \<Longrightarrow> ?thesis"
    by (simp add: map_of_children inj_id_labels) (simp add: id_series_def id_labels_def)
next
  case False
  then have "id_series g ls = None"
    by (auto simp: id_series_def id_labels_def split: list.splits prod.splits)
  then show ?thesis using False by (simp add: map_of_children_other)
qed

lemma map_of_children_build:
  "finite (dom g) \<Longrightarrow> map_of (children build_labels g) ls = build_series g ls"
proof (cases "ls \<in> range build_labels")
  case True
  then obtain k where "ls = build_labels k" by blast
  then show "finite (dom g) \<Longrightarrow> ?thesis"
    by (simp add: map_of_children inj_build_labels)
       (simp add: build_series_def build_labels_def split: prod.splits)
next
  case False
  then have "\<forall>a os gv v. ls \<noteq> build_labels (a, os, gv, v)" by blast
  then have "build_series g ls = None"
    by (auto simp: build_series_def build_labels_def split: list.splits prod.splits)
  then show ?thesis using False by (simp add: map_of_children_other)
qed

lemma BuildFQName_eq [simp]: "BuildFQName ns a = BuildFQName ns b \<longleftrightarrow> a = b"
  by (simp add: BuildFQName_def)

lemma BuildFQName_last: "x \<noteq> [] \<Longrightarrow> last (BuildFQName ns x) = last x"
  by (simp add: BuildFQName_def last_append)

lemma BuildFQName_ne_handler [simp]:
  assumes "x \<noteq> []" and "last x \<noteq> CHR ''l''"
  shows "BuildFQName ns x \<noteq> ''promhttp_metric_handler_errors_total''"
proof
  assume eq: "BuildFQName ns x = ''promhttp_metric_handler_errors_total''"
  have "last (BuildFQName ns x) = last x" using assms(1) by (rule BuildFQName_last)
  then have "last x = CHR ''l''" unfolding eq by simp
  with assms(2) show False by simp
qed

lemma handler_ne_BuildFQName [simp]:
  "x \<noteq> [] \<Longrightarrow> last x \<noteq> CHR ''l'' \<Longrightarrow> ''promhttp_metric_handler_errors_total'' \<noteq> BuildFQName ns x"
  using BuildFQName_ne_handler by metis

lemma BuildFQName_valid: "valid_prefix ns \<Longrightarrow> valid_name x \<Longrightarrow> valid_name (BuildFQName ns x)"
  by (auto simp: valid_prefix_def valid_name_def BuildFQName_def is_name_char_def is_name_start_def
      is_label_start_def)

lemma registry_names:
  "map fam_name (registry_families m) =
     map (BuildFQName (Namespace m))
       [''build_info'', ''backup_status'', ''backup_size'', ''backup_time'', ''backup_failed'', ''backup_nb'']
     @ [''promhttp_metric_handler_errors_total'']"
  by (simp add: registry_families_def metric_families_def Let_def handler_errors_family_def)

lemma registry_distinct: "distinct (map fam_name (registry_families m))"
  unfolding registry_names by simp

lemma registry_samples_distinct: "\<forall>f \<in> set (registry_families m). distinct (map fst (fam_samples f))"
  by (simp add: registry_families_def metric_families_def Let_def handler_errors_family_def
      distinct_children inj_id_labels inj_build_labels)

lemma registry_valid:
  assumes "valid_prefix (Namespace m)"
  shows "\<forall>f \<in> set (registry_families m). valid_family f"
proof -
  have lbl: "valid_label_name ''id''" "list_all (valid_label_name \<circ> fst) (build_labels k)" for k
    by (simp_all add: valid_label_name_def is_label_start_def is_label_char_def build_labels_def
        split: prod.splits)
  have ids: "\<forall>s \<in> set (children id_labels g). list_all (valid_label_name \<circ> fst) (fst s)" for g
    using children_labels [of _ id_labels g] lbl(1) by (fastforce simp: id_labels_def)
  have bld: "\<forall>s \<in> set (children build_labels g). list_all (valid_label_name \<circ> fst) (fst s)" for g
    using children_labels [of _ build_labels g] lbl(2) by fastforce
  have "valid_name x"
    if "x \<in> {''build_info'', ''backup_status'', ''backup_size'', ''backup_time'', ''backup_failed'', ''backup_nb''}"
    for x
    using that by (auto simp: valid_name_def is_name_char_def is_name_start_def is_label_start_def)
  then have names: "valid_name (BuildFQName (Namespace m) x)"
    if "x \<in> {''build_info'', ''backup_status'', ''backup_size'', ''backup_time'', ''backup_failed'', ''backup_nb''}"
    for x
    using that BuildFQName_valid [OF assms] by blast
  have "valid_family handler_errors_family"
    by (simp add: handler_errors_family_def valid_family_def valid_name_def valid_label_name_def
        is_name_char_def is_name_start_def is_label_start_def is_label_char_def is_digit_def)
  then show ?thesis
    using ids bld names
    by (simp add: registry_families_def metric_families_def Let_def valid_family_def)
qed

lemma registry_series:
  assumes "finite_metrics m"
  shows "\<forall>f \<in> set (registry_families m). map_of (fam_samples f) ls = series m (fam_name f, ls)"
  using assms
  by (simp add: registry_families_def metric_families_def Let_def handler_errors_family_def series_def
      finite_metrics_def map_of_children_id map_of_children_build)

lemma series_other:
  assumes "n \<notin> fam_name ` set (registry_families m)"
  shows "series m (n, ls) = None"
proof -
  have "n \<notin> set (map fam_name (registry_families m))" using assms by simp
  then have "n \<notin> set (map (BuildFQName (Namespace m))
       [''build_info'', ''backup_status'', ''backup_size'', ''backup_time'', ''backup_failed'', ''backup_nb''])
     \<and> n \<noteq> ''promhttp_metric_handler_errors_total''"
    unfolding registry_names by simp
  then show ?thesis by (simp add: series_def)
qed

lemma registry_entries_series:
  assumes "finite_metrics m"
  shows "map_of (concat (map fam_entries (registry_families m))) = series m"
proof
  fix k :: "string \<times> (string \<times> string) list"
  let ?F = "registry_families m"
  obtain n ls where k: "k = (n, ls)" by fastforce
  show "map_of (concat (map fam_entries ?F)) k = series m k"
  proof (cases "n \<in> fam_name ` set ?F")
    case True
    then obtain f where "f \<in> set ?F" and "n = fam_name f" by blast
    then show ?thesis
      using k registry_series [OF assms] map_of_entries_name [OF registry_distinct] by simp
  next
    case False
    then show ?thesis using k map_of_entries_other series_other by simp
  qed
qed

text \<open>
  C21. The text the metrics endpoint serves is an exact encoding of the metrics: read back
  with the text format's grammar, it gives for every series (metric name and label pairs)
  the value the metrics state holds, and nothing else, whatever the identifiers, label
  values and integer values are, provided the metrics prefix is a legal metric name.
\<close>

theorem scrape_exposition:
  assumes "valid_prefix (Namespace m)" and "finite_metrics m"
  shows "scrape (exposition m) = series m"
  unfolding exposition_def registry_entries_series [OF assms(2), symmetric]
  using registry_valid [OF assms(1)] registry_distinct registry_samples_distinct by (rule scrape_gather)

theorem scrape_exposition_witness:
  "valid_prefix (Namespace example_metrics) \<and> finite_metrics example_metrics
   \<and> scrape (exposition example_metrics) (''backuprf_backup_status'', [(''id'', ''a'')]) = Some 1"
proof -
  have h: "valid_prefix (Namespace example_metrics)" "finite_metrics example_metrics"
    by (simp_all add: example_metrics_def NewMetrics_def valid_prefix_def valid_name_def
        is_name_char_def is_name_start_def is_label_start_def finite_metrics_def)
  from scrape_exposition [OF h] h show ?thesis
    by (simp add: series_def example_metrics_def NewMetrics_def BuildFQName_def id_series_def)
qed

lemma exposition_example:
  "exposition example_metrics = concat (map (\<lambda>l. l @ [nl])
     [''# HELP backuprf_backup_failed Number of failed backups'',
      ''# TYPE backuprf_backup_failed counter'',
      ''backuprf_backup_failed{id='' @ dquote # ''a'' @ dquote # ''} 0'',
      ''# HELP backuprf_backup_nb Number of retreivals'',
      ''# TYPE backuprf_backup_nb counter'',
      ''backuprf_backup_nb 1'',
      ''# HELP backuprf_backup_status Status of latest backup'',
      ''# TYPE backuprf_backup_status gauge'',
      ''backuprf_backup_status{id='' @ dquote # ''a'' @ dquote # ''} 1'',
      ''# HELP promhttp_metric_handler_errors_total Total number of internal errors encountered by the promhttp metric handler.'',
      ''# TYPE promhttp_metric_handler_errors_total counter'',
      ''promhttp_metric_handler_errors_total{cause='' @ dquote # ''encoding'' @ dquote # ''} 0'',
      ''promhttp_metric_handler_errors_total{cause='' @ dquote # ''gathering'' @ dquote # ''} 0''])"
  by (simp add: exposition_def example_metrics_def registry_families_def metric_families_def Let_def
      handler_errors_family_def gather_def children_def NewMetrics_def BuildFQName_def id_labels_def
      write_family_def family_lines_def sample_text_def label_pair_def type_name_def writeFloat_def)

lemma writeFloat_unix_time: "writeFloat 1731139200 = ''1.7311392e+09''"
  by (simp add: writeFloat_code)

end
