(* ===== verification/Spec2Isabelle.thy ===== *)
theory Spec2Isabelle
  imports Timers Server Sweep_Order Metrics_Inv Tests Exposition
begin

text \<open>
  \<^bold>\<open>A verification development of backup_remote_files.\<close>

  The program (\<^verbatim>\<open>src/main.go\<close>, \<^verbatim>\<open>src/config/config.go\<close>) periodically downloads a
  set of remote files over HTTP with basic authentication, writes them to local paths and
  exports the outcome as Prometheus metrics. Its parts, leaves first:
  \<^item> the configuration loader \<^verbatim>\<open>New\<close> / \<^verbatim>\<open>readConfig\<close>: YAML decoding, the two
    intervals through Go's \<^verbatim>\<open>time.ParseDuration\<close> (with the default \<^verbatim>\<open>"1d"\<close>), the
    metrics prefix, and one \<^verbatim>\<open>Backup\<close> per entry of the \<^verbatim>\<open>backups\<close> mapping;
  \<^item> the fetcher \<^verbatim>\<open>backupFile\<close> / \<^verbatim>\<open>fileSize\<close>: one GET, one local write, one size
    query;
  \<^item> the metrics (\<^verbatim>\<open>type metrics\<close>, \<^verbatim>\<open>NewMetrics\<close>, \<^verbatim>\<open>initializeCounters\<close>),
    registered in a private registry and served as text on \<^verbatim>\<open>/metrics\<close> by
    \<^verbatim>\<open>promhttp.HandlerFor\<close>;
  \<^item> the sweep executor \<^verbatim>\<open>retrieveUrls\<close>: one pass over the items (all of them, or only
    those whose last retrieval failed), updating each item's \<^verbatim>\<open>RetrieveSuccess\<close> flag and
    the metrics, returning whether all considered items succeeded;
  \<^item> the scheduler, the rest of \<^verbatim>\<open>main\<close>: two tickers (full sweep, retry), one synchronous
    full sweep, then a goroutine whose \<^verbatim>\<open>select\<close> runs a full sweep on each full tick and
    a retry sweep on each retry tick, stopping or re-arming the retry ticker by the
    sweep's result;
  \<^item> the command line (\<^verbatim>\<open>CLI\<close>, parsed by kong in \<^verbatim>\<open>config.New\<close>) with its
    \<^verbatim>\<open>--version\<close> hook printing \<^verbatim>\<open>printVersion\<close>, and the exporter's HTTP server.
  \<^verbatim>\<open>main\<close> parses the command line, loads the configuration, builds the metrics, starts
  the scheduler and serves the metrics; the scheduler calls the sweep executor with the
  shared item slice; the sweep calls the fetcher per item and writes the metrics; nothing
  else writes the flags.

  \<^bold>\<open>Theories.\<close>
  \<^item> \<open>Prelude\<close>: the model's type names (paths, labels, \<open>uint64\<close>) and generic lemmas
    on lists and on 64-bit words shared by the components.
  \<^item> \<open>Backup\<close>: the records \<open>backup\<close> and \<open>config\<close> of \<^verbatim>\<open>config.go\<close>; the
    well-formedness \<open>backups_wf\<close> (unique identifiers), \<open>config_loaded\<close> (what loading
    guarantees and the scheduler assumes) and the frame projection \<open>backup_target\<close>.
  \<^item> \<open>Metrics\<close>: the record \<open>metrics\<close> (one map per metric vector, from label values to
    the child's value), \<open>NewMetrics\<close>, \<open>initializeCounters\<close>, and the client library's
    \<open>gauge_set\<close>, \<open>counter_add\<close>, \<open>counter_inc\<close> (modelled from spec section 4.3).
  \<^item> \<open>Fetch\<close>: \<open>backupFile\<close> and \<open>fileSize\<close> over an explicit \<open>world\<close> (URL validity,
    the server's answer per URL and credentials, which local operations fail, the clock)
    and a file system \<open>path \<rightharpoonup> string\<close>; errors are \<open>go_error option\<close>, the Go
    \<^verbatim>\<open>err\<close>. Lemmas: the fetcher's contract of spec section 4.4.
  \<^item> \<open>Scenarios\<close>: the concrete worlds and items of the spec's scenarios and of
    \<^verbatim>\<open>TestRetrieveUrlsSimple\<close>, used by the witnesses.
  \<^item> \<open>Sweep\<close>: \<open>retrieve_item\<close> (one loop iteration, each \<^verbatim>\<open>continue\<close> a branch),
    \<open>retrieve_loop\<close> (the \<^verbatim>\<open>for range\<close>), \<open>retrieveUrls\<close>; the spec-level outcome of an
    item (\<open>fetch_started\<close>, \<open>item_ok\<close>, \<open>sweep_flag\<close>, \<open>item_metrics\<close>) and the proof
    that the loop computes exactly it (\<open>retrieve_item_eq\<close>, \<open>retrieve_loop_backups\<close>,
    \<open>retrieve_loop_metrics\<close>: the loop's metrics are a fold that does not depend on the
    files). Claims C1, C3--C5, C7, C8.
  \<^item> \<open>Scheduler\<close>: the retry ticker as \<open>Ticking\<close>/\<open>Stopped\<close>, \<open>start\<close> (ticker
    creation, which panics on a non-positive interval, and the first full sweep),
    \<open>on_tick\<close> (the two \<^verbatim>\<open>select\<close> branches), the step relation \<open>loop_step\<close> (a retry
    tick is possible only while the retry ticker runs; either ready tick may be taken) and
    the reachable states from any loaded configuration; the spec's Armed/Disarmed machine
    as an abstraction \<open>retry_abs\<close> with a refinement lemma per tick. The invariant
    \<open>sched_inv\<close> (unique identifiers; retry ticker running exactly when some flag is
    false) is proved by rule induction. Claims C2, C9--C12.
  \<^item> \<open>Sweep_Order\<close>: the file-system effect \<open>item_file\<close> of one item, the sweep as a
    fold of commuting per-item effects, and the independence of the Go map order
    (\<open>fold_multiset_equiv\<close> of \<^verbatim>\<open>HOL-Library.Multiset\<close>). Claim C28.
  \<^item> \<open>Metrics_Inv\<close>: the shape of the exported metrics, \<open>metrics_ok\<close> (series only for
    tracked identifiers, status 0 or 1, a failure counter per identifier, size and time
    together) and \<open>metrics_wf\<close> (with the prefix, \<^verbatim>\<open>build_info\<close> and a positive
    \<^verbatim>\<open>backup_nb\<close>), established by \<open>start\<close> and kept by every \<open>loop_step\<close>.
  \<^item> \<open>Tests\<close>: the Go test \<^verbatim>\<open>TestRetrieveUrlsSimple\<close> of \<^verbatim>\<open>src/main_test.go\<close>:
    \<open>createConfigFile\<close>, the test server \<open>test_server\<close> and the test body with its three
    assertions as a boolean \<open>TestRetrieveUrlsSimple\<close>. Claim C6.
  \<^item> \<open>Timers\<close>: the scheduler with its clock. The Go tickers (\<open>go_ticker\<close>:
    period, next deadline, running, a tick waiting) with \<open>ticker_new\<close>, \<open>ticker_stop\<close>,
    \<open>ticker_reset\<close>, \<open>ticker_recv\<close> and the runtime's firing \<open>ticker_fire\<close> (library
    code, modelled from the Go documentation and runtime under the Go 1.23 semantics); the
    timed state \<open>tstate\<close>, \<open>t_start\<close>, \<open>t_on_tick\<close> (a sweep takes the time the
    timeline gives, the tickers fire meanwhile), the blocking \<^verbatim>\<open>select\<close> \<open>t_wait\<close>, the
    step relation \<open>t_step\<close> and the executable run \<open>run_until\<close> (a \<^theory_text>\<open>partial_function\<close>
    in the option monad). \<open>untimed\<close> maps a timed state to a \<open>Scheduler\<close> state.
    Claims C23--C27.
  \<^item> \<open>Duration\<close>: Go's \<^verbatim>\<open>time.ParseDuration\<close> (library code, modelled from its documented
    algorithm): the digit scanners \<open>leadingInt\<close> and \<open>leadingFraction\<close>, one component
    \<open>parse_component\<close>, the loop \<open>parse_loop\<close> (a \<^theory_text>\<open>function\<close> whose termination
    is proved by the length of the rest), on a \<open>uint64\<close> accumulator with the library's
    overflow checks. Lemmas: a numeral and a unit parse to their product, a day unit is
    rejected, results fit \<open>int64\<close>, the sum of two \<open>2^63\<close> components wraps to 0.
  \<^item> \<open>Config\<close>: the decoded YAML document (\<open>yaml\<close>, \<open>config_file\<close>), the type
    assertions as panics, the three ways a load fails (\<^verbatim>\<open>l.Fatal\<close>, a returned error, a
    panic) as \<open>config_error\<close>, and \<open>read_duration\<close>, \<open>read_prefix\<close>,
    \<open>decode_backups\<close>, \<open>readConfig\<close>, \<open>New\<close>, and \<open>entry_decodes\<close>, the
    record an entry must decode to. Claims C13--C18.
  \<^item> \<open>Banner\<close>: \<open>printVersion\<close> (the loop \<open>scan_settings\<close> over the build settings,
    \<open>parse_time\<close> ignoring the parse error) with \<^verbatim>\<open>fmt\<close>'s padding, and
    \<^verbatim>\<open>strings.TrimSpace\<close>; the build information and the time functions are inputs.
    Claim C29.
  \<^item> \<open>Cli\<close>: the record \<open>cli\<close>, kong's scan of the command line (\<open>classify\<close>,
    \<open>kong_trace\<close>, library code modelled from kong's documented behaviour),
    \<open>kong_parse\<close> (hooks before the required-flag check, the default port 9289),
    \<open>version_hook\<close> (\<^verbatim>\<open>BeforeReset\<close>), and \<^verbatim>\<open>strconv\<close>'s \<open>Itoa\<close> and \<open>ParseInt\<close>
    (base 0) with the round trip \<open>ParseInt_Itoa\<close>.
  \<^item> \<open>Server\<close>: \<open>server_Addr\<close> and the \<^verbatim>\<open>net\<close> package's port check and bind outcome
    behind \<open>ListenAndServe\<close>.
  \<^item> \<open>Exposition\<close>: the registered collectors with their names, help texts and types
    (\<open>metric_families\<close>, from \<^verbatim>\<open>NewMetrics\<close>), the handler's own error counter
    (\<open>handler_errors_family\<close>), the registry's \<open>gather\<close> (drop empty families, sort), and
    the text encoder (\<open>write_family\<close>, \<open>sample_text\<close>, the escapes, and \<open>writeFloat\<close>,
    Go's shortest \<^verbatim>\<open>'g'\<close> formatting of the value); \<open>exposition\<close> is the body of
    \<^verbatim>\<open>/metrics\<close>. The reading side (\<open>scrape\<close>, a parser of the text format) and the
    expected series (\<open>series\<close>) state what the body means. Claim C21.
  \<^item> This theory: \<open>main_start\<close>, the body of \<^verbatim>\<open>main\<close> up to the goroutine, composed
    of \<open>New\<close>, \<open>NewMetrics\<close>, \<open>initializeCounters\<close> and \<open>start\<close>; \<open>main_run\<close>, the
    whole of \<^verbatim>\<open>main\<close> from the command line to the server; and the properties that span
    the components. Claims C19, C20, C22, C30--C32.

  \<^bold>\<open>What the lemmas show.\<close> A sweep's boolean result is the conjunction of the considered
  items' flags (C1); the retry ticker runs exactly when some item awaits retry (C2); a
  retry sweep leaves succeeded items alone (C3); every considered item's metrics record its
  outcome (C4); a sweep changes only flags, each set to whether the transfer started (C5);
  the repository's test passes on the model for every message and server URL the YAML
  text carries verbatim (C6). The error paths: a local failure after the transfer is
  reported but never retried (C7); an HTTP error status is saved as a successful backup
  (C8); a non-positive interval panics at start (C11). The scheduler refines the spec's
  state machine (C9, C10) and runs exactly one sweep per round (C12). Loading: the default
  intervals can never be used, so both keys are required (C13, C14); a loaded
  configuration holds the parsed intervals and, field by field, the entries of the
  mapping (C15); a non-string field panics (C16); intervals in days are rejected and
  numeral-and-unit intervals load as their value (C17, C18). Across components: every
  started program is in a reachable scheduler state (C19), and in every state reached from
  there the metrics are well formed: a status in {0, 1} and a failure counter for every
  tracked item and for no other, size and time together, \<^verbatim>\<open>build_info\<close> 1 and a
  positive \<^verbatim>\<open>backup_nb\<close> (C20). The served text is an exact encoding of the metrics
  (C21), so a scrape of the running exporter shows those series, together with the
  handler's own \<^verbatim>\<open>promhttp_metric_handler_errors_total\<close> counters, which the spec does
  not list (C22). With the clock: deadlines are never past and never more than a period
  ahead (C23). The retry cadence: the first retry deadline is counted from the ticker's
  creation, not from the end of the first sweep as the spec says (C24); a failing full
  sweep restarts it (C25), a failing retry sweep keeps it (C26). The full ticker keeps the
  grid of its creation (C27). A sweep's outcome does not depend on the order of the items
  when their identifiers and output paths are distinct (C28); with a shared output path it
  does (\<open>shared_output_order_matters\<close>). The banner reports the last non-empty value of
  each build setting (C29); \<^verbatim>\<open>-V\<close> ends the program before any configuration is read
  (C30); a port given on the command line is the port the exporter listens on (C31), and a
  port outside 0 to 65535 kills the program only after the first sweep (C32).
  Further lemmas, not claims: the spec's scenarios B, C and D as traces
  (\<open>scenario_B_then_C\<close>, \<open>scenario_D\<close>); an interval string whose two components of
  \<open>2^63\<close> ns wrap the parser's accumulator loads as zero and kills \<^verbatim>\<open>main\<close>
  (\<open>main_start_wrapped_interval_panics\<close>); the timed loop projects to the untimed one
  (\<open>timed_loop_refines\<close>, \<open>timed_retry_iff_pending\<close>); every run reaches every time
  horizon (\<open>run_until_terminates\<close>); an idle loop wakes within one interval
  (\<open>wait_bounded\<close>); the runtime's closed-form next deadline equals stepping period by
  period (\<open>sweep_fires_on_grid\<close>), so a slow sweep drops ticks
  (\<open>slow_first_sweep_drops_ticks\<close>).

  \<^bold>\<open>Bounds and abstractions.\<close> No fuel is needed: every loop of the modelled code runs over
  a finite list or a shrinking string and terminates by structural recursion or by the
  length measure; the scheduler's infinite loop is a step relation, and its properties are
  invariants of the reachable states. The run \<open>run_until\<close> to a horizon is a partial
  function whose termination is proved (\<open>run_until_terminates\<close>) by the measure three times the time left plus
  the number of waiting ticks: a wait moves the clock forward, a sweep either moves it or
  leaves no tick waiting. Time is an \<open>int\<close> of nanoseconds; the runtime's overflow guard on
  deadlines (\<open>maxWhen\<close>) is not needed below \<open>2^63\<close> ns. The world of a sweep and its
  duration come from a timeline indexed by the sweep's start time. Gauge values are \<open>int\<close> (exact in \<^verbatim>\<open>float64\<close>
  below \<open>2^53\<close>), counters \<open>nat\<close>; the wall clock is constant during one sweep. The
  fractional part of a duration component is computed exactly where Go uses
  \<^verbatim>\<open>float64\<close>: the two agree except where the \<^verbatim>\<open>float64\<close> product rounds across
  an integer, for fractions with more digits than \<^verbatim>\<open>float64\<close> carries. The Go map order of \<^verbatim>\<open>range\<close> over the YAML backups is the order of the
  association list; C28 shows the order is irrelevant for distinct output paths. In the
  exposition a value is printed from the model's integer; Go prints the \<^verbatim>\<open>float64\<close> of
  it, which is the same integer below \<open>2^53\<close>, so sizes above 8 PiB, Unix times after the
  year 285 million and counts above \<open>2^53\<close> are outside the modelled range.

  \<^bold>\<open>Not modelled.\<close> Logging (the \<^verbatim>\<open>logger\<close> package is not in the sources) is
  output without state the rest reads. The handler's content negotiation (protobuf,
  OpenMetrics, gzip) is not modelled: the exposition is the body of a plain \<^verbatim>\<open>GET\<close>,
  and the handler's error counters stay 0 because gathering and encoding this registry
  cannot fail. Reading the file and YAML syntax are taken as given
  (the model starts from the decoded document, \<open>load\<close> maps a file name to it).
  kong's digit separators, combined short flags and values attached to short flags are
  outside the modelled command lines. The YAML text \<open>createConfigFile\<close> writes is
  replaced by the document it decodes to. The \<^verbatim>\<open>float64\<close> rounding of a fractional
  duration component is not modelled: HOL-Library has no IEEE arithmetic, and the
  configurations of the repository use whole numbers. Registration does not check the
  metric names against Prometheus's name rules, whose definition depends on the client
  library's version; the claims on the exposition assume a prefix that is a legal name under
  both the classic and the UTF-8 rules (\<open>valid_prefix\<close>), for which both encoders write the
  same text.
  Go's \<^verbatim>\<open>select\<close> chooses uniformly at random between ready ticks; the step relation
  allows either, and \<open>run_until\<close> serves the full tick first. Ticker semantics before
  Go 1.23 (a stale tick after \<^verbatim>\<open>Stop\<close>) are not modelled.

  \<^bold>\<open>Plan.\<close> Next: kong's digit separators; a general wrap-around theorem for
  \<open>ParseDuration\<close> over any number of components.
\<close>

datatype exit_reason =
  ConfigFailed config_error | TickerPanic go_panic | UsageError string | HelpShown
  | VersionShown string | ServeFailed string

definition Version_of :: "string \<Rightarrow> string" where
  "Version_of version = TrimSpace version"

definition main_start ::
  "runtime_info \<Rightarrow> string \<Rightarrow> int \<Rightarrow> config_file \<Rightarrow> world \<Rightarrow> fs \<Rightarrow> exit_reason + sched"
where
  "main_start rt version port cf w files =
     (case New port cf of
        Inl e \<Rightarrow> Inl (ConfigFailed e)
      | Inr c \<Rightarrow>
          (let m = initializeCounters rt version c (NewMetrics (MetricsPrefix c)) in
           case start w c m files of
             Inl p \<Rightarrow> Inl (TickerPanic p)
           | Inr s \<Rightarrow> Inr s))"

text \<open>
  The whole of \<^verbatim>\<open>main\<close>: the command line through \<^verbatim>\<open>config.New\<close> (kong and the
  version hook), loading the file the command line names (\<open>load\<close> gives its decoded
  content), \<open>main_start\<close>, then the exporter's server on the configured port. \<open>Inr\<close> is a
  program that serves forever while the goroutine runs the loop.
\<close>

definition main_run ::
  "time_lib \<Rightarrow> build_info option \<Rightarrow> string \<Rightarrow> runtime_info \<Rightarrow> string list \<Rightarrow> (string \<Rightarrow> config_file)
   \<Rightarrow> world \<Rightarrow> fs \<Rightarrow> net_env \<Rightarrow> exit_reason + sched \<times> int"
where
  "main_run tlib bi version rt args load w files net =
     (case kong_parse tlib bi (Version_of version) args of
        KongFatal e \<Rightarrow> Inl (UsageError e)
      | KongHelpExit \<Rightarrow> Inl HelpShown
      | KongVersionExit out \<Rightarrow> Inl (VersionShown out)
      | KongOk cli \<Rightarrow>
          (case main_start rt (Version_of version) (CliPort cli) (load (ConfigFile cli)) w files of
             Inl e \<Rightarrow> Inl e
           | Inr s \<Rightarrow>
               (case ListenAndServe net (server_Addr (Port (cfg s))) of
                  Inl err \<Rightarrow> Inl (ServeFailed err)
                | Inr p \<Rightarrow> Inr (s, p))))"

definition version_txt_example :: string where
  "version_txt_example = ''0.0.0'' @ [CHR 0x0A]"

definition runtime_example :: runtime_info where
  "runtime_example = \<lparr>GOARCH = ''amd64'', GOOS = ''linux'', GoVersion = ''go1.22.0''\<rparr>"

text \<open>
  The configuration file of the Go test with its interval replaced by two components of
  \<open>2^63\<close> nanoseconds each.
\<close>

definition wrapped_interval_document :: "(string \<times> yaml) list" where
  "wrapped_interval_document =
     hd test_document # (''interval'', YStr ''9223372036854775808ns9223372036854775808ns'')
       # drop 2 test_document"

lemma main_start_Inr:
  assumes "main_start rt version port cf w files = Inr s"
  obtains c where "New port cf = Inr c"
    and "start w c (initializeCounters rt version c (NewMetrics (MetricsPrefix c))) files = Inr s"
  using assms by (auto simp: main_start_def Let_def split: sum.splits)

lemma initializeCounters_parts:
  "BackupTotal (initializeCounters rt version c m) = BackupTotal m
   \<and> BuildInfo (initializeCounters rt version c m) (GOARCH rt, GOOS rt, GoVersion rt, version) = Some 1
   \<and> (\<forall>b \<in> set (Backups c). BackupFailed (initializeCounters rt version c m) (ID b) \<noteq> None)"
  by (simp add: initializeCounters_def init_failed_apply)

lemma main_start_Port:
  assumes "main_start rt version port cf w files = Inr s"
  shows "Port (cfg s) = port"
proof -
  from assms obtain c where n: "New port cf = Inr c"
    and st: "start w c (initializeCounters rt version c (NewMetrics (MetricsPrefix c))) files = Inr s"
    by (rule main_start_Inr)
  have "Port c = port"
    using n by (cases cf) (auto simp: New_def dest: readConfig_Inr, simp_all add: readConfig_def yaml_Unmarshal_def)
  moreover have "Port (cfg s) = Port c"
    using st by (auto simp: start_def NewTicker_def retrieveUrls_def split: if_splits prod.splits)
  ultimately show ?thesis by simp
qed

lemma main_start_test_document_port:
  "\<exists>s. main_start runtime_example ''0.0.0'' port (Document test_document) world_A Map.empty = Inr s"
proof -
  have n: "New port (Document test_document) = Inr ((config_of [item_A])\<lparr>Port := port\<rparr>)"
    by (simp add: config_code test_document_def scenario_defs)
  have "\<exists>s. start world_A ((config_of [item_A])\<lparr>Port := port\<rparr>)
      (initializeCounters runtime_example ''0.0.0'' ((config_of [item_A])\<lparr>Port := port\<rparr>)
        (NewMetrics (MetricsPrefix (config_of [item_A])))) Map.empty = Inr s"
    by (simp add: sched_code scenario_defs split: prod.splits)
  with n show ?thesis by (auto simp: main_start_def)
qed

lemma Version_of_example: "Version_of version_txt_example = ''0.0.0''"
  by (simp add: Version_of_def TrimSpace_def go_space_def version_txt_example_def)

text \<open>
  The wrap-around of the duration parser's \<^verbatim>\<open>uint64\<close> accumulator reaches the
  program: a configuration whose interval is
  \<^verbatim>\<open>"9223372036854775808ns9223372036854775808ns"\<close> loads, with an interval of zero, and
  \<^verbatim>\<open>main\<close> then dies in \<^verbatim>\<open>time.NewTicker\<close> before the first sweep.
\<close>

lemma main_start_wrapped_interval_panics:
  "main_start rt version port (Document wrapped_interval_document) w files = Inl (TickerPanic NonPositiveInterval)"
proof -
  have "\<exists>c. New port (Document wrapped_interval_document) = Inr c \<and> Interval c = 0"
    by (simp add: config_code wrapped_interval_document_def test_document_def)
  then obtain c where n: "New port (Document wrapped_interval_document) = Inr c" and i: "Interval c = 0"
    by blast
  have "start w c m files = Inl NonPositiveInterval" for m
    using i by (simp add: start_def NewTicker_def)
  with n show ?thesis by (simp add: main_start_def)
qed

text \<open>
  C19. Whatever the configuration file and the world, if \<^verbatim>\<open>main\<close> gets past loading the
  configuration, creating the metrics and tickers and the first sweep, the goroutine's
  loop starts in a reachable state of the scheduler, so every scheduler invariant (C2)
  holds from then on.
\<close>

theorem main_start_reachable:
  "main_start rt version port cf w files = Inr s \<Longrightarrow> reachable s"
proof -
  assume "main_start rt version port cf w files = Inr s"
  then obtain c where n: "New port cf = Inr c"
    and st: "start w c (initializeCounters rt version c (NewMetrics (MetricsPrefix c))) files = Inr s"
    by (rule main_start_Inr)
  from n have "config_loaded c"
    unfolding New_def by (rule readConfig_config_loaded)
  from this st show ?thesis by (rule reachable.init)
qed

lemma main_start_test_document:
  "\<exists>s. main_start runtime_example ''0.0.0'' 9289 (Document test_document) world_A Map.empty = Inr s"
proof -
  have n: "New 9289 (Document test_document) = Inr (config_of [item_A])"
    by (simp add: config_code test_document_def scenario_defs)
  have "\<exists>s. start world_A (config_of [item_A])
      (initializeCounters runtime_example ''0.0.0'' (config_of [item_A])
        (NewMetrics (MetricsPrefix (config_of [item_A])))) Map.empty = Inr s"
    by (simp add: sched_code scenario_defs split: prod.splits)
  with n show ?thesis by (auto simp: main_start_def)
qed

theorem main_start_reachable_witness:
  "\<exists>s. main_start runtime_example ''0.0.0'' 9289 (Document test_document) world_A Map.empty = Inr s
       \<and> reachable s"
  using main_start_test_document main_start_reachable by blast

text \<open>
  After the start the exported metrics are those the spec promises: the build
  information series is 1, the sweep counter is 1 (one sweep), and every tracked item has
  both a status series (the first sweep is a full sweep) and a failure counter series
  (created at 0 by \<^verbatim>\<open>initializeCounters\<close> even if the item never fails).
\<close>

lemma main_start_metrics:
  assumes "main_start rt version port cf w files = Inr s"
  shows "BackupTotal (metric s) = 1
    \<and> BuildInfo (metric s) (GOARCH rt, GOOS rt, GoVersion rt, version) = Some 1
    \<and> (\<forall>b \<in> set (Backups (cfg s)). Status (metric s) (ID b) \<noteq> None \<and> BackupFailed (metric s) (ID b) \<noteq> None)"
proof -
  from assms obtain c where n: "New port cf = Inr c"
    and st: "start w c (initializeCounters rt version c (NewMetrics (MetricsPrefix c))) files = Inr s"
    by (rule main_start_Inr)
  let ?m = "initializeCounters rt version c (NewMetrics (MetricsPrefix c))"
  from n have ld: "config_loaded c" unfolding New_def by (rule readConfig_config_loaded)
  from st have pos: "0 < Interval c" "0 < RetryInterval c"
    by (auto simp: start_def NewTicker_def split: if_splits)
  from start_eq [OF pos, of w ?m files] st
  have cs: "cfg s = fst (retrieveUrls w c ?m files True)"
    and ms: "metric s = sw_metrics (snd (retrieveUrls w c ?m files True))"
    by auto
  have init: "BackupTotal ?m = 0" "BuildInfo ?m (GOARCH rt, GOOS rt, GoVersion rt, version) = Some 1"
      "\<forall>b \<in> set (Backups c). BackupFailed ?m (ID b) \<noteq> None"
    using initializeCounters_parts [of rt version c "NewMetrics (MetricsPrefix c)"]
    by (simp_all add: NewMetrics_def)
  have items: "Status (metric s) (ID b) \<noteq> None \<and> BackupFailed (metric s) (ID b) \<noteq> None"
    if b: "b \<in> set (Backups (cfg s))" for b
  proof -
    from b obtain b0 where b0: "b0 \<in> set (Backups c)" "b = sweep_flag w True b0"
      by (auto simp: cs retrieveUrls_backups)
    have id: "ID b = ID b0" by (simp add: b0(2) sweep_flag_def)
    have wf: "backups_wf (Backups c)" using ld by (simp add: config_loaded_def)
    have "metrics_at (metric s) (ID b0) = metrics_at (item_metrics w b0 ?m) (ID b0)"
      using retrieveUrls_item_metrics [OF wf b0(1), of True w ?m files] ms
      by (simp add: considered_def)
    moreover have "BackupFailed ?m (ID b0) \<noteq> None" using init(3) b0(1) by blast
    ultimately show ?thesis
      by (auto simp: id metrics_at_def item_metrics_def record_success_def record_failure_def)
  qed
  show ?thesis
    using init(1,2) items
    by (simp add: ms retrieveUrls_metrics)
qed

text \<open>
  C20. The exported metrics are well formed from the start on: in every state of the
  loop that \<^verbatim>\<open>main\<close> reaches, with any configuration and any worlds, the metrics carry
  the configured prefix and the one \<^verbatim>\<open>build_info\<close> series of this binary, a status
  series of value 0 or 1 and a failure counter for exactly the configured items, size and
  time series only for configured items and always together, and a positive sweep count.
\<close>

theorem main_metrics_wf:
  assumes "main_start rt version port cf w files = Inr s" and "loop_step\<^sup>*\<^sup>* s s'"
  shows "metrics_wf (GOARCH rt, GOOS rt, GoVersion rt, version) s'"
proof -
  from assms(1) obtain c where
    st: "start w c (initializeCounters rt version c (NewMetrics (MetricsPrefix c))) files = Inr s"
    by (rule main_start_Inr)
  have "metrics_wf (GOARCH rt, GOOS rt, GoVersion rt, version) s" by (rule metrics_wf_start [OF st])
  with assms(2) show ?thesis
    by (induction rule: rtranclp_induct) (auto intro: metrics_wf_step)
qed

theorem main_metrics_wf_witness:
  "\<exists>s. main_start runtime_example ''0.0.0'' 9289 (Document test_document) world_A Map.empty = Inr s
       \<and> metrics_wf (''amd64'', ''linux'', ''go1.22.0'', ''0.0.0'') (on_tick world_B FullTick s)"
proof -
  obtain s where s: "main_start runtime_example ''0.0.0'' 9289 (Document test_document) world_A Map.empty = Inr s"
    using main_start_test_document by blast
  have "loop_step s (on_tick world_B FullTick s)"
    by (rule loop_step.tick) (simp add: tick_ready_def)
  then have "loop_step\<^sup>*\<^sup>* s (on_tick world_B FullTick s)" by (rule r_into_rtranclp)
  from main_metrics_wf [OF s this] s show ?thesis by (auto simp: runtime_example_def)
qed


lemma metrics_wf_finite:
  assumes "metrics_wf bk s"
  shows "finite_metrics (metric s)"
proof -
  let ?ids = "ID ` set (Backups (cfg s))"
  have f: "finite ?ids" by simp
  have "dom (Size (metric s)) \<subseteq> ?ids" and "dom (Time (metric s)) = dom (Size (metric s))"
    and "dom (Status (metric s)) = ?ids" and "dom (BackupFailed (metric s)) = ?ids"
    and "BuildInfo (metric s) = [bk \<mapsto> 1]"
    using assms by (simp_all add: metrics_wf_def metrics_ok_def Let_def)
  with f show ?thesis by (simp add: finite_metrics_def finite_subset)
qed

lemma main_reached:
  assumes "main_start rt version port cf w files = Inr s" and "New port cf = Inr c"
    and "loop_step\<^sup>*\<^sup>* s s'"
  shows "metrics_wf (GOARCH rt, GOOS rt, GoVersion rt, version) s'
         \<and> MetricsPrefix (cfg s') = MetricsPrefix c \<and> ID ` set (Backups (cfg s')) = ID ` set (Backups c)"
proof -
  from assms(1) obtain c' where n: "New port cf = Inr c'"
    and st: "start w c' (initializeCounters rt version c' (NewMetrics (MetricsPrefix c'))) files = Inr s"
    by (rule main_start_Inr)
  with assms(2) have "c' = c" by simp
  with metrics_wf_start [OF st] start_cfg [OF st] metrics_wf_steps [OF _ assms(3)] show ?thesis
    by auto
qed

text \<open>
  C22. What a scrape of the running exporter shows. In every state the loop reaches after
  \<^verbatim>\<open>main\<close> has started, reading the text \<^verbatim>\<open>/metrics\<close> serves gives: \<^verbatim>\<open>build_info\<close>
  with the runtime's and the version's labels at 1; a \<^verbatim>\<open>backup_status\<close> of 0 or 1 and
  a \<^verbatim>\<open>backup_failed\<close> series for exactly the configured identifiers; \<^verbatim>\<open>backup_size\<close>
  and \<^verbatim>\<open>backup_time\<close> only for configured identifiers and always together; a positive
  \<^verbatim>\<open>backup_nb\<close>; and, beyond the series the spec lists, the handler's own counters
  \<^verbatim>\<open>promhttp_metric_handler_errors_total{cause="encoding"}\<close> and
  \<^verbatim>\<open>{cause="gathering"}\<close> at 0 (registered because \<^verbatim>\<open>HandlerOpts.Registry\<close> is set).
  This holds when the configured prefix is a legal metric name.
\<close>

theorem main_endpoint_series:
  assumes "main_start rt version port cf w files = Inr s" and "New port cf = Inr c"
    and "loop_step\<^sup>*\<^sup>* s s'" and "valid_prefix (MetricsPrefix c)"
  shows "let body = exposition (metric s'); fq = BuildFQName (MetricsPrefix c);
             ids = ID ` set (Backups c) in
         scrape body (fq ''build_info'', [(''goarch'', GOARCH rt), (''goos'', GOOS rt),
             (''goversion'', GoVersion rt), (''version'', version)]) = Some 1
         \<and> (\<forall>i. scrape body (fq ''backup_status'', [(''id'', i)])
               \<in> (if i \<in> ids then {Some 0, Some 1} else {None}))
         \<and> (\<forall>i. (scrape body (fq ''backup_failed'', [(''id'', i)]) \<noteq> None) = (i \<in> ids))
         \<and> (\<forall>i. (scrape body (fq ''backup_size'', [(''id'', i)]) \<noteq> None)
               = (scrape body (fq ''backup_time'', [(''id'', i)]) \<noteq> None))
         \<and> (\<forall>i. scrape body (fq ''backup_size'', [(''id'', i)]) \<noteq> None \<longrightarrow> i \<in> ids)
         \<and> (\<exists>n. 0 < n \<and> scrape body (fq ''backup_nb'', []) = Some n)
         \<and> scrape body (''promhttp_metric_handler_errors_total'', [(''cause'', ''encoding'')]) = Some 0
         \<and> scrape body (''promhttp_metric_handler_errors_total'', [(''cause'', ''gathering'')]) = Some 0"
proof -
  let ?bk = "(GOARCH rt, GOOS rt, GoVersion rt, version)"
  let ?m = "metric s'"
  from main_reached [OF assms(1-3)]
  have wf: "metrics_wf ?bk s'" and pre: "MetricsPrefix (cfg s') = MetricsPrefix c"
    and ids: "ID ` set (Backups (cfg s')) = ID ` set (Backups c)" by blast+
  then have ns: "Namespace ?m = MetricsPrefix c" by (simp add: metrics_wf_def Let_def)
  have "scrape (exposition ?m) = map_of (concat (map fam_entries (registry_families ?m)))"
    unfolding exposition_def
    using registry_valid [of ?m] assms(4) ns registry_distinct registry_samples_distinct
    by (intro scrape_gather) simp_all
  also have "\<dots> = series ?m" by (rule registry_entries_series [OF metrics_wf_finite [OF wf]])
  finally have sc: "scrape (exposition ?m) = series ?m" .
  have ok: "metrics_ok (ID ` set (Backups c)) ?m" and st: "dom (Status ?m) = ID ` set (Backups c)"
    and bi: "BuildInfo ?m = [?bk \<mapsto> 1]" and nb: "0 < BackupTotal ?m"
    using wf ids by (simp_all add: metrics_wf_def Let_def)
  have status: "Status ?m i \<in> (if i \<in> ID ` set (Backups c) then {Some 0, Some 1} else {None})" for i
  proof (cases "i \<in> ID ` set (Backups c)")
    case True
    then obtain v where "Status ?m i = Some v" using st by blast
    moreover then have "v \<in> ran (Status ?m)" by (auto intro: ranI)
    ultimately show ?thesis using ok True by (auto simp: metrics_ok_def)
  next
    case False
    then show ?thesis using st by auto
  qed
  have "(BackupFailed ?m i \<noteq> None) = (i \<in> ID ` set (Backups c))"
    and "(Size ?m i \<noteq> None) = (Time ?m i \<noteq> None)"
    and "Size ?m i \<noteq> None \<longrightarrow> i \<in> ID ` set (Backups c)" for i
    using ok by (auto simp: metrics_ok_def)
  then show ?thesis
    using sc ns status bi nb
    by (simp add: Let_def series_def id_series_def build_series_def)
qed

theorem main_endpoint_series_witness:
  "New 9289 (Document test_document) = Inr (config_of [item_A])
   \<and> valid_prefix (MetricsPrefix (config_of [item_A]))
   \<and> (\<exists>s. main_start runtime_example ''0.0.0'' 9289 (Document test_document) world_A Map.empty = Inr s
         \<and> scrape (exposition (metric s)) (''backuprf_backup_status'', [(''id'', ''voh0ahch3E'')])
             \<in> {Some 0, Some 1}
         \<and> scrape (exposition (metric s))
             (''promhttp_metric_handler_errors_total'', [(''cause'', ''gathering'')]) = Some 0)"
proof -
  have n: "New 9289 (Document test_document) = Inr (config_of [item_A])"
    by (simp add: config_code test_document_def scenario_defs)
  have v: "valid_prefix (MetricsPrefix (config_of [item_A]))"
    by (simp add: scenario_defs valid_prefix_def valid_name_def is_name_char_def is_name_start_def
        is_label_start_def)
  obtain s where s: "main_start runtime_example ''0.0.0'' 9289 (Document test_document) world_A Map.empty = Inr s"
    using main_start_test_document by blast
  note r = main_endpoint_series [OF s n rtranclp.rtrancl_refl v, unfolded Let_def]
  have "scrape (exposition (metric s)) (BuildFQName (MetricsPrefix (config_of [item_A])) ''backup_status'',
          [(''id'', ''voh0ahch3E'')]) \<in> {Some 0, Some 1}"
    using r [THEN conjunct2, THEN conjunct1, THEN spec, of "''voh0ahch3E''"]
    by (simp add: scenario_defs)
  moreover have "scrape (exposition (metric s))
      (''promhttp_metric_handler_errors_total'', [(''cause'', ''gathering'')]) = Some 0"
    using r by blast
  ultimately show ?thesis using n v s by (auto simp: scenario_defs BuildFQName_def)
qed

text \<open>
  C30. \<^verbatim>\<open>-V\<close> anywhere on the command line stops the program inside
  \<^verbatim>\<open>kong.Parse\<close>: it prints the banner of the trimmed version and exits (or kong
  prints help, or reports a usage error), before any configuration is read, even when
  the required \<^verbatim>\<open>--config\<close> is missing; the exporter never starts.
\<close>

theorem version_flag_stops_main:
  assumes "''-V'' \<in> set args"
  shows "main_run tlib bi version rt args load w files net \<in>
           {Inl HelpShown, Inl (VersionShown (printVersion tlib bi (Version_of version)))}
           \<union> range (\<lambda>e. Inl (UsageError e))"
  using kong_parse_version_flag [OF assms, of tlib bi "Version_of version"]
  by (auto simp: main_run_def)

theorem version_flag_stops_main_witness:
  "main_run example_time_lib (Some example_build) version_txt_example runtime_example [''-V'']
      (\<lambda>_. ReadError) world_A Map.empty free_net
   \<in> {Inl HelpShown, Inl (VersionShown (printVersion example_time_lib (Some example_build) ''0.0.0''))}
      \<union> range (\<lambda>e. Inl (UsageError e))"
  using version_flag_stops_main [of "[''-V'']" example_time_lib "Some example_build" version_txt_example
      runtime_example "\<lambda>_. ReadError" world_A Map.empty free_net]
  by (simp add: Version_of_example)

text \<open>
  C31. The port round trip: a port \<open>n\<close> written in decimal on the command line
  (\<^verbatim>\<open>--port=n\<close>, decoded by \<^verbatim>\<open>strconv.ParseInt\<close>) becomes \<^verbatim>\<open>cfg.Port\<close>, is printed
  back by \<^verbatim>\<open>strconv.Itoa\<close> into the server's address, and the exporter listens on
  exactly \<open>n\<close>, when \<open>n\<close> is a TCP port that can be bound and the start succeeded.
\<close>

theorem port_roundtrip:
  assumes "0 \<le> n" and "n \<le> 65535" and "\<not> bind_fails net n"
    and "main_start rt (Version_of version) n (load f) w files = Inr s"
  shows "main_run tlib bi version rt [''--config='' @ f, ''--port='' @ Itoa n] load w files net = Inr (s, n)"
proof -
  have k: "kong_parse tlib bi (Version_of version) [''--config='' @ f, ''--port='' @ Itoa n] =
             KongOk \<lparr>ConfigFile = f, CliPort = n, CliVersion = False\<rparr>"
    using assms(1,2) by (intro kong_parse_config_port) simp_all
  show ?thesis
    unfolding main_run_def k using assms main_start_Port [OF assms(4)]
    by (simp add: ListenAndServe_server_Addr)
qed

theorem port_roundtrip_witness:
  "\<exists>s. main_run example_time_lib None version_txt_example runtime_example
         [''--config='' @ ''c.yaml'', ''--port='' @ Itoa 9289] (\<lambda>_. Document test_document)
         world_A Map.empty free_net = Inr (s, 9289)"
proof -
  obtain s where s: "main_start runtime_example ''0.0.0'' 9289 (Document test_document) world_A Map.empty = Inr s"
    using main_start_test_document_port by blast
  have "main_start runtime_example (Version_of version_txt_example) 9289
          ((\<lambda>_. Document test_document) ''c.yaml'') world_A Map.empty = Inr s"
    using s by (simp add: Version_of_example)
  from port_roundtrip [OF _ _ _ this, where net = free_net and tlib = example_time_lib and bi = None]
  show ?thesis
    by (auto simp: free_net_def)
qed

text \<open>
  C32. A port that is not a TCP port (negative or above 65535) is accepted by the
  command line and by \<^verbatim>\<open>config.New\<close>; \<^verbatim>\<open>main\<close> creates the tickers, runs the first
  full sweep and starts the goroutine, and only then \<^verbatim>\<open>ListenAndServe\<close> fails with an
  invalid port and \<^verbatim>\<open>l.Fatal\<close> ends the program.
\<close>

theorem invalid_port_fails_after_start:
  assumes "n < 0 \<or> 65535 < n" and "- (2 ^ 63) \<le> n" and "n < 2 ^ 63"
    and "main_start rt (Version_of version) n (load f) w files = Inr s"
  shows "main_run tlib bi version rt [''--config='' @ f, ''--port='' @ Itoa n] load w files net =
           Inl (ServeFailed ''invalid port'')"
proof -
  have k: "kong_parse tlib bi (Version_of version) [''--config='' @ f, ''--port='' @ Itoa n] =
             KongOk \<lparr>ConfigFile = f, CliPort = n, CliVersion = False\<rparr>"
    using assms(2,3) by (rule kong_parse_config_port)
  show ?thesis
    unfolding main_run_def k using assms(1) assms(4) main_start_Port [OF assms(4)]
    by (auto simp: ListenAndServe_server_Addr)
qed

theorem invalid_port_fails_after_start_witness:
  "\<exists>s. main_start runtime_example ''0.0.0'' 70000 (Document test_document) world_A Map.empty = Inr s
     \<and> main_run example_time_lib None version_txt_example runtime_example
         [''--config='' @ ''c.yaml'', ''--port='' @ Itoa 70000] (\<lambda>_. Document test_document)
         world_A Map.empty free_net = Inl (ServeFailed ''invalid port'')"
proof -
  obtain s where s: "main_start runtime_example ''0.0.0'' 70000 (Document test_document) world_A Map.empty = Inr s"
    using main_start_test_document_port by blast
  have "main_start runtime_example (Version_of version_txt_example) 70000
          ((\<lambda>_. Document test_document) ''c.yaml'') world_A Map.empty = Inr s"
    using s by (simp add: Version_of_example)
  from invalid_port_fails_after_start [OF _ _ _ this, where net = free_net and tlib = example_time_lib and bi = None] s
  show ?thesis
    by auto
qed

end
